theory Spec2Isabelle
  imports Complex_Main "HOL-Library.Multiset" "HOL-Library.Word"
begin

section \<open>El Topo: mesh pincher and collision pipeline\<close>

text \<open>
  A shallow embedding of \<^verbatim>\<open>meshpincher.cpp\<close> and of the candidate processing of
  \<^verbatim>\<open>collisionpipeline.cpp\<close>. Indices (\<^verbatim>\<open>size_t\<close>) are natural numbers, except
  where the source multiplies them (the iteration cap of the impulse pass), which is a
  64-bit word. Coordinates (\<^verbatim>\<open>double\<close>) are idealised as real numbers: every
  statement below is about which branch the source takes and which values it passes on,
  never about rounding.
\<close>

subsection \<open>Partition of the triangles incident to a vertex\<close>

text \<open>
  \<^verbatim>\<open>v.erase(find(v.begin(), v.end(), x))\<close>: the first occurrence of \<open>x\<close> is removed.
  When \<open>x\<close> does not occur, \<^verbatim>\<open>find\<close> returns \<^verbatim>\<open>end()\<close> and erasing it is undefined
  behaviour: the model returns \<open>None\<close>.
\<close>

fun erase_first :: "nat \<Rightarrow> nat list \<Rightarrow> nat list option" where
  "erase_first x [] = None"
| "erase_first x (y # ys) =
     (if x = y then Some ys else map_option ((#) y) (erase_first x ys))"

text \<open>
  The \<^verbatim>\<open>for\<close> loop of lines 77-95: every triangle still in
  \<^verbatim>\<open>triangles_incident_to_vertex\<close> that is adjacent to \<open>curr_tri\<close> and neither
  visited nor already waiting is pushed onto \<^verbatim>\<open>unvisited_triangles\<close>.
  \<open>adj\<close> stands for \<^verbatim>\<open>m_surf.m_mesh.triangles_are_adjacent\<close>, whose body is not
  among the sources.
\<close>

fun push_adjacent ::
  "(nat \<Rightarrow> nat \<Rightarrow> bool) \<Rightarrow> nat \<Rightarrow> nat list \<Rightarrow> nat list \<Rightarrow> nat list \<Rightarrow> nat list" where
  "push_adjacent adj curr_tri visited [] unvisited = unvisited"
| "push_adjacent adj curr_tri visited (t # ts) unvisited =
     (if curr_tri = t then push_adjacent adj curr_tri visited ts unvisited
      else if adj curr_tri t \<and> t \<notin> set unvisited \<and> t \<notin> set visited
        then push_adjacent adj curr_tri visited ts (unvisited @ [t])
        else push_adjacent adj curr_tri visited ts unvisited)"

lemma erase_first_length:
  "erase_first x xs = Some ys \<Longrightarrow> length xs = Suc (length ys)"
  by (induction xs arbitrary: ys) (auto split: if_splits)

text \<open>
  The inner \<^verbatim>\<open>while\<close> loop of lines 64-96, on
  (\<^verbatim>\<open>triangles_incident_to_vertex\<close>, \<^verbatim>\<open>unvisited_triangles\<close>,
  \<^verbatim>\<open>visited_triangles\<close>). It returns the remaining incident triangles and the
  visited ones.
\<close>

function grow_component ::
  "(nat \<Rightarrow> nat \<Rightarrow> bool) \<Rightarrow> nat list \<Rightarrow> nat list \<Rightarrow> nat list \<Rightarrow> (nat list \<times> nat list) option" where
  "grow_component adj incident unvisited visited =
     (if unvisited = [] then Some (incident, visited)
      else
        (let curr_tri = last unvisited;
             unvisited1 = butlast unvisited
         in case erase_first curr_tri incident of
              None \<Rightarrow> None
            | Some incident1 \<Rightarrow>
                grow_component adj incident1
                  (push_adjacent adj curr_tri (visited @ [curr_tri]) incident1 unvisited1)
                  (visited @ [curr_tri])))"
  by pat_completeness auto
termination
  by (relation "measure (\<lambda>(adj, incident, unvisited, visited). length incident)")
     (auto dest: erase_first_length)

declare grow_component.simps [simp del]

lemma grow_component_length:
  "grow_component adj incident unvisited visited = Some (incident', visited') \<Longrightarrow>
   length incident' \<le> length incident \<and> (unvisited \<noteq> [] \<longrightarrow> length incident' < length incident)"
proof (induction adj incident unvisited visited rule: grow_component.induct)
  case (1 adj incident unvisited visited)
  show ?case
  proof (cases "unvisited = []")
    case True
    with "1.prems" show ?thesis by (simp add: grow_component.simps[of adj incident])
  next
    case False
    from False "1.prems" obtain incident1 where
      e: "erase_first (last unvisited) incident = Some incident1"
      by (auto simp: grow_component.simps[of adj incident] Let_def split: option.splits)
    from False "1.prems" e have
      r: "grow_component adj incident1
            (push_adjacent adj (last unvisited) (visited @ [last unvisited]) incident1 (butlast unvisited))
            (visited @ [last unvisited]) = Some (incident', visited')"
      by (simp add: grow_component.simps[of adj incident] Let_def)
    from "1.IH"[OF False refl refl e r] have "length incident' \<le> length incident1" by simp
    with erase_first_length[OF e] show ?thesis by simp
  qed
qed

text \<open>
  The outer \<^verbatim>\<open>while\<close> loop of lines 58-100: each round seeds the search with the last
  remaining incident triangle and appends the visited set as one connected component.
\<close>

function partition_loop ::
  "(nat \<Rightarrow> nat \<Rightarrow> bool) \<Rightarrow> nat list \<Rightarrow> nat list list \<Rightarrow> nat list list option" where
  "partition_loop adj incident connected_components =
     (if incident = [] then Some connected_components
      else
        (case grow_component adj incident [last incident] [] of
           None \<Rightarrow> None
         | Some (incident1, visited) \<Rightarrow>
             partition_loop adj incident1 (connected_components @ [visited])))"
  by pat_completeness auto
termination
  by (relation "measure (\<lambda>(adj, incident, connected_components). length incident)")
     (auto dest: grow_component_length)

declare partition_loop.simps [simp del]

text \<open>
  \<^verbatim>\<open>MeshPincher::partition_vertex_neighbourhood\<close>. The incidence list
  \<^verbatim>\<open>m_vertex_to_triangle_map[vertex_index]\<close> is copied; reading it out of range is
  undefined behaviour (\<open>None\<close>). The components are appended to the vector passed in.
\<close>

definition partition_vertex_neighbourhood ::
  "(nat \<Rightarrow> nat \<Rightarrow> bool) \<Rightarrow> nat list list \<Rightarrow> nat \<Rightarrow> nat list list \<Rightarrow> nat list list option" where
  "partition_vertex_neighbourhood adj vertex_to_triangle_map vertex_index connected_components =
     (if vertex_index < length vertex_to_triangle_map
      then partition_loop adj (vertex_to_triangle_map ! vertex_index) connected_components
      else None)"

text \<open>
  Two triangles of a set \<open>S\<close> are linked when one is adjacent to the other; a chain of
  pairwise-adjacent triangles of \<open>S\<close> is a path of this relation.
\<close>

definition adjacent_within :: "(nat \<Rightarrow> nat \<Rightarrow> bool) \<Rightarrow> nat set \<Rightarrow> (nat \<times> nat) set" where
  "adjacent_within adj S = {(a, b). a \<in> S \<and> b \<in> S \<and> (adj a b \<or> adj b a)}"

lemma erase_first_Some: "x \<in> set xs \<Longrightarrow> \<exists>ys. erase_first x xs = Some ys"
  by (induction xs) auto

lemma erase_first_mset:
  "erase_first x xs = Some ys \<Longrightarrow> mset xs = add_mset x (mset ys)"
  by (induction xs arbitrary: ys) (auto split: if_splits)

lemma erase_first_set:
  "erase_first x xs = Some ys \<Longrightarrow> x \<in> set xs \<and> set ys \<subseteq> set xs \<and> set xs \<subseteq> insert x (set ys)"
  by (induction xs arbitrary: ys) (auto split: if_splits)

lemma push_adjacent_distinct:
  "distinct unvisited \<Longrightarrow> distinct (push_adjacent adj c visited ts unvisited)"
  by (induction ts arbitrary: unvisited) auto

lemma push_adjacent_set:
  "x \<in> set (push_adjacent adj c visited ts unvisited) \<Longrightarrow>
   x \<in> set unvisited \<or> (x \<in> set ts \<and> adj c x)"
proof (induction ts arbitrary: unvisited)
  case Nil
  then show ?case by simp
next
  case (Cons t ts)
  show ?case
  proof (cases "c = t")
    case True
    with Cons.prems have "x \<in> set (push_adjacent adj c visited ts unvisited)" by simp
    from Cons.IH[OF this] show ?thesis by auto
  next
    case False
    show ?thesis
    proof (cases "adj c t \<and> t \<notin> set unvisited \<and> t \<notin> set visited")
      case True
      with False Cons.prems have "x \<in> set (push_adjacent adj c visited ts (unvisited @ [t]))"
        by simp
      from Cons.IH[OF this] True show ?thesis by auto
    next
      case no: False
      with False Cons.prems have "x \<in> set (push_adjacent adj c visited ts unvisited)"
        by auto
      from Cons.IH[OF this] show ?thesis by auto
    qed
  qed
qed

lemma grow_component_inv:
  assumes "distinct unvisited" "set unvisited \<subseteq> set incident" "set incident \<subseteq> S"
    and "\<forall>x \<in> set unvisited \<union> set visited. (seed, x) \<in> (adjacent_within adj S)\<^sup>*"
  shows "\<exists>incident' visited'.
           grow_component adj incident unvisited visited = Some (incident', visited') \<and>
           mset incident' + mset visited' = mset incident + mset visited \<and>
           (unvisited \<noteq> [] \<longrightarrow> visited' \<noteq> []) \<and>
           (\<forall>x \<in> set visited'. (seed, x) \<in> (adjacent_within adj S)\<^sup>*)"
  using assms
proof (induction adj incident unvisited visited rule: grow_component.induct)
  case (1 adj incident unvisited visited)
  show ?case
  proof (cases "unvisited = []")
    case True
    with "1.prems" show ?thesis by (simp add: grow_component.simps[of adj incident])
  next
    case False
    let ?c = "last unvisited"
    let ?u1 = "butlast unvisited"
    have cin: "?c \<in> set incident" using False "1.prems"(2) last_in_set by blast
    then obtain incident1 where e: "erase_first ?c incident = Some incident1"
      using erase_first_Some by blast
    let ?v1 = "visited @ [?c]"
    let ?u2 = "push_adjacent adj ?c ?v1 incident1 ?u1"
    have du1: "distinct ?u1" using "1.prems"(1) by (simp add: distinct_butlast)
    have "distinct (?u1 @ [?c])" using "1.prems"(1) False by simp
    then have cnot: "?c \<notin> set ?u1" by simp
    have sub1: "set ?u1 \<subseteq> set incident1"
    proof
      fix x assume x: "x \<in> set ?u1"
      then have "x \<in> set incident" using "1.prems"(2) in_set_butlastD by fastforce
      moreover have "x \<noteq> ?c" using x cnot by auto
      ultimately show "x \<in> set incident1" using erase_first_set[OF e] by auto
    qed
    have d2: "distinct ?u2" using du1 by (rule push_adjacent_distinct)
    have s2: "set ?u2 \<subseteq> set incident1"
      using sub1 push_adjacent_set by fastforce
    have i1S: "set incident1 \<subseteq> S" using erase_first_set[OF e] "1.prems"(3) by auto
    have cS: "?c \<in> S" using cin "1.prems"(3) by auto
    have seedc: "(seed, ?c) \<in> (adjacent_within adj S)\<^sup>*"
      using "1.prems"(4) False by simp
    have conn: "\<forall>x \<in> set ?u2 \<union> set ?v1. (seed, x) \<in> (adjacent_within adj S)\<^sup>*"
    proof
      fix x assume "x \<in> set ?u2 \<union> set ?v1"
      then consider "x \<in> set ?u1" | "x \<in> set incident1" "adj ?c x" | "x \<in> set visited" | "x = ?c"
        using push_adjacent_set[of x adj ?c ?v1 incident1 ?u1] by auto
      then show "(seed, x) \<in> (adjacent_within adj S)\<^sup>*"
      proof cases
        case 1 then show ?thesis using "1.prems"(4) in_set_butlastD by fastforce
      next
        case 2
        then have "(?c, x) \<in> adjacent_within adj S" using cS i1S by (auto simp: adjacent_within_def)
        with seedc show ?thesis by (rule rtrancl_into_rtrancl)
      next
        case 3 then show ?thesis using "1.prems"(4) by simp
      next
        case 4 then show ?thesis using seedc by simp
      qed
    qed
    from "1.IH"[OF False refl refl e d2 s2 i1S conn]
    obtain incident' visited' where
      r: "grow_component adj incident1 ?u2 ?v1 = Some (incident', visited')"
      and m: "mset incident' + mset visited' = mset incident1 + mset ?v1"
      and c: "\<forall>x \<in> set visited'. (seed, x) \<in> (adjacent_within adj S)\<^sup>*"
      by blast
    have g: "grow_component adj incident unvisited visited = Some (incident', visited')"
      using False e r by (simp add: grow_component.simps[of adj incident] Let_def)
    have m': "mset incident' + mset visited' = mset incident + mset visited"
      using m erase_first_mset[OF e] by simp
    have ne: "visited' \<noteq> []"
    proof
      assume "visited' = []"
      with m have "mset incident' = mset incident1 + mset ?v1" by simp
      then have "length incident' = length incident1 + length ?v1"
        by (metis length_append mset_append size_mset)
      moreover have "length incident' \<le> length incident1"
        using grow_component_length[OF r] by simp
      ultimately show False by simp
    qed
    from g m' ne c show ?thesis by blast
  qed
qed


lemma adjacent_within_sym:
  "(a, b) \<in> (adjacent_within adj S)\<^sup>* \<Longrightarrow> (b, a) \<in> (adjacent_within adj S)\<^sup>*"
proof -
  have "sym (adjacent_within adj S)" by (auto simp: sym_def adjacent_within_def)
  then have "sym ((adjacent_within adj S)\<^sup>*)" by (rule sym_rtrancl)
  then show "(a, b) \<in> (adjacent_within adj S)\<^sup>* \<Longrightarrow> (b, a) \<in> (adjacent_within adj S)\<^sup>*"
    by (auto dest: symD)
qed

lemma partition_loop_inv:
  assumes "set incident \<subseteq> S"
  shows "\<exists>res. partition_loop adj incident connected_components = Some (connected_components @ res) \<and>
           mset (concat res) = mset incident \<and>
           [] \<notin> set res \<and>
           (\<forall>c \<in> set res. \<forall>a \<in> set c. \<forall>b \<in> set c. (a, b) \<in> (adjacent_within adj S)\<^sup>*)"
  using assms
proof (induction adj incident connected_components rule: partition_loop.induct)
  case (1 adj incident connected_components)
  show ?case
  proof (cases "incident = []")
    case True
    then have "partition_loop adj incident connected_components = Some (connected_components @ [])"
      by (subst partition_loop.simps) simp
    with True show ?thesis by (intro exI[of _ "[]"]) simp
  next
    case False
    let ?seed = "last incident"
    have "\<exists>incident' visited'.
           grow_component adj incident [?seed] [] = Some (incident', visited') \<and>
           mset incident' + mset visited' = mset incident + mset [] \<and>
           ([?seed] \<noteq> [] \<longrightarrow> visited' \<noteq> []) \<and>
           (\<forall>x \<in> set visited'. (?seed, x) \<in> (adjacent_within adj S)\<^sup>*)"
      using False "1.prems" by (intro grow_component_inv) auto
    then obtain incident1 visited where
      g: "grow_component adj incident [?seed] [] = Some (incident1, visited)"
      and m: "mset incident1 + mset visited = mset incident"
      and ne: "visited \<noteq> []"
      and c: "\<forall>x \<in> set visited. (?seed, x) \<in> (adjacent_within adj S)\<^sup>*"
      by auto
    have "set_mset (mset incident1) \<subseteq> set_mset (mset incident)"
      using m by (metis set_mset_union Un_upper1)
    then have sub: "set incident1 \<subseteq> S" using "1.prems" by auto
    from "1.IH"[OF False g refl sub] obtain res where
      r: "partition_loop adj incident1 (connected_components @ [visited]) =
            Some ((connected_components @ [visited]) @ res)"
      and mr: "mset (concat res) = mset incident1"
      and ner: "[] \<notin> set res"
      and cr: "\<forall>c \<in> set res. \<forall>a \<in> set c. \<forall>b \<in> set c. (a, b) \<in> (adjacent_within adj S)\<^sup>*"
      by blast
    have p: "partition_loop adj incident connected_components =
               Some (connected_components @ (visited # res))"
      using False g r by (simp add: partition_loop.simps[of adj incident])
    have m2: "mset (concat (visited # res)) = mset incident"
      using m mr by (simp add: union_commute)
    have ne2: "[] \<notin> set (visited # res)" using ne ner by auto
    have cv: "\<forall>a \<in> set visited. \<forall>b \<in> set visited. (a, b) \<in> (adjacent_within adj S)\<^sup>*"
    proof (intro ballI)
      fix a b assume "a \<in> set visited" "b \<in> set visited"
      then have "(?seed, a) \<in> (adjacent_within adj S)\<^sup>*" "(?seed, b) \<in> (adjacent_within adj S)\<^sup>*"
        using c by auto
      then show "(a, b) \<in> (adjacent_within adj S)\<^sup>*"
        using adjacent_within_sym rtrancl_trans by metis
    qed
    have c2: "\<forall>c \<in> set (visited # res). \<forall>a \<in> set c. \<forall>b \<in> set c. (a, b) \<in> (adjacent_within adj S)\<^sup>*"
      using cv cr by auto
    from p m2 ne2 c2 show ?thesis by blast
  qed
qed

text \<open>
  Claim C10. \<^verbatim>\<open>partition_vertex_neighbourhood\<close>, called with an empty output vector,
  returns (it never runs into the undefined \<^verbatim>\<open>erase\<close>) a partition of the incidence
  list of the vertex: the components together hold exactly the entries of the list
  (as a multiset), so when the list has no repeated triangle every triangle is in
  exactly one component and occurs there once; no component is empty; and any two
  triangles of one component are linked by a chain of pairwise-adjacent triangles that
  are all incident to the vertex.
\<close>

theorem partition_vertex_neighbourhood_partition:
  assumes "vertex_index < length vertex_to_triangle_map"
  shows "\<exists>components.
     partition_vertex_neighbourhood adj vertex_to_triangle_map vertex_index [] = Some components \<and>
     mset (concat components) = mset (vertex_to_triangle_map ! vertex_index) \<and>
     (distinct (vertex_to_triangle_map ! vertex_index) \<longrightarrow> distinct (concat components)) \<and>
     [] \<notin> set components \<and>
     (\<forall>c \<in> set components. \<forall>a \<in> set c. \<forall>b \<in> set c.
        (a, b) \<in> (adjacent_within adj (set (vertex_to_triangle_map ! vertex_index)))\<^sup>*)"
proof -
  let ?inc = "vertex_to_triangle_map ! vertex_index"
  from partition_loop_inv[of ?inc "set ?inc" adj "[]"] obtain res where
    r: "partition_loop adj ?inc [] = Some res"
    and m: "mset (concat res) = mset ?inc"
    and ne: "[] \<notin> set res"
    and c: "\<forall>c \<in> set res. \<forall>a \<in> set c. \<forall>b \<in> set c. (a, b) \<in> (adjacent_within adj (set ?inc))\<^sup>*"
    by auto
  have d: "distinct ?inc \<longrightarrow> distinct (concat res)"
    using m mset_eq_imp_distinct_iff by blast
  from assms r have "partition_vertex_neighbourhood adj vertex_to_triangle_map vertex_index [] = Some res"
    by (simp add: partition_vertex_neighbourhood_def)
  with m d ne c show ?thesis by blast
qed


theorem partition_vertex_neighbourhood_partition_witness:
  "(1::nat) < length [[], [0, 2, 1, 3::nat]] \<and>
   partition_vertex_neighbourhood (\<lambda>a b. (a, b) \<in> {(0, 1), (1, 0), (2, 3), (3, 2)})
     [[], [0, 2, 1, 3]] 1 [] = Some [[3, 2], [1, 0]] \<and>
   mset (concat [[3, 2], [1, 0::nat]]) = mset [0, 2, 1, 3] \<and>
   distinct (concat [[3, 2], [1, 0::nat]]) \<and>
   (3, 2) \<in> (adjacent_within (\<lambda>a b. (a, b) \<in> {(0, 1), (1, 0), (2, 3), (3, 2)}) {0, 1, 2, 3})\<^sup>* \<and>
   (1, 0) \<in> (adjacent_within (\<lambda>a b. (a, b) \<in> {(0, 1), (1, 0), (2, 3), (3, 2)}) {0, 1, 2, 3})\<^sup>*"
proof -
  let ?adj = "\<lambda>a b::nat. (a, b) \<in> {(0, 1), (1, 0), (2, 3), (3, 2)}"
  let ?m = "[[], [0, 2, 1, 3::nat]]"
  have h: "(1::nat) < length ?m" by simp
  have e: "partition_vertex_neighbourhood ?adj ?m 1 [] = Some [[3, 2], [1, 0]]"
    by (simp add: partition_vertex_neighbourhood_def partition_loop.simps grow_component.simps)
  from partition_vertex_neighbourhood_partition[OF h, of ?adj] e
  have c: "\<forall>c \<in> set [[3, 2], [1, 0::nat]]. \<forall>a \<in> set c. \<forall>b \<in> set c.
             (a, b) \<in> (adjacent_within ?adj (set (?m ! 1)))\<^sup>*"
    by simp
  have s: "set (?m ! 1) = {0, 1, 2, 3}" by auto
  from c have "(3, 2) \<in> (adjacent_within ?adj (set (?m ! 1)))\<^sup>*"
    and "(1, 0) \<in> (adjacent_within ?adj (set (?m ! 1)))\<^sup>*"
    by simp_all
  with h e show ?thesis unfolding s by simp
qed


subsection \<open>The dynamic surface\<close>

text \<open>\<^verbatim>\<open>Vec3d\<close> with the operations of \<^verbatim>\<open>common/vec.h\<close> that the sources use.\<close>

type_synonym Vec3d = "real \<times> real \<times> real"

fun vadd :: "Vec3d \<Rightarrow> Vec3d \<Rightarrow> Vec3d" where
  "vadd (a, b, c) (d, e, f) = (a + d, b + e, c + f)"

fun vsub :: "Vec3d \<Rightarrow> Vec3d \<Rightarrow> Vec3d" where
  "vsub (a, b, c) (d, e, f) = (a - d, b - e, c - f)"

fun smul :: "real \<Rightarrow> Vec3d \<Rightarrow> Vec3d" where
  "smul k (a, b, c) = (k * a, k * b, k * c)"

fun dot :: "Vec3d \<Rightarrow> Vec3d \<Rightarrow> real" where
  "dot (a, b, c) (d, e, f) = a * d + b * e + c * f"

definition mag :: "Vec3d \<Rightarrow> real" where
  "mag v = sqrt (dot v v)"

fun minmax :: "Vec3d \<Rightarrow> Vec3d \<Rightarrow> Vec3d \<Rightarrow> Vec3d \<times> Vec3d" where
  "minmax (a, b, c) (d, e, f) (g, h, i) =
     ((min a (min d g), min b (min e h), min c (min f i)),
      (max a (max d g), max b (max e h), max c (max f i)))"

text \<open>
  The fields of \<^verbatim>\<open>DynamicSurface\<close> / \<^verbatim>\<open>SurfTrack\<close> and of its
  \<^verbatim>\<open>NonDestructiveTriMesh\<close> that the pincher and the collision pipeline read or
  write. \<open>m_vertex_free\<close> is the tombstone of a vertex slot (spec, Lifecycle:
  removal "only marks the slot free").
\<close>

type_synonym Vec2st = "nat \<times> nat"
type_synonym Vec3st = "nat \<times> nat \<times> nat"
type_synonym Vec4st = "nat \<times> nat \<times> nat \<times> nat"
type_synonym Vec4d = "real \<times> real \<times> real \<times> real"

record surface =
  pm_positions :: "Vec3d list"
  pm_newpositions :: "Vec3d list"
  m_velocities :: "Vec3d list"
  m_masses :: "real list"
  m_vertex_free :: "bool list"
  m_tris :: "Vec3st list"
  m_edges :: "Vec2st list"
  m_vertex_to_triangle_map :: "nat list list"
  m_vertex_to_edge_map :: "nat list list"
  m_proximity_epsilon :: real
  m_collision_safety :: bool

definition get_position :: "surface \<Rightarrow> nat \<Rightarrow> Vec3d" where
  "get_position s v = pm_positions s ! v"

definition get_newposition :: "surface \<Rightarrow> nat \<Rightarrow> Vec3d" where
  "get_newposition s v = pm_newpositions s ! v"

definition get_triangle :: "surface \<Rightarrow> nat \<Rightarrow> Vec3st" where
  "get_triangle s t = m_tris s ! t"

text \<open>
  Modelled from the spec: \<^verbatim>\<open>get_num_vertices\<close>, \<^verbatim>\<open>set_position\<close> and
  \<^verbatim>\<open>set_newposition\<close> of \<^verbatim>\<open>DynamicSurface\<close> are not among the sources. Section 4.5 has
  the position arrays \<open>x\<close> and \<open>x'\<close> aligned with the vertex indices, and the two
  setters write one entry of them.
\<close>

definition get_num_vertices :: "surface \<Rightarrow> nat" where
  "get_num_vertices s = length (pm_positions s)"

definition set_position :: "nat \<Rightarrow> Vec3d \<Rightarrow> surface \<Rightarrow> surface" where
  "set_position v x s = s\<lparr>pm_positions := (pm_positions s)[v := x]\<rparr>"

definition set_newposition :: "nat \<Rightarrow> Vec3d \<Rightarrow> surface \<Rightarrow> surface" where
  "set_newposition v x s = s\<lparr>pm_newpositions := (pm_newpositions s)[v := x]\<rparr>"

text \<open>
  A vertex at its two poses with its index, as the continuous tests take it, and a
  vertex at one pose with its index, as the static test takes it.
\<close>

type_synonym posed = "Vec3d \<times> Vec3d \<times> nat"
type_synonym placed = "Vec3d \<times> nat"

text \<open>
  The functions the sources call whose bodies are not among them: the exact geometric
  predicates and distance queries (\<^verbatim>\<open>common/collisionqueries\<close>,
  \<^verbatim>\<open>common/ccd_wrapper\<close>), the bounding boxes and the solid flag of the surface, the
  mesh's adjacency test and triangle sort, and the queries of the broad phase (answered
  by acceleration grids that are not among the sources; the surface owns its broad
  phase, so a query takes the surface). They are parameters of the model. A query
  returns what the source appends to its output vector; a test that fills output
  parameters when it succeeds returns them in \<open>Some\<close>.
\<close>

record externals =
  vertex_is_solid :: "surface \<Rightarrow> nat \<Rightarrow> bool"
  triangles_are_adjacent :: "surface \<Rightarrow> nat \<Rightarrow> nat \<Rightarrow> bool"
  sort_triangle :: "Vec3st \<Rightarrow> Vec3st"
  segment_segment_collision ::
    "posed \<Rightarrow> posed \<Rightarrow> posed \<Rightarrow> posed \<Rightarrow> (real \<times> real \<times> Vec3d \<times> real) option"
  point_triangle_collision ::
    "posed \<Rightarrow> posed \<Rightarrow> posed \<Rightarrow> posed \<Rightarrow> (real \<times> real \<times> real \<times> Vec3d \<times> real) option"
  check_edge_edge_proximity ::
    "Vec3d \<Rightarrow> Vec3d \<Rightarrow> Vec3d \<Rightarrow> Vec3d \<Rightarrow> real \<times> real \<times> real \<times> Vec3d"
  check_point_triangle_proximity ::
    "Vec3d \<Rightarrow> Vec3d \<Rightarrow> Vec3d \<Rightarrow> Vec3d \<Rightarrow> real \<times> real \<times> real \<times> real \<times> Vec3d"
  segment_triangle_intersection ::
    "placed \<Rightarrow> placed \<Rightarrow> placed \<Rightarrow> placed \<Rightarrow> placed \<Rightarrow> bool \<Rightarrow> bool"
  check_triangle_triangle_intersection :: "Vec3st \<Rightarrow> Vec3st \<Rightarrow> Vec3d list \<Rightarrow> bool"
  vertex_continuous_bounds :: "surface \<Rightarrow> nat \<Rightarrow> Vec3d \<times> Vec3d"
  edge_continuous_bounds :: "surface \<Rightarrow> nat \<Rightarrow> Vec3d \<times> Vec3d"
  triangle_continuous_bounds :: "surface \<Rightarrow> nat \<Rightarrow> Vec3d \<times> Vec3d"
  triangle_static_bounds :: "surface \<Rightarrow> nat \<Rightarrow> Vec3d \<times> Vec3d"
  get_potential_vertex_collisions :: "surface \<Rightarrow> Vec3d \<Rightarrow> Vec3d \<Rightarrow> bool \<Rightarrow> bool \<Rightarrow> nat list"
  get_potential_edge_collisions :: "surface \<Rightarrow> Vec3d \<Rightarrow> Vec3d \<Rightarrow> bool \<Rightarrow> bool \<Rightarrow> nat list"
  get_potential_triangle_collisions :: "surface \<Rightarrow> Vec3d \<Rightarrow> Vec3d \<Rightarrow> bool \<Rightarrow> bool \<Rightarrow> nat list"

text \<open>
  Modelled from the spec: \<^verbatim>\<open>edge_is_solid\<close> and \<^verbatim>\<open>triangle_is_solid\<close> of
  \<^verbatim>\<open>DynamicSurface\<close> are not among the sources. Section 3: an edge is solid iff both
  endpoints are solid, a triangle iff all three vertices are.
\<close>

definition edge_is_solid :: "externals \<Rightarrow> surface \<Rightarrow> nat \<Rightarrow> bool" where
  "edge_is_solid ext s e =
     (case m_edges s ! e of (a, b) \<Rightarrow> vertex_is_solid ext s a \<and> vertex_is_solid ext s b)"

definition triangle_is_solid :: "externals \<Rightarrow> surface \<Rightarrow> nat \<Rightarrow> bool" where
  "triangle_is_solid ext s t =
     (case get_triangle s t of (a, b, c) \<Rightarrow>
        vertex_is_solid ext s a \<and> vertex_is_solid ext s b \<and> vertex_is_solid ext s c)"


subsection \<open>The intersection audit\<close>

text \<open>
  \<^verbatim>\<open>check_edge_triangle_intersection_by_index\<close> (lines 29-51). The static test is
  called with \<^verbatim>\<open>DEGEN_COUNTS_AS_INTERSECTION = true\<close>.
\<close>

definition check_edge_triangle_intersection_by_index ::
  "externals \<Rightarrow> nat \<Rightarrow> nat \<Rightarrow> nat \<Rightarrow> nat \<Rightarrow> nat \<Rightarrow> Vec3d list \<Rightarrow> bool" where
  "check_edge_triangle_intersection_by_index ext edge_a edge_b triangle_a triangle_b triangle_c
       m_positions =
     (if edge_a = triangle_a \<or> edge_a = triangle_b \<or> edge_a = triangle_c
         \<or> edge_b = triangle_a \<or> edge_b = triangle_b \<or> edge_b = triangle_c
      then False
      else segment_triangle_intersection ext
             (m_positions ! edge_a, edge_a) (m_positions ! edge_b, edge_b)
             (m_positions ! triangle_a, triangle_a) (m_positions ! triangle_b, triangle_b)
             (m_positions ! triangle_c, triangle_c) True)"

record Intersection =
  m_edge_index :: nat
  m_triangle_index :: nat

text \<open>
  The inner loop of \<^verbatim>\<open>get_intersections\<close> (lines 1781-1822) over the edge candidates of
  triangle \<open>i\<close>.
\<close>

fun get_intersections_edges ::
  "externals \<Rightarrow> surface \<Rightarrow> bool \<Rightarrow> bool \<Rightarrow> nat \<Rightarrow> Vec3st \<Rightarrow> nat list \<Rightarrow>
   Intersection list \<Rightarrow> Intersection list" where
  "get_intersections_edges ext s degeneracy_counts_as_intersection use_new_positions i triangle []
       intersections = intersections"
| "get_intersections_edges ext s degeneracy_counts_as_intersection use_new_positions i triangle
       (j # js) intersections =
     (case m_edges s ! j of (edge0, edge1) \<Rightarrow>
      case triangle of (triangle0, triangle1, triangle2) \<Rightarrow>
        if edge0 = edge1
        then get_intersections_edges ext s degeneracy_counts_as_intersection use_new_positions i
               triangle js intersections
        else if edge0 = triangle0 \<or> edge0 = triangle1 \<or> edge0 = triangle2
             \<or> edge1 = triangle0 \<or> edge1 = triangle1 \<or> edge1 = triangle2
        then get_intersections_edges ext s degeneracy_counts_as_intersection use_new_positions i
               triangle js intersections
        else
          (let pos = (\<lambda>v. if use_new_positions then get_newposition s v else get_position s v)
           in if segment_triangle_intersection ext (pos edge0, edge0) (pos edge1, edge1)
                   (pos triangle0, triangle0) (pos triangle1, triangle1) (pos triangle2, triangle2)
                   degeneracy_counts_as_intersection
              then get_intersections_edges ext s degeneracy_counts_as_intersection
                     use_new_positions i triangle js
                     (intersections @ [\<lparr>m_edge_index = j, m_triangle_index = i\<rparr>])
              else get_intersections_edges ext s degeneracy_counts_as_intersection
                     use_new_positions i triangle js intersections))"

text \<open>The outer loop (lines 1763-1824) over the triangle indices.\<close>

fun get_intersections_triangles ::
  "externals \<Rightarrow> surface \<Rightarrow> bool \<Rightarrow> bool \<Rightarrow> nat list \<Rightarrow> Intersection list \<Rightarrow> Intersection list" where
  "get_intersections_triangles ext s degeneracy_counts_as_intersection use_new_positions []
       intersections = intersections"
| "get_intersections_triangles ext s degeneracy_counts_as_intersection use_new_positions (i # is)
       intersections =
     (let get_solid_edges = \<not> triangle_is_solid ext s i;
          (low, high) = triangle_static_bounds ext s i;
          edge_candidates = get_potential_edge_collisions ext s low high get_solid_edges True;
          triangle = get_triangle s i
      in case triangle of (triangle0, triangle1, triangle2) \<Rightarrow>
         if triangle0 = triangle1 \<or> triangle1 = triangle2 \<or> triangle2 = triangle0
         then get_intersections_triangles ext s degeneracy_counts_as_intersection
                use_new_positions is intersections
         else get_intersections_triangles ext s degeneracy_counts_as_intersection
                use_new_positions is
                (get_intersections_edges ext s degeneracy_counts_as_intersection
                   use_new_positions i triangle edge_candidates intersections))"

definition get_intersections ::
  "externals \<Rightarrow> surface \<Rightarrow> bool \<Rightarrow> bool \<Rightarrow> Intersection list \<Rightarrow> Intersection list" where
  "get_intersections ext s degeneracy_counts_as_intersection use_new_positions intersections =
     get_intersections_triangles ext s degeneracy_counts_as_intersection use_new_positions
       [0..<length (m_tris s)] intersections"

text \<open>
  What the audit reports about one recorded intersection: the edge and the triangle it
  names are not incident, and neither is degenerate.
\<close>

definition not_incident :: "surface \<Rightarrow> Intersection \<Rightarrow> bool" where
  "not_incident s x =
     (case m_edges s ! m_edge_index x of (edge0, edge1) \<Rightarrow>
      case get_triangle s (m_triangle_index x) of (triangle0, triangle1, triangle2) \<Rightarrow>
        edge0 \<notin> {triangle0, triangle1, triangle2} \<and> edge1 \<notin> {triangle0, triangle1, triangle2})"

definition degenerate_triangle :: "Vec3st \<Rightarrow> bool" where
  "degenerate_triangle t = (case t of (a, b, c) \<Rightarrow> a = b \<or> b = c \<or> c = a)"

lemma get_intersections_edges_sound:
  assumes "x \<in> set (get_intersections_edges ext s d u i (get_triangle s i) js acc)"
  shows "x \<in> set acc \<or> (m_triangle_index x = i \<and> m_edge_index x \<in> set js \<and> not_incident s x)"
  using assms
proof (induction js arbitrary: acc)
  case Nil
  then show ?case by simp
next
  case (Cons j js)
  obtain e0 e1 where e: "m_edges s ! j = (e0, e1)" by (cases "m_edges s ! j")
  obtain t0 t1 t2 where t: "get_triangle s i = (t0, t1, t2)" by (cases "get_triangle s i") auto
  let ?new = "\<lparr>m_edge_index = j, m_triangle_index = i\<rparr>"
  from Cons.prems e t
  consider (skip) "x \<in> set (get_intersections_edges ext s d u i (get_triangle s i) js acc)"
    | (hit) "e0 \<notin> {t0, t1, t2}" "e1 \<notin> {t0, t1, t2}"
        "x \<in> set (get_intersections_edges ext s d u i (get_triangle s i) js (acc @ [?new]))"
    by (auto simp: Let_def split: if_splits)
  then show ?case
  proof cases
    case skip
    from Cons.IH[OF this] show ?thesis by auto
  next
    case hit
    from Cons.IH[OF hit(3)] hit(1,2) e t show ?thesis
      by (auto simp: not_incident_def)
  qed
qed

lemma get_intersections_triangles_sound:
  assumes "x \<in> set (get_intersections_triangles ext s d u is acc)"
  shows "x \<in> set acc \<or>
         (m_triangle_index x \<in> set is \<and> not_incident s x \<and>
          \<not> degenerate_triangle (get_triangle s (m_triangle_index x)))"
  using assms
proof (induction "is" arbitrary: acc)
  case Nil
  then show ?case by simp
next
  case (Cons i "is")
  obtain t0 t1 t2 where t: "get_triangle s i = (t0, t1, t2)" by (cases "get_triangle s i") auto
  obtain low high where b: "triangle_static_bounds ext s i = (low, high)"
    by (cases "triangle_static_bounds ext s i")
  let ?cands = "get_potential_edge_collisions ext s low high (\<not> triangle_is_solid ext s i) True"
  from Cons.prems t b
  consider (skip) "x \<in> set (get_intersections_triangles ext s d u is acc)"
    | (scan) "\<not> degenerate_triangle (get_triangle s i)"
        "x \<in> set (get_intersections_triangles ext s d u is
                    (get_intersections_edges ext s d u i (get_triangle s i) ?cands acc))"
    by (auto simp: Let_def degenerate_triangle_def split: if_splits)
  then show ?case
  proof cases
    case skip
    from Cons.IH[OF this] show ?thesis by auto
  next
    case scan
    from Cons.IH[OF scan(2)] get_intersections_edges_sound[of x ext s d u i ?cands acc] scan(1)
    show ?thesis by auto
  qed
qed

text \<open>
  A stand-in for the absent functions, to run the model on concrete meshes: nothing is
  solid, the broad phase returns nothing, no test succeeds. The examples below override
  the answers they need.
\<close>

definition null_externals :: externals where
  "null_externals =
     \<lparr>vertex_is_solid = (\<lambda>s v. False),
      triangles_are_adjacent = (\<lambda>s a b. False),
      sort_triangle = (\<lambda>t. t),
      segment_segment_collision = (\<lambda>a b c d. None),
      point_triangle_collision = (\<lambda>a b c d. None),
      check_edge_edge_proximity = (\<lambda>a b c d. (0, 0, 0, (0, 0, 0))),
      check_point_triangle_proximity = (\<lambda>a b c d. (0, 0, 0, 0, (0, 0, 0))),
      segment_triangle_intersection = (\<lambda>a b c d e degen. False),
      check_triangle_triangle_intersection = (\<lambda>a b ps. False),
      vertex_continuous_bounds = (\<lambda>s v. ((0, 0, 0), (0, 0, 0))),
      edge_continuous_bounds = (\<lambda>s e. ((0, 0, 0), (0, 0, 0))),
      triangle_continuous_bounds = (\<lambda>s t. ((0, 0, 0), (0, 0, 0))),
      triangle_static_bounds = (\<lambda>s t. ((0, 0, 0), (0, 0, 0))),
      get_potential_vertex_collisions = (\<lambda>s low high rs rd. []),
      get_potential_edge_collisions = (\<lambda>s low high rs rd. []),
      get_potential_triangle_collisions = (\<lambda>s low high rs rd. [])\<rparr>"

text \<open>
  A mesh for the audit: triangle 0 on vertices 0, 1, 2 in the plane \<open>z = 0\<close>, edge 0
  from vertex 3 to vertex 4 piercing it, edge 1 one of the triangle's own edges, and
  triangle 1 with a repeated vertex slot.
\<close>

definition audit_surface :: surface where
  "audit_surface =
     \<lparr>pm_positions = [(0, 0, 0), (1, 0, 0), (0, 1, 0), (1/4, 1/4, 1), (1/4, 1/4, -1)],
      pm_newpositions = [(0, 0, 0), (1, 0, 0), (0, 1, 0), (1/4, 1/4, 1), (1/4, 1/4, -1)],
      m_velocities = [(0, 0, 0), (0, 0, 0), (0, 0, 0), (0, 0, 0), (0, 0, 0)],
      m_masses = [1, 1, 1, 1, 1],
      m_vertex_free = [False, False, False, False, False],
      m_tris = [(0, 1, 2), (0, 0, 1)],
      m_edges = [(3, 4), (0, 1)],
      m_vertex_to_triangle_map = [[0, 1], [0, 1], [0], [], []],
      m_vertex_to_edge_map = [[1], [1], [], [0], [0]],
      m_proximity_epsilon = 1/10000,
      m_collision_safety = True\<rparr>"

text \<open>
  The audit's externals on this mesh: the broad phase returns every edge, and the static
  test reports an intersection for every pair it is asked about.
\<close>

definition audit_externals :: externals where
  "audit_externals =
     null_externals
       \<lparr>segment_triangle_intersection := (\<lambda>a b c d e degen. True),
        get_potential_edge_collisions := (\<lambda>s low high rs rd. [0..<length (m_edges s)])\<rparr>"

lemma audit_example:
  "get_intersections audit_externals audit_surface True False [] =
     [\<lparr>m_edge_index = 0, m_triangle_index = 0\<rparr>]"
  by (simp add: get_intersections_def audit_externals_def null_externals_def audit_surface_def
      upt_rec[of 0] upt_rec[of 1] upt_rec[of 2] get_triangle_def triangle_is_solid_def
      get_position_def get_newposition_def)

text \<open>
  Claim C6. The intersection audit never reports an incident pair: for every
  intersection that \<^verbatim>\<open>get_intersections\<close> records, neither endpoint of the edge is a
  vertex of the triangle; and \<^verbatim>\<open>check_edge_triangle_intersection_by_index\<close> answers
  false for an edge that shares an endpoint with the triangle.
\<close>

theorem get_intersections_never_incident:
  "(\<forall>x \<in> set (get_intersections ext s degeneracy_counts_as_intersection use_new_positions []).
      not_incident s x) \<and>
   (edge_a \<in> {triangle_a, triangle_b, triangle_c} \<or> edge_b \<in> {triangle_a, triangle_b, triangle_c}
      \<longrightarrow> \<not> check_edge_triangle_intersection_by_index ext edge_a edge_b
                 triangle_a triangle_b triangle_c m_positions)"
proof
  show "\<forall>x \<in> set (get_intersections ext s degeneracy_counts_as_intersection use_new_positions []).
          not_incident s x"
    using get_intersections_triangles_sound[of _ ext s]
    by (fastforce simp: get_intersections_def)
  show "edge_a \<in> {triangle_a, triangle_b, triangle_c} \<or> edge_b \<in> {triangle_a, triangle_b, triangle_c}
      \<longrightarrow> \<not> check_edge_triangle_intersection_by_index ext edge_a edge_b
                 triangle_a triangle_b triangle_c m_positions"
    by (auto simp: check_edge_triangle_intersection_by_index_def)
qed

theorem get_intersections_never_incident_witness:
  "get_intersections audit_externals audit_surface True False [] =
     [\<lparr>m_edge_index = 0, m_triangle_index = 0\<rparr>] \<and>
   not_incident audit_surface \<lparr>m_edge_index = 0, m_triangle_index = 0\<rparr> \<and>
   (0::nat) \<in> {0, 1, 2} \<and>
   \<not> check_edge_triangle_intersection_by_index audit_externals 0 1 0 1 2
       (pm_positions audit_surface)"
  using get_intersections_never_incident[of audit_externals audit_surface True False 0 0 1 2 1
          "pm_positions audit_surface"]
  by (simp add: audit_example)

text \<open>
  Claim C7, as the code has it. A triangle with two equal vertex slots is skipped by the
  audit (line 1775; such a triple is also the tombstone of a removed triangle): no
  intersection that \<^verbatim>\<open>get_intersections\<close> records names a degenerate triangle, so the
  audit never flags one.
\<close>

theorem get_intersections_skips_degenerate:
  "\<forall>x \<in> set (get_intersections ext s degeneracy_counts_as_intersection use_new_positions []).
     \<not> degenerate_triangle (get_triangle s (m_triangle_index x))"
  using get_intersections_triangles_sound[of _ ext s] by (fastforce simp: get_intersections_def)

theorem get_intersections_skips_degenerate_witness:
  "get_intersections audit_externals audit_surface True False [] =
     [\<lparr>m_edge_index = 0, m_triangle_index = 0\<rparr>] \<and>
   \<not> degenerate_triangle (get_triangle audit_surface 0)"
  using get_intersections_skips_degenerate[of audit_externals audit_surface True False]
  by (simp add: audit_example)

text \<open>
  The claim as stated fails: triangle 1 of the audit mesh is degenerate, the static test
  reports an intersection for whatever it is asked (degeneracy counting as
  intersection), and yet the audit records nothing for triangle 1.
\<close>

theorem degenerate_triangle_not_flagged:
  "degenerate_triangle (get_triangle audit_surface 1) \<and>
   1 \<notin> m_triangle_index ` set (get_intersections audit_externals audit_surface True False [])"
  by (simp add: audit_example) (simp add: degenerate_triangle_def get_triangle_def audit_surface_def)

subsection \<open>Impulses\<close>

record Collision =
  m_is_edge_edge :: bool
  m_vertex_indices :: Vec4st
  m_normal :: Vec3d
  m_barycentric_coordinates :: Vec4d
  m_relative_displacement :: real

fun vdiv :: "Vec3d \<Rightarrow> real \<Rightarrow> Vec3d" where
  "vdiv (a, b, c) k = (a / k, b / k, c / k)"

text \<open>\<^verbatim>\<open>v += c * n\<close> on the entry \<open>e\<close> of the velocity array.\<close>

definition add_scaled :: "nat \<Rightarrow> real \<Rightarrow> Vec3d \<Rightarrow> Vec3d list \<Rightarrow> Vec3d list" where
  "add_scaled e c n vel = vel[e := vadd (vel ! e) (smul c n)]"

text \<open>
  \<^verbatim>\<open>CollisionPipeline::apply_impulse\<close> (lines 98-175), in the blocks of the source. The
  four velocity references \<open>v0 .. v3\<close> are entries of \<open>m_velocities\<close>, updated one
  after the other; the friction coefficient is a member of the pipeline. (A zero
  denominator, which gives an infinity or a NaN in the source, is outside the
  idealisation by reals.)

  \<^verbatim>\<open>s0*s0*inv_m0 + s1*s1*inv_m1 + s2*s2*inv_m2 + s3*s3*inv_m3\<close> (lines 115-125, 152):
\<close>

definition inverse_mass_sum :: "Vec4d \<Rightarrow> Vec4st \<Rightarrow> real list \<Rightarrow> real" where
  "inverse_mass_sum alphas vertex_indices masses =
     (case vertex_indices of (e0, e1, e2, e3) \<Rightarrow>
      case alphas of (s0, s1, s2, s3) \<Rightarrow>
        let inv_m0 = 1 / (masses ! e0);
            inv_m1 = 1 / (masses ! e1);
            inv_m2 = 1 / (masses ! e2);
            inv_m3 = 1 / (masses ! e3)
        in s0 * s0 * inv_m0 + s1 * s1 * inv_m1 + s2 * s2 * inv_m2 + s3 * s3 * inv_m3)"

text \<open>\<^verbatim>\<open>s0*v0 + s1*v1 + s2*v2 + s3*v3\<close> (lines 135, 148):\<close>

definition relative_velocity :: "Vec4d \<Rightarrow> Vec4st \<Rightarrow> Vec3d list \<Rightarrow> Vec3d" where
  "relative_velocity alphas vertex_indices vel =
     (case vertex_indices of (e0, e1, e2, e3) \<Rightarrow>
      case alphas of (s0, s1, s2, s3) \<Rightarrow>
        vadd (vadd (vadd (smul s0 (vel ! e0)) (smul s1 (vel ! e1))) (smul s2 (vel ! e2)))
             (smul s3 (vel ! e3)))"

text \<open>\<^verbatim>\<open>v0 += i*s0*inv_m0 * n; ... v3 += i*s3*inv_m3 * n\<close> (lines 139-142, 165-168):\<close>

definition add_impulses ::
  "real \<Rightarrow> Vec4d \<Rightarrow> Vec4st \<Rightarrow> real list \<Rightarrow> Vec3d \<Rightarrow> Vec3d list \<Rightarrow> Vec3d list" where
  "add_impulses i alphas vertex_indices masses n vel =
     (case vertex_indices of (e0, e1, e2, e3) \<Rightarrow>
      case alphas of (s0, s1, s2, s3) \<Rightarrow>
        add_scaled e3 (i * s3 * (1 / (masses ! e3))) n
          (add_scaled e2 (i * s2 * (1 / (masses ! e2))) n
            (add_scaled e1 (i * s1 * (1 / (masses ! e1))) n
              (add_scaled e0 (i * s0 * (1 / (masses ! e0))) n vel))))"

text \<open>The direction of the friction impulse (lines 154-163).\<close>

definition tangential_direction :: "Vec3d \<Rightarrow> Vec3d" where
  "tangential_direction pre_rv_tangential =
     (let tan_collision_normal = smul (- 1) pre_rv_tangential;
          mag_n = mag tan_collision_normal
      in if mag_n > 1 / 10 ^ 8 then vdiv tan_collision_normal mag_n else (0, 0, 0))"

text \<open>The four \<^verbatim>\<open>set_newposition\<close> calls (lines 170-173).\<close>

definition predict_positions :: "Vec4st \<Rightarrow> real \<Rightarrow> surface \<Rightarrow> surface" where
  "predict_positions vertex_indices dt s =
     (case vertex_indices of (e0, e1, e2, e3) \<Rightarrow>
        (let s1 = set_newposition e0 (vadd (get_position s e0) (smul dt (m_velocities s ! e0))) s;
             s2 = set_newposition e1 (vadd (get_position s1 e1) (smul dt (m_velocities s1 ! e1))) s1;
             s3 = set_newposition e2 (vadd (get_position s2 e2) (smul dt (m_velocities s2 ! e2))) s2
         in set_newposition e3 (vadd (get_position s3 e3) (smul dt (m_velocities s3 ! e3))) s3))"

definition apply_impulse ::
  "real \<Rightarrow> Vec4d \<Rightarrow> Vec4st \<Rightarrow> real \<Rightarrow> Vec3d \<Rightarrow> real \<Rightarrow> surface \<Rightarrow> surface" where
  "apply_impulse m_friction_coefficient alphas vertex_indices impulse_magnitude normal dt s =
     (let denominator = inverse_mass_sum alphas vertex_indices (m_masses s);
          i = impulse_magnitude / denominator;
          pre_relative_velocity = relative_velocity alphas vertex_indices (m_velocities s);
          pre_rv_normal = smul (dot normal pre_relative_velocity) normal;
          pre_rv_tangential = vsub pre_relative_velocity pre_rv_normal;
          vel1 = add_impulses i alphas vertex_indices (m_masses s) normal (m_velocities s);
          post_relative_velocity = relative_velocity alphas vertex_indices vel1;
          post_rv_normal = smul (dot normal post_relative_velocity) normal;
          delta_rv_normal = mag (vsub post_rv_normal pre_rv_normal);
          friction_impulse = min (m_friction_coefficient * delta_rv_normal) (mag pre_rv_tangential);
          friction_i = friction_impulse / denominator;
          tan_collision_normal = tangential_direction pre_rv_tangential;
          vel2 = add_impulses friction_i alphas vertex_indices (m_masses s) tan_collision_normal vel1
      in predict_positions vertex_indices dt (s\<lparr>m_velocities := vel2\<rparr>))"

definition apply_edge_edge_impulse :: "real \<Rightarrow> Collision \<Rightarrow> real \<Rightarrow> real \<Rightarrow> surface \<Rightarrow> surface" where
  "apply_edge_edge_impulse m_friction_coefficient collision impulse_magnitude dt s =
     (case m_barycentric_coordinates collision of (s0, s1, s2, s3) \<Rightarrow>
        apply_impulse m_friction_coefficient (s0, s1, - s2, - s3) (m_vertex_indices collision)
          impulse_magnitude (m_normal collision) dt s)"

definition apply_triangle_point_impulse ::
  "real \<Rightarrow> Collision \<Rightarrow> real \<Rightarrow> real \<Rightarrow> surface \<Rightarrow> surface" where
  "apply_triangle_point_impulse m_friction_coefficient collision impulse_magnitude dt s =
     (case m_barycentric_coordinates collision of (s0, s1, s2, s3) \<Rightarrow>
        apply_impulse m_friction_coefficient (s0, - s1, - s2, - s3) (m_vertex_indices collision)
          impulse_magnitude (m_normal collision) dt s)"

subsection \<open>Collision candidates\<close>

text \<open>
  A candidate is a \<^verbatim>\<open>Vec3st\<close>: (triangle, vertex, 0) or (edge, edge, 1). Each
  \<^verbatim>\<open>add_*_candidates\<close> appends to the candidate vector it is given.
\<close>

definition add_triangle_candidates ::
  "externals \<Rightarrow> surface \<Rightarrow> nat \<Rightarrow> bool \<Rightarrow> bool \<Rightarrow> Vec3st list \<Rightarrow> Vec3st list" where
  "add_triangle_candidates ext s t return_solid return_dynamic collision_candidates =
     (case triangle_continuous_bounds ext s t of (tmin, tmax) \<Rightarrow>
        collision_candidates @
        map (\<lambda>v. (t, v, 0))
          (get_potential_vertex_collisions ext s tmin tmax return_solid return_dynamic))"

definition add_edge_candidates ::
  "externals \<Rightarrow> surface \<Rightarrow> nat \<Rightarrow> bool \<Rightarrow> bool \<Rightarrow> Vec3st list \<Rightarrow> Vec3st list" where
  "add_edge_candidates ext s e return_solid return_dynamic collision_candidates =
     (case edge_continuous_bounds ext s e of (emin, emax) \<Rightarrow>
        collision_candidates @
        map (\<lambda>e2. (e, e2, 1))
          (get_potential_edge_collisions ext s emin emax return_solid return_dynamic))"

definition add_point_candidates ::
  "externals \<Rightarrow> surface \<Rightarrow> nat \<Rightarrow> bool \<Rightarrow> bool \<Rightarrow> Vec3st list \<Rightarrow> Vec3st list" where
  "add_point_candidates ext s v return_solid return_dynamic collision_candidates =
     (case vertex_continuous_bounds ext s v of (vmin, vmax) \<Rightarrow>
        collision_candidates @
        map (\<lambda>t. (t, v, 0))
          (get_potential_triangle_collisions ext s vmin vmax return_solid return_dynamic))"

text \<open>\<^verbatim>\<open>add_point_update_candidates\<close> (lines 310-333).\<close>

definition add_point_update_candidates ::
  "externals \<Rightarrow> surface \<Rightarrow> nat \<Rightarrow> Vec3st list \<Rightarrow> Vec3st list" where
  "add_point_update_candidates ext s v collision_candidates =
     (if vertex_is_solid ext s v then collision_candidates
      else
        fold (\<lambda>e cs. add_edge_candidates ext s e True True cs) (m_vertex_to_edge_map s ! v)
          (fold (\<lambda>t cs. add_triangle_candidates ext s t True True cs)
             (m_vertex_to_triangle_map s ! v)
             (add_point_candidates ext s v True True collision_candidates)))"

subsection \<open>Narrow phase\<close>

definition posed_vertex :: "surface \<Rightarrow> nat \<Rightarrow> posed" where
  "posed_vertex s v = (get_position s v, get_newposition s v, v)"

text \<open>\<^verbatim>\<open>detect_segment_segment_collision\<close> (lines 585-630).\<close>

definition detect_segment_segment_collision ::
  "externals \<Rightarrow> surface \<Rightarrow> Vec3st \<Rightarrow> Collision option" where
  "detect_segment_segment_collision ext s candidate =
     (case candidate of (c0, c1, kind) \<Rightarrow>
      case m_edges s ! c0 of (e00, e01) \<Rightarrow>
      case m_edges s ! c1 of (e10, e11) \<Rightarrow>
        if e00 = e01 then None
        else if e10 = e11 then None
        else if e00 = e10 \<or> e00 = e11 \<or> e01 = e10 \<or> e01 = e11 then None
        else
          (let (a, b) = (if e01 < e00 then (e01, e00) else (e00, e01));
               (c, d) = (if e11 < e10 then (e11, e10) else (e10, e11))
           in if edge_is_solid ext s c0 \<and> edge_is_solid ext s c1 then None
              else
                (case segment_segment_collision ext (posed_vertex s a) (posed_vertex s b)
                        (posed_vertex s c) (posed_vertex s d) of
                   None \<Rightarrow> None
                 | Some (s0, s2, normal, rel_disp) \<Rightarrow>
                     Some \<lparr>m_is_edge_edge = True, m_vertex_indices = (a, b, c, d),
                           m_normal = normal,
                           m_barycentric_coordinates = (s0, 1 - s0, s2, 1 - s2),
                           m_relative_displacement = rel_disp\<rparr>)))"

text \<open>\<^verbatim>\<open>detect_point_triangle_collision\<close> (lines 635-671).\<close>

definition detect_point_triangle_collision ::
  "externals \<Rightarrow> surface \<Rightarrow> Vec3st \<Rightarrow> Collision option" where
  "detect_point_triangle_collision ext s candidate =
     (case candidate of (t, v, kind) \<Rightarrow>
      case get_triangle s t of (tri0, tri1, tri2) \<Rightarrow>
        if tri0 = v \<or> tri1 = v \<or> tri2 = v then None
        else if triangle_is_solid ext s t \<and> vertex_is_solid ext s v then None
        else
          (case sort_triangle ext (tri0, tri1, tri2) of (st0, st1, st2) \<Rightarrow>
           (case point_triangle_collision ext (posed_vertex s v) (posed_vertex s st0)
                   (posed_vertex s st1) (posed_vertex s st2) of
              None \<Rightarrow> None
            | Some (s1, s2, s3, normal, rel_disp) \<Rightarrow>
                Some \<lparr>m_is_edge_edge = False, m_vertex_indices = (v, st0, st1, st2),
                      m_normal = normal,
                      m_barycentric_coordinates = (1, s1, s2, s3),
                      m_relative_displacement = rel_disp\<rparr>)))"


subsection \<open>The impulse pass\<close>

record ProcessCollisionStatus =
  overflow :: bool
  collision_found :: bool
  all_candidates_processed :: bool

definition IMPULSE_MULTIPLIER :: real where
  "IMPULSE_MULTIPLIER = 1"

definition MAX_CANDIDATES :: nat where
  "MAX_CANDIDATES = 1000000"

text \<open>
  \<^verbatim>\<open>process_collision_candidates\<close> takes two references to candidate vectors. The first
  pass of \<^verbatim>\<open>handle_collisions\<close> passes two vectors; the wind-down passes the same vector
  twice (line 1049). The model takes \<open>candidates\<close> and an optional second vector:
  \<open>None\<close> means that \<open>new_candidates\<close> is \<open>candidates\<close> itself, so its size is read
  from, and new entries are pushed onto, the vector being consumed.

  Lines 704-717 and 732-745: what follows an impulse. \<open>s\<close> is the surface after the
  impulse.
\<close>

definition enqueue_after_impulse ::
  "externals \<Rightarrow> surface \<Rightarrow> Collision \<Rightarrow> bool \<Rightarrow> Vec3st list \<Rightarrow> Vec3st list option \<Rightarrow>
   ProcessCollisionStatus \<Rightarrow> Vec3st list \<times> Vec3st list option \<times> ProcessCollisionStatus" where
  "enqueue_after_impulse ext s collision add_to_new_candidates candidates new_candidates status =
     (let status1 = status\<lparr>collision_found := True\<rparr>;
          target = (case new_candidates of None \<Rightarrow> candidates | Some ncs \<Rightarrow> ncs);
          status2 = (if length target > MAX_CANDIDATES then status1\<lparr>overflow := True\<rparr> else status1);
          target1 =
            (if \<not> overflow status2 \<and> add_to_new_candidates
             then (case m_vertex_indices collision of (v0, v1, v2, v3) \<Rightarrow>
                     add_point_update_candidates ext s v3
                       (add_point_update_candidates ext s v2
                         (add_point_update_candidates ext s v1
                           (add_point_update_candidates ext s v0 target))))
             else target)
      in case new_candidates of
           None \<Rightarrow> (target1, None, status2)
         | Some ncs \<Rightarrow> (candidates, Some target1, status2))"

text \<open>
  The body of the \<^verbatim>\<open>while\<close> loop (lines 689-748) for the candidate just erased from the
  front; \<open>candidates\<close> is the rest of the vector.
\<close>

definition process_collision_candidate ::
  "externals \<Rightarrow> real \<Rightarrow> real \<Rightarrow> bool \<Rightarrow> Vec3st \<Rightarrow>
   surface \<times> Vec3st list \<times> Vec3st list option \<times> ProcessCollisionStatus \<Rightarrow>
   surface \<times> Vec3st list \<times> Vec3st list option \<times> ProcessCollisionStatus" where
  "process_collision_candidate ext m_friction_coefficient dt add_to_new_candidates candidate st =
     (case st of (s, candidates, new_candidates, status) \<Rightarrow>
      case candidate of (c0, c1, kind) \<Rightarrow>
        if kind = 1
        then
          (case detect_segment_segment_collision ext s candidate of
             None \<Rightarrow> (s, candidates, new_candidates, status)
           | Some collision \<Rightarrow>
               (let relvel = m_relative_displacement collision / dt;
                    desired_relative_velocity = 0;
                    impulse = IMPULSE_MULTIPLIER * (desired_relative_velocity - relvel);
                    s1 = apply_edge_edge_impulse m_friction_coefficient collision impulse dt s
                in case enqueue_after_impulse ext s1 collision add_to_new_candidates candidates
                          new_candidates status of
                     (candidates1, new_candidates1, status1) \<Rightarrow>
                       (s1, candidates1, new_candidates1, status1)))
        else
          (case detect_point_triangle_collision ext s candidate of
             None \<Rightarrow> (s, candidates, new_candidates, status)
           | Some collision \<Rightarrow>
               (let relvel = m_relative_displacement collision / dt;
                    desired_relative_velocity = 0;
                    impulse = IMPULSE_MULTIPLIER * (desired_relative_velocity - relvel);
                    s1 = apply_triangle_point_impulse m_friction_coefficient collision impulse dt s
                in case enqueue_after_impulse ext s1 collision add_to_new_candidates candidates
                          new_candidates status of
                     (candidates1, new_candidates1, status1) \<Rightarrow>
                       (s1, candidates1, new_candidates1, status1))))"

text \<open>
  The \<^verbatim>\<open>while\<close> loop of lines 687-749. \<open>max_iteration\<close> and \<open>i\<close> are \<^verbatim>\<open>size_t\<close>
  (64 bits). The last component counts the executions of the loop body.
\<close>

lemma unat_inc_below: "(i::64 word) < m \<Longrightarrow> unat (i + 1) = Suc (unat i)"
proof -
  assume "i < m"
  then have "unat i < unat m" by (simp add: word_less_nat_alt)
  moreover have "unat m < 2 ^ 64" using unsigned_less[of m, where 'a=nat] by simp
  ultimately have "unat i + unat (1::64 word) < 2 ^ LENGTH(64)" by simp
  then have "unat (i + 1) = unat i + unat (1::64 word)" by (simp only: unat_add_lem)
  then show ?thesis by simp
qed

function process_collision_loop ::
  "externals \<Rightarrow> real \<Rightarrow> real \<Rightarrow> bool \<Rightarrow> 64 word \<Rightarrow> 64 word \<Rightarrow>
   surface \<times> Vec3st list \<times> Vec3st list option \<times> ProcessCollisionStatus \<Rightarrow> nat \<Rightarrow>
   (surface \<times> Vec3st list \<times> Vec3st list option \<times> ProcessCollisionStatus) \<times> nat" where
  "process_collision_loop ext m_friction_coefficient dt add_to_new_candidates max_iteration i st n =
     (case st of (s, candidates, new_candidates, status) \<Rightarrow>
        if candidates \<noteq> [] \<and> i < max_iteration
        then process_collision_loop ext m_friction_coefficient dt add_to_new_candidates
               max_iteration (i + 1)
               (process_collision_candidate ext m_friction_coefficient dt add_to_new_candidates
                  (hd candidates) (s, tl candidates, new_candidates, status))
               (Suc n)
        else (st, n))"
  by pat_completeness auto
termination
  by (relation "measure (\<lambda>(ext, mu, dt, a, max_iteration, i, st, n). unat max_iteration - unat i)")
     (auto simp: unat_inc_below word_less_nat_alt)

declare process_collision_loop.simps [simp del]

text \<open>\<^verbatim>\<open>process_collision_candidates\<close> (lines 675-758).\<close>

definition process_collision_candidates ::
  "externals \<Rightarrow> real \<Rightarrow> real \<Rightarrow> Vec3st list \<Rightarrow> bool \<Rightarrow> Vec3st list option \<Rightarrow>
   ProcessCollisionStatus \<Rightarrow> surface \<Rightarrow>
   (surface \<times> Vec3st list \<times> Vec3st list option \<times> ProcessCollisionStatus) \<times> nat" where
  "process_collision_candidates ext m_friction_coefficient dt candidates add_to_new_candidates
       new_candidates status s =
     (let max_iteration = 5 * (of_nat (length candidates) :: 64 word)
      in case process_collision_loop ext m_friction_coefficient dt add_to_new_candidates
                max_iteration 0 (s, candidates, new_candidates, status) 0 of
           ((s1, candidates1, new_candidates1, status1), n) \<Rightarrow>
             ((s1, candidates1, new_candidates1,
               status1\<lparr>all_candidates_processed := (candidates1 = [])\<rparr>), n))"


subsection \<open>The first pass and the wind-down\<close>

text \<open>
  The three loops of the first pass (lines 860-949) over the vertex, triangle and edge
  indices. Each builds a fresh candidate vector for one primitive and processes it,
  pushing new candidates onto \<^verbatim>\<open>update_collision_candidates\<close>. (The loop bounds are
  re-read by the source at every iteration; no step changes them.)
\<close>

fun dynamic_point_vs_solid_triangle_collisions ::
  "externals \<Rightarrow> real \<Rightarrow> real \<Rightarrow> bool \<Rightarrow> nat list \<Rightarrow>
   surface \<times> Vec3st list \<times> ProcessCollisionStatus \<Rightarrow>
   surface \<times> Vec3st list \<times> ProcessCollisionStatus" where
  "dynamic_point_vs_solid_triangle_collisions ext mu dt collect_candidates [] acc = acc"
| "dynamic_point_vs_solid_triangle_collisions ext mu dt collect_candidates (i # is)
       (s, update_collision_candidates, status) =
     (if vertex_is_solid ext s i
      then dynamic_point_vs_solid_triangle_collisions ext mu dt collect_candidates is
             (s, update_collision_candidates, status)
      else
        (case process_collision_candidates ext mu dt (add_point_candidates ext s i True False [])
                collect_candidates (Some update_collision_candidates) status s of
           ((s1, candidates1, new_candidates1, status1), n) \<Rightarrow>
             dynamic_point_vs_solid_triangle_collisions ext mu dt collect_candidates is
               (s1, case_option candidates1 id new_candidates1, status1)))"

fun dynamic_triangle_vs_all_point_collisions ::
  "externals \<Rightarrow> real \<Rightarrow> real \<Rightarrow> bool \<Rightarrow> nat list \<Rightarrow>
   surface \<times> Vec3st list \<times> ProcessCollisionStatus \<Rightarrow>
   surface \<times> Vec3st list \<times> ProcessCollisionStatus" where
  "dynamic_triangle_vs_all_point_collisions ext mu dt collect_candidates [] acc = acc"
| "dynamic_triangle_vs_all_point_collisions ext mu dt collect_candidates (i # is)
       (s, update_collision_candidates, status) =
     (if triangle_is_solid ext s i
      then dynamic_triangle_vs_all_point_collisions ext mu dt collect_candidates is
             (s, update_collision_candidates, status)
      else
        (case process_collision_candidates ext mu dt (add_triangle_candidates ext s i True True [])
                collect_candidates (Some update_collision_candidates) status s of
           ((s1, candidates1, new_candidates1, status1), n) \<Rightarrow>
             dynamic_triangle_vs_all_point_collisions ext mu dt collect_candidates is
               (s1, case_option candidates1 id new_candidates1, status1)))"

fun dynamic_edge_vs_all_edge_collisions ::
  "externals \<Rightarrow> real \<Rightarrow> real \<Rightarrow> bool \<Rightarrow> nat list \<Rightarrow>
   surface \<times> Vec3st list \<times> ProcessCollisionStatus \<Rightarrow>
   surface \<times> Vec3st list \<times> ProcessCollisionStatus" where
  "dynamic_edge_vs_all_edge_collisions ext mu dt collect_candidates [] acc = acc"
| "dynamic_edge_vs_all_edge_collisions ext mu dt collect_candidates (i # is)
       (s, update_collision_candidates, status) =
     (if edge_is_solid ext s i
      then dynamic_edge_vs_all_edge_collisions ext mu dt collect_candidates is
             (s, update_collision_candidates, status)
      else
        (case process_collision_candidates ext mu dt (add_edge_candidates ext s i True True [])
                collect_candidates (Some update_collision_candidates) status s of
           ((s1, candidates1, new_candidates1, status1), n) \<Rightarrow>
             dynamic_edge_vs_all_edge_collisions ext mu dt collect_candidates is
               (s1, case_option candidates1 id new_candidates1, status1)))"

text \<open>
  The single pass of the \<^verbatim>\<open>for\<close> loop of \<^verbatim>\<open>handle_collisions\<close> (\<^verbatim>\<open>MAX_PASS = 1\<close>, so
  \<^verbatim>\<open>collect_candidates\<close> is true), lines 973-1014: the surface, the collected
  candidates and the status after the three loops, and the local \<^verbatim>\<open>collision_found\<close>.
\<close>

definition first_pass ::
  "externals \<Rightarrow> real \<Rightarrow> real \<Rightarrow> surface \<Rightarrow>
   surface \<times> Vec3st list \<times> ProcessCollisionStatus \<times> bool" where
  "first_pass ext mu dt s =
     (let status = \<lparr>overflow = False, collision_found = False, all_candidates_processed = False\<rparr>;
          collision_found0 = False
      in case dynamic_point_vs_solid_triangle_collisions ext mu dt True
                [0..<get_num_vertices s] (s, [], status) of
           (s1, update1, status1) \<Rightarrow>
             (let collision_found1 = (collision_found0 \<or> collision_found status1)
              in case dynamic_triangle_vs_all_point_collisions ext mu dt True
                        [0..<length (m_tris s1)] (s1, update1, status1) of
                   (s2, update2, status2) \<Rightarrow>
                     (let collision_found2 = (collision_found1 \<or> collision_found status2)
                      in case dynamic_edge_vs_all_edge_collisions ext mu dt True
                                [0..<length (m_edges s2)] (s2, update2, status2) of
                           (s3, update3, status3) \<Rightarrow>
                             (s3, update3, status3,
                              collision_found2 \<or> collision_found status3))))"

text \<open>
  \<^verbatim>\<open>CollisionCandidateSetLT\<close> (lines 57-80), \<^verbatim>\<open>std::sort\<close> with it (the order is
  total on candidates, so the sorted vector is unique) and \<^verbatim>\<open>std::unique\<close>.
\<close>

fun CollisionCandidateSetLT :: "Vec3st \<Rightarrow> Vec3st \<Rightarrow> bool" where
  "CollisionCandidateSetLT (a0, a1, a2) (b0, b1, b2) =
     (if a0 < b0 then True
      else if a0 = b0 then (if a1 < b1 then True else if a1 = b1 then a2 < b2 else False)
      else False)"

fun insert_sorted :: "Vec3st \<Rightarrow> Vec3st list \<Rightarrow> Vec3st list" where
  "insert_sorted x [] = [x]"
| "insert_sorted x (y # ys) =
     (if CollisionCandidateSetLT y x then y # insert_sorted x ys else x # y # ys)"

definition sort_unique :: "Vec3st list \<Rightarrow> Vec3st list" where
  "sort_unique cs = remdups_adj (foldr insert_sorted cs [])"

text \<open>
  The wind-down (lines 1041-1049): the sorted, deduplicated vector is passed as both
  \<open>candidates\<close> and \<open>new_candidates\<close>, with a fresh status whose overflow flag is
  false (the source leaves the other two fields uninitialised; \<open>all_candidates_processed\<close>
  is written before it is read and \<open>collision_found\<close> is not read).
\<close>

definition wind_down ::
  "externals \<Rightarrow> real \<Rightarrow> real \<Rightarrow> surface \<Rightarrow> Vec3st list \<Rightarrow>
   (surface \<times> Vec3st list \<times> Vec3st list option \<times> ProcessCollisionStatus) \<times> nat" where
  "wind_down ext mu dt s update_collision_candidates =
     process_collision_candidates ext mu dt (sort_unique update_collision_candidates) True None
       \<lparr>overflow = False, collision_found = False, all_candidates_processed = False\<rparr> s"

text \<open>
  \<^verbatim>\<open>CollisionPipeline::handle_collisions\<close> (lines 958-1069): the surface it leaves and
  the value it returns. \<open>found\<close> is the local \<^verbatim>\<open>collision_found\<close>.
\<close>

definition handle_collisions :: "externals \<Rightarrow> real \<Rightarrow> real \<Rightarrow> surface \<Rightarrow> surface \<times> bool" where
  "handle_collisions ext mu dt s =
     (case first_pass ext mu dt s of (s1, update_collision_candidates, status, found) \<Rightarrow>
        if overflow status then (s1, False)
        else if \<not> found then (s1, True)
        else
          (case wind_down ext mu dt s1 update_collision_candidates of
             ((s2, candidates2, new_candidates2, status2), n) \<Rightarrow>
               (let ok = all_candidates_processed status2
                in (s2, if overflow status2 then False else ok))))"


subsection \<open>Properties of the impulse pass\<close>

text \<open>The narrow-phase test that the loop body runs on a candidate, by its kind.\<close>

definition detect_collision :: "externals \<Rightarrow> surface \<Rightarrow> Vec3st \<Rightarrow> Collision option" where
  "detect_collision ext s candidate =
     (case candidate of (c0, c1, kind) \<Rightarrow>
        if kind = 1 then detect_segment_segment_collision ext s candidate
        else detect_point_triangle_collision ext s candidate)"

lemma process_collision_candidate_no_detection:
  "detect_collision ext s candidate = None \<Longrightarrow>
   process_collision_candidate ext mu dt add candidate (s, candidates, new_candidates, status) =
     (s, candidates, new_candidates, status)"
  by (cases candidate) (auto simp: detect_collision_def process_collision_candidate_def split: if_splits)

lemma process_collision_loop_count:
  "process_collision_loop ext mu dt add max_iteration i st n = (st', n') \<Longrightarrow>
   n' \<le> n + (unat max_iteration - unat i)"
proof (induction ext mu dt add max_iteration i st n rule: process_collision_loop.induct)
  case (1 ext mu dt add max_iteration i st n)
  obtain s candidates new_candidates status where st: "st = (s, candidates, new_candidates, status)"
    by (cases st) auto
  show ?case
  proof (cases "candidates \<noteq> [] \<and> i < max_iteration")
    case True
    let ?st1 = "process_collision_candidate ext mu dt add (hd candidates)
                  (s, tl candidates, new_candidates, status)"
    from True st "1.prems" have
      r: "process_collision_loop ext mu dt add max_iteration (i + 1) ?st1 (Suc n) = (st', n')"
      by (simp add: process_collision_loop.simps[of ext mu dt add max_iteration i])
    have "n' \<le> Suc n + (unat max_iteration - unat (i + 1))"
      by (rule "1.IH"[OF st[symmetric] refl refl True r])
    moreover from True have "unat (i + 1) = Suc (unat i)" "unat i < unat max_iteration"
      by (auto simp: unat_inc_below word_less_nat_alt)
    ultimately show ?thesis by simp
  next
    case False
    with st "1.prems" show ?thesis
      by (auto simp: process_collision_loop.simps[of ext mu dt add max_iteration i])
  qed
qed

text \<open>
  Claim C3. Every call of \<^verbatim>\<open>process_collision_candidates\<close> executes the loop body at
  most \<open>5 * N\<close> times, \<open>N\<close> the number of candidates at entry (the cap is computed
  in 64 bits and can only be smaller), whatever the second vector is; in particular in
  the wind-down, where the vector consumed is also the vector that grows. The loop
  function is total: the call returns.
\<close>

theorem process_collision_candidates_iterations:
  "snd (process_collision_candidates ext mu dt candidates add_to_new_candidates new_candidates
          status s) \<le> 5 * length candidates \<and>
   snd (wind_down ext mu dt s update_collision_candidates)
     \<le> 5 * length (sort_unique update_collision_candidates)"
proof -
  have b: "snd (process_collision_candidates ext mu dt cs a nc st s) \<le> 5 * length cs"
    for cs a nc st
  proof -
    let ?m = "5 * (of_nat (length cs) :: 64 word)"
    obtain st' n' where
      r: "process_collision_loop ext mu dt a ?m 0 (s, cs, nc, st) 0 = (st', n')"
      by (cases "process_collision_loop ext mu dt a ?m 0 (s, cs, nc, st) 0")
    from process_collision_loop_count[OF r] have "n' \<le> unat ?m" by simp
    also have "unat ?m \<le> 5 * length cs" by (simp add: unat_word_ariths unat_of_nat)
    finally have "n' \<le> 5 * length cs" .
    with r show ?thesis
      by (cases st') (simp add: process_collision_candidates_def Let_def)
  qed
  show ?thesis using b by (simp add: wind_down_def)
qed


lemma detect_solid_edges:
  "edge_is_solid ext s c0 \<Longrightarrow> edge_is_solid ext s c1 \<Longrightarrow>
   detect_segment_segment_collision ext s (c0, c1, kind) = None"
  by (auto simp: detect_segment_segment_collision_def Let_def split: prod.splits)

lemma detect_solid_point_triangle:
  "triangle_is_solid ext s t \<Longrightarrow> vertex_is_solid ext s v \<Longrightarrow>
   detect_point_triangle_collision ext s (t, v, kind) = None"
  by (auto simp: detect_point_triangle_collision_def split: prod.splits)

text \<open>
  Claim C5. For a candidate whose primitives are all solid the narrow phase reports no
  collision: \<^verbatim>\<open>detect_segment_segment_collision\<close> when both edges are solid,
  \<^verbatim>\<open>detect_point_triangle_collision\<close> when the triangle and the vertex are solid. The
  loop body of the impulse pass therefore leaves the surface, the candidate vectors and
  the status as they are for such a candidate (no impulse is applied), and
  \<^verbatim>\<open>add_point_update_candidates\<close> adds nothing for a solid vertex.
\<close>

theorem solid_pairs_never_collide:
  "(edge_is_solid ext s c0 \<and> edge_is_solid ext s c1 \<longrightarrow>
      detect_segment_segment_collision ext s (c0, c1, kind) = None \<and>
      process_collision_candidate ext mu dt add_to_new_candidates (c0, c1, 1)
        (s, candidates, new_candidates, status) = (s, candidates, new_candidates, status)) \<and>
   (triangle_is_solid ext s t \<and> vertex_is_solid ext s v \<longrightarrow>
      detect_point_triangle_collision ext s (t, v, kind) = None \<and>
      process_collision_candidate ext mu dt add_to_new_candidates (t, v, 0)
        (s, candidates, new_candidates, status) = (s, candidates, new_candidates, status)) \<and>
   (vertex_is_solid ext s v \<longrightarrow> add_point_update_candidates ext s v candidates = candidates)"
proof (intro conjI impI)
  assume a: "edge_is_solid ext s c0 \<and> edge_is_solid ext s c1"
  then show "detect_segment_segment_collision ext s (c0, c1, kind) = None"
    by (simp add: detect_solid_edges)
  from a have "detect_collision ext s (c0, c1, 1) = None"
    by (simp add: detect_collision_def detect_solid_edges)
  then show "process_collision_candidate ext mu dt add_to_new_candidates (c0, c1, 1)
        (s, candidates, new_candidates, status) = (s, candidates, new_candidates, status)"
    by (rule process_collision_candidate_no_detection)
next
  assume a: "triangle_is_solid ext s t \<and> vertex_is_solid ext s v"
  then show "detect_point_triangle_collision ext s (t, v, kind) = None"
    by (simp add: detect_solid_point_triangle)
  from a have "detect_collision ext s (t, v, 0) = None"
    by (simp add: detect_collision_def detect_solid_point_triangle)
  then show "process_collision_candidate ext mu dt add_to_new_candidates (t, v, 0)
        (s, candidates, new_candidates, status) = (s, candidates, new_candidates, status)"
    by (rule process_collision_candidate_no_detection)
next
  assume "vertex_is_solid ext s v"
  then show "add_point_update_candidates ext s v candidates = candidates"
    by (simp add: add_point_update_candidates_def)
qed

text \<open>
  Externals under which everything is solid and both continuous tests report a
  collision for whatever they are asked.
\<close>

definition solid_externals :: externals where
  "solid_externals =
     null_externals
       \<lparr>vertex_is_solid := (\<lambda>s v. True),
        segment_segment_collision := (\<lambda>a b c d. Some (1/2, 1/2, (0, 0, 1), - 1)),
        point_triangle_collision := (\<lambda>a b c d. Some (1/3, 1/3, 1/3, (0, 0, 1), - 1))\<rparr>"

theorem solid_pairs_never_collide_witness:
  "edge_is_solid solid_externals audit_surface 0 \<and> edge_is_solid solid_externals audit_surface 1 \<and>
   triangle_is_solid solid_externals audit_surface 0 \<and> vertex_is_solid solid_externals audit_surface 3 \<and>
   detect_segment_segment_collision solid_externals audit_surface (0, 1, 1) = None \<and>
   detect_point_triangle_collision solid_externals audit_surface (0, 3, 0) = None \<and>
   add_point_update_candidates solid_externals audit_surface 3 [] = []"
proof -
  have h: "edge_is_solid solid_externals audit_surface 0"
    "edge_is_solid solid_externals audit_surface 1"
    "triangle_is_solid solid_externals audit_surface 0"
    "vertex_is_solid solid_externals audit_surface 3"
    by (simp_all add: edge_is_solid_def triangle_is_solid_def solid_externals_def null_externals_def
        split: prod.splits)
  from h solid_pairs_never_collide[of solid_externals audit_surface 0 1 1 0 1 False "[]" None
      "\<lparr>overflow = False, collision_found = False, all_candidates_processed = False\<rparr>" 0 3]
  have "detect_segment_segment_collision solid_externals audit_surface (0, 1, 1) = None"
    and "add_point_update_candidates solid_externals audit_surface 3 [] = []"
    by simp_all
  moreover from h solid_pairs_never_collide[of solid_externals audit_surface 0 1 0 0 1 False "[]" None
      "\<lparr>overflow = False, collision_found = False, all_candidates_processed = False\<rparr>" 0 3]
  have "detect_point_triangle_collision solid_externals audit_surface (0, 3, 0) = None"
    by simp
  ultimately show ?thesis using h by simp
qed

subsection \<open>Overflow\<close>

lemma enqueue_after_impulse_overflow:
  assumes "overflow status \<or> MAX_CANDIDATES < length (case_option candidates id new_candidates)"
  shows "enqueue_after_impulse ext s collision add candidates new_candidates status =
           (candidates, new_candidates, status\<lparr>collision_found := True, overflow := True\<rparr>)"
  using assms
  by (cases new_candidates) (auto simp: enqueue_after_impulse_def Let_def)

lemma process_collision_candidate_overflow:
  assumes "overflow status"
  shows "\<exists>s' status'. process_collision_candidate ext mu dt add candidate
            (s, candidates, new_candidates, status) = (s', candidates, new_candidates, status') \<and>
          overflow status'"
proof (cases "detect_collision ext s candidate")
  case None
  with assms show ?thesis by (simp add: process_collision_candidate_no_detection)
next
  case (Some collision)
  obtain c0 c1 kind where c: "candidate = (c0, c1, kind)" by (cases candidate) auto
  show ?thesis
    using Some assms c
    by (auto simp: process_collision_candidate_def detect_collision_def Let_def
        enqueue_after_impulse_overflow split: if_splits)
qed

lemma process_collision_loop_overflow:
  assumes "overflow status"
  shows "\<exists>s' k status' n'.
           process_collision_loop ext mu dt add max_iteration i
             (s, candidates, new_candidates, status) n =
             ((s', drop k candidates, new_candidates, status'), n') \<and> overflow status'"
  using assms
proof (induction ext mu dt add max_iteration i "(s, candidates, new_candidates, status)" n
    arbitrary: s candidates status rule: process_collision_loop.induct)
  case (1 ext mu dt add max_iteration i n)
  show ?case
  proof (cases "candidates \<noteq> [] \<and> i < max_iteration")
    case True
    from process_collision_candidate_overflow[OF "1.prems", of ext mu dt add "hd candidates" s
        "tl candidates" new_candidates]
    obtain s1 status1 where
      p: "process_collision_candidate ext mu dt add (hd candidates)
            (s, tl candidates, new_candidates, status) = (s1, tl candidates, new_candidates, status1)"
      and o: "overflow status1" by blast
    from "1.hyps"[OF refl refl refl True p o] obtain s' k status' n' where
      r: "process_collision_loop ext mu dt add max_iteration (i + 1)
            (s1, tl candidates, new_candidates, status1) (Suc n) =
            ((s', drop k (tl candidates), new_candidates, status'), n')"
      and o': "overflow status'" by blast
    have "process_collision_loop ext mu dt add max_iteration i
            (s, candidates, new_candidates, status) n =
            ((s', drop (Suc k) candidates, new_candidates, status'), n')"
      using True p r
      by (simp add: process_collision_loop.simps[of ext mu dt add max_iteration i] drop_Suc)
    with o' show ?thesis by blast
  next
    case False
    then have "process_collision_loop ext mu dt add max_iteration i
            (s, candidates, new_candidates, status) n =
            ((s, drop 0 candidates, new_candidates, status), n)"
      by (auto simp: process_collision_loop.simps[of ext mu dt add max_iteration i])
    with "1.prems" show ?thesis by blast
  qed
qed

lemma process_collision_candidates_overflow:
  assumes "overflow status"
  shows "\<exists>s' k status' n'.
           process_collision_candidates ext mu dt candidates add new_candidates status s =
             ((s', drop k candidates, new_candidates, status'), n') \<and> overflow status'"
proof -
  from process_collision_loop_overflow[OF assms] obtain s' k status' n' where
    "process_collision_loop ext mu dt add (5 * of_nat (length candidates)) 0
       (s, candidates, new_candidates, status) 0 =
       ((s', drop k candidates, new_candidates, status'), n')" "overflow status'"
    by blast
  then show ?thesis
    by (auto simp: process_collision_candidates_def Let_def)
qed


lemma dynamic_point_vs_solid_triangle_collisions_overflow:
  "overflow status \<Longrightarrow>
   overflow (snd (snd (dynamic_point_vs_solid_triangle_collisions ext mu dt collect is (s, update, status))))"
proof (induction "is" arbitrary: s update status)
  case Nil
  then show ?case by simp
next
  case (Cons i "is")
  show ?case
  proof (cases "vertex_is_solid ext s i")
    case True
    with Cons show ?thesis by simp
  next
    case False
    from process_collision_candidates_overflow[OF Cons.prems, of ext mu dt
        "add_point_candidates ext s i True False []" collect "Some update" s]
    obtain s' k status' n' where
      "process_collision_candidates ext mu dt (add_point_candidates ext s i True False []) collect (Some update) status s =
         ((s', drop k (add_point_candidates ext s i True False []), Some update, status'), n')"
      and "overflow status'" by blast
    with False Cons.IH[of status' s' update] show ?thesis by simp
  qed
qed

lemma dynamic_triangle_vs_all_point_collisions_overflow:
  "overflow status \<Longrightarrow>
   overflow (snd (snd (dynamic_triangle_vs_all_point_collisions ext mu dt collect is (s, update, status))))"
proof (induction "is" arbitrary: s update status)
  case Nil
  then show ?case by simp
next
  case (Cons i "is")
  show ?case
  proof (cases "triangle_is_solid ext s i")
    case True
    with Cons show ?thesis by simp
  next
    case False
    from process_collision_candidates_overflow[OF Cons.prems, of ext mu dt
        "add_triangle_candidates ext s i True True []" collect "Some update" s]
    obtain s' k status' n' where
      "process_collision_candidates ext mu dt (add_triangle_candidates ext s i True True []) collect (Some update) status s =
         ((s', drop k (add_triangle_candidates ext s i True True []), Some update, status'), n')"
      and "overflow status'" by blast
    with False Cons.IH[of status' s' update] show ?thesis by simp
  qed
qed

lemma dynamic_edge_vs_all_edge_collisions_overflow:
  "overflow status \<Longrightarrow>
   overflow (snd (snd (dynamic_edge_vs_all_edge_collisions ext mu dt collect is (s, update, status))))"
proof (induction "is" arbitrary: s update status)
  case Nil
  then show ?case by simp
next
  case (Cons i "is")
  show ?case
  proof (cases "edge_is_solid ext s i")
    case True
    with Cons show ?thesis by simp
  next
    case False
    from process_collision_candidates_overflow[OF Cons.prems, of ext mu dt
        "add_edge_candidates ext s i True True []" collect "Some update" s]
    obtain s' k status' n' where
      "process_collision_candidates ext mu dt (add_edge_candidates ext s i True True []) collect (Some update) status s =
         ((s', drop k (add_edge_candidates ext s i True True []), Some update, status'), n')"
      and "overflow status'" by blast
    with False Cons.IH[of status' s' update] show ?thesis by simp
  qed
qed

text \<open>
  Claim C4, as the code has it. The size of the new-candidate vector is looked at only
  when a collision has been detected and its impulse applied: if the vector then holds
  more than \<open>MAX_CANDIDATES = 1000000\<close> entries, the overflow flag is set and nothing
  is pushed. Once set, the flag stays set through the rest of the call and through the
  three loops of the first pass, and no call pushes a new candidate any more: the
  new-candidate vector is left as it is and the candidate vector only loses entries from
  its front.
  \<^verbatim>\<open>handle_collisions\<close> returns false when the flag is set at the end of the first
  pass; when it is not and a collision was found, the wind-down runs, and the value
  returned is true exactly when the wind-down ends with the flag not set and all its
  candidates processed.
\<close>

theorem overflow_sets_flag_and_fails:
  "(detect_collision ext s candidate \<noteq> None \<and>
    MAX_CANDIDATES < length (case_option candidates id new_candidates) \<longrightarrow>
      (case process_collision_candidate ext mu dt add_to_new_candidates candidate
              (s, candidates, new_candidates, status) of
         (s', candidates', new_candidates', status') \<Rightarrow>
           overflow status' \<and> candidates' = candidates \<and> new_candidates' = new_candidates)) \<and>
   (overflow status \<longrightarrow>
      (case process_collision_candidates ext mu dt candidates add_to_new_candidates new_candidates
              status s of
         ((s', candidates', new_candidates', status'), n) \<Rightarrow>
           overflow status' \<and> new_candidates' = new_candidates \<and>
           (\<exists>k. candidates' = drop k candidates))) \<and>
   (overflow status \<longrightarrow>
      overflow (snd (snd (dynamic_point_vs_solid_triangle_collisions ext mu dt collect indices
                            (s, update, status)))) \<and>
      overflow (snd (snd (dynamic_triangle_vs_all_point_collisions ext mu dt collect indices
                            (s, update, status)))) \<and>
      overflow (snd (snd (dynamic_edge_vs_all_edge_collisions ext mu dt collect indices
                            (s, update, status))))) \<and>
   (case first_pass ext mu dt s of
      (s1, update1, status1, found) \<Rightarrow>
        (overflow status1 \<longrightarrow> handle_collisions ext mu dt s = (s1, False)) \<and>
        (\<not> overflow status1 \<and> found \<longrightarrow>
           (case wind_down ext mu dt s1 update1 of
              ((s2, candidates2, new_candidates2, status2), n) \<Rightarrow>
                handle_collisions ext mu dt s =
                  (s2, \<not> overflow status2 \<and> all_candidates_processed status2))))"
proof (intro conjI)
  show "detect_collision ext s candidate \<noteq> None \<and>
    MAX_CANDIDATES < length (case_option candidates id new_candidates) \<longrightarrow>
      (case process_collision_candidate ext mu dt add_to_new_candidates candidate
              (s, candidates, new_candidates, status) of
         (s', candidates', new_candidates', status') \<Rightarrow>
           overflow status' \<and> candidates' = candidates \<and> new_candidates' = new_candidates)"
    by (cases candidate)
       (auto simp: detect_collision_def process_collision_candidate_def Let_def
          enqueue_after_impulse_overflow split: if_splits)
  show "overflow status \<longrightarrow>
      (case process_collision_candidates ext mu dt candidates add_to_new_candidates new_candidates
              status s of
         ((s', candidates', new_candidates', status'), n) \<Rightarrow>
           overflow status' \<and> new_candidates' = new_candidates \<and>
           (\<exists>k. candidates' = drop k candidates))"
    using process_collision_candidates_overflow[of status ext mu dt candidates
        add_to_new_candidates new_candidates s]
    by auto
  show "overflow status \<longrightarrow>
      overflow (snd (snd (dynamic_point_vs_solid_triangle_collisions ext mu dt collect indices
                            (s, update, status)))) \<and>
      overflow (snd (snd (dynamic_triangle_vs_all_point_collisions ext mu dt collect indices
                            (s, update, status)))) \<and>
      overflow (snd (snd (dynamic_edge_vs_all_edge_collisions ext mu dt collect indices
                            (s, update, status))))"
    by (simp add: dynamic_point_vs_solid_triangle_collisions_overflow
        dynamic_triangle_vs_all_point_collisions_overflow
        dynamic_edge_vs_all_edge_collisions_overflow)
  show "case first_pass ext mu dt s of
      (s1, update1, status1, found) \<Rightarrow>
        (overflow status1 \<longrightarrow> handle_collisions ext mu dt s = (s1, False)) \<and>
        (\<not> overflow status1 \<and> found \<longrightarrow>
           (case wind_down ext mu dt s1 update1 of
              ((s2, candidates2, new_candidates2, status2), n) \<Rightarrow>
                handle_collisions ext mu dt s =
                  (s2, \<not> overflow status2 \<and> all_candidates_processed status2)))"
    by (auto simp: handle_collisions_def split: prod.splits)
qed

subsection \<open>A pass that detects nothing\<close>

lemma process_collision_loop_no_detection:
  assumes "\<forall>c \<in> set candidates. detect_collision ext s c = None"
  shows "\<exists>k n'. process_collision_loop ext mu dt add max_iteration i
                   (s, candidates, new_candidates, status) n =
                   ((s, drop k candidates, new_candidates, status), n')"
  using assms
proof (induction ext mu dt add max_iteration i "(s, candidates, new_candidates, status)" n
    arbitrary: candidates rule: process_collision_loop.induct)
  case (1 ext mu dt add max_iteration i n)
  show ?case
  proof (cases "candidates \<noteq> [] \<and> i < max_iteration")
    case True
    then have "detect_collision ext s (hd candidates) = None" using "1.prems" by simp
    then have p: "process_collision_candidate ext mu dt add (hd candidates)
            (s, tl candidates, new_candidates, status) = (s, tl candidates, new_candidates, status)"
      by (rule process_collision_candidate_no_detection)
    have "\<forall>c \<in> set (tl candidates). detect_collision ext s c = None"
      using "1.prems" True by (auto dest: list.set_sel(2))
    from "1.hyps"[OF refl refl refl True p this] obtain k n' where
      r: "process_collision_loop ext mu dt add max_iteration (i + 1)
            (s, tl candidates, new_candidates, status) (Suc n) =
            ((s, drop k (tl candidates), new_candidates, status), n')" by blast
    have "process_collision_loop ext mu dt add max_iteration i
            (s, candidates, new_candidates, status) n =
            ((s, drop (Suc k) candidates, new_candidates, status), n')"
      using True p r
      by (simp add: process_collision_loop.simps[of ext mu dt add max_iteration i] drop_Suc)
    then show ?thesis by blast
  next
    case False
    then have "process_collision_loop ext mu dt add max_iteration i
            (s, candidates, new_candidates, status) n =
            ((s, drop 0 candidates, new_candidates, status), n)"
      by (auto simp: process_collision_loop.simps[of ext mu dt add max_iteration i])
    then show ?thesis by blast
  qed
qed

lemma process_collision_candidates_no_detection:
  assumes "\<forall>c \<in> set candidates. detect_collision ext s c = None"
  shows "\<exists>k n'. process_collision_candidates ext mu dt candidates add new_candidates status s =
           ((s, drop k candidates, new_candidates,
             status\<lparr>all_candidates_processed := (drop k candidates = [])\<rparr>), n')"
proof -
  from process_collision_loop_no_detection[OF assms] obtain k n' where
    "process_collision_loop ext mu dt add (5 * of_nat (length candidates)) 0
       (s, candidates, new_candidates, status) 0 =
       ((s, drop k candidates, new_candidates, status), n')"
    by blast
  then show ?thesis
    by (auto simp: process_collision_candidates_def Let_def)
qed


text \<open>
  The candidates that the first pass generates on a surface that no impulse has changed:
  for every non-solid vertex the solid triangles near it, for every non-solid triangle
  the vertices near it, for every non-solid edge the edges near it.
\<close>

definition first_pass_candidates :: "externals \<Rightarrow> surface \<Rightarrow> Vec3st list" where
  "first_pass_candidates ext s =
     concat (map (\<lambda>i. if vertex_is_solid ext s i then []
                       else add_point_candidates ext s i True False [])
               [0..<get_num_vertices s]) @
     concat (map (\<lambda>i. if triangle_is_solid ext s i then []
                       else add_triangle_candidates ext s i True True [])
               [0..<length (m_tris s)]) @
     concat (map (\<lambda>i. if edge_is_solid ext s i then []
                       else add_edge_candidates ext s i True True [])
               [0..<length (m_edges s)])"

lemma dynamic_point_vs_solid_triangle_collisions_no_detection:
  assumes "\<forall>i \<in> set is. \<not> vertex_is_solid ext s i \<longrightarrow>
             (\<forall>c \<in> set (add_point_candidates ext s i True False []). detect_collision ext s c = None)"
  shows "\<exists>status'. dynamic_point_vs_solid_triangle_collisions ext mu dt collect is (s, update, status) = (s, update, status') \<and>
           overflow status' = overflow status \<and> collision_found status' = collision_found status"
  using assms
proof (induction "is" arbitrary: status)
  case Nil
  then show ?case by simp
next
  case (Cons i "is")
  show ?case
  proof (cases "vertex_is_solid ext s i")
    case True
    with Cons.IH[of status] Cons.prems show ?thesis by simp
  next
    case False
    with Cons.prems have "\<forall>c \<in> set (add_point_candidates ext s i True False []). detect_collision ext s c = None"
      by simp
    from process_collision_candidates_no_detection[OF this, of mu dt collect "Some update" status]
    obtain k n' where
      p: "process_collision_candidates ext mu dt (add_point_candidates ext s i True False []) collect (Some update) status s =
            ((s, drop k (add_point_candidates ext s i True False []), Some update,
              status\<lparr>all_candidates_processed := (drop k (add_point_candidates ext s i True False []) = [])\<rparr>), n')"
      by blast
    from Cons.IH[of "status\<lparr>all_candidates_processed := (drop k (add_point_candidates ext s i True False []) = [])\<rparr>"] Cons.prems
    obtain status' where
      "dynamic_point_vs_solid_triangle_collisions ext mu dt collect is
         (s, update, status\<lparr>all_candidates_processed := (drop k (add_point_candidates ext s i True False []) = [])\<rparr>) =
         (s, update, status')"
      and "overflow status' = overflow status" and "collision_found status' = collision_found status"
      by auto
    with False p show ?thesis by simp
  qed
qed

lemma dynamic_triangle_vs_all_point_collisions_no_detection:
  assumes "\<forall>i \<in> set is. \<not> triangle_is_solid ext s i \<longrightarrow>
             (\<forall>c \<in> set (add_triangle_candidates ext s i True True []). detect_collision ext s c = None)"
  shows "\<exists>status'. dynamic_triangle_vs_all_point_collisions ext mu dt collect is (s, update, status) = (s, update, status') \<and>
           overflow status' = overflow status \<and> collision_found status' = collision_found status"
  using assms
proof (induction "is" arbitrary: status)
  case Nil
  then show ?case by simp
next
  case (Cons i "is")
  show ?case
  proof (cases "triangle_is_solid ext s i")
    case True
    with Cons.IH[of status] Cons.prems show ?thesis by simp
  next
    case False
    with Cons.prems have "\<forall>c \<in> set (add_triangle_candidates ext s i True True []). detect_collision ext s c = None"
      by simp
    from process_collision_candidates_no_detection[OF this, of mu dt collect "Some update" status]
    obtain k n' where
      p: "process_collision_candidates ext mu dt (add_triangle_candidates ext s i True True []) collect (Some update) status s =
            ((s, drop k (add_triangle_candidates ext s i True True []), Some update,
              status\<lparr>all_candidates_processed := (drop k (add_triangle_candidates ext s i True True []) = [])\<rparr>), n')"
      by blast
    from Cons.IH[of "status\<lparr>all_candidates_processed := (drop k (add_triangle_candidates ext s i True True []) = [])\<rparr>"] Cons.prems
    obtain status' where
      "dynamic_triangle_vs_all_point_collisions ext mu dt collect is
         (s, update, status\<lparr>all_candidates_processed := (drop k (add_triangle_candidates ext s i True True []) = [])\<rparr>) =
         (s, update, status')"
      and "overflow status' = overflow status" and "collision_found status' = collision_found status"
      by auto
    with False p show ?thesis by simp
  qed
qed

lemma dynamic_edge_vs_all_edge_collisions_no_detection:
  assumes "\<forall>i \<in> set is. \<not> edge_is_solid ext s i \<longrightarrow>
             (\<forall>c \<in> set (add_edge_candidates ext s i True True []). detect_collision ext s c = None)"
  shows "\<exists>status'. dynamic_edge_vs_all_edge_collisions ext mu dt collect is (s, update, status) = (s, update, status') \<and>
           overflow status' = overflow status \<and> collision_found status' = collision_found status"
  using assms
proof (induction "is" arbitrary: status)
  case Nil
  then show ?case by simp
next
  case (Cons i "is")
  show ?case
  proof (cases "edge_is_solid ext s i")
    case True
    with Cons.IH[of status] Cons.prems show ?thesis by simp
  next
    case False
    with Cons.prems have "\<forall>c \<in> set (add_edge_candidates ext s i True True []). detect_collision ext s c = None"
      by simp
    from process_collision_candidates_no_detection[OF this, of mu dt collect "Some update" status]
    obtain k n' where
      p: "process_collision_candidates ext mu dt (add_edge_candidates ext s i True True []) collect (Some update) status s =
            ((s, drop k (add_edge_candidates ext s i True True []), Some update,
              status\<lparr>all_candidates_processed := (drop k (add_edge_candidates ext s i True True []) = [])\<rparr>), n')"
      by blast
    from Cons.IH[of "status\<lparr>all_candidates_processed := (drop k (add_edge_candidates ext s i True True []) = [])\<rparr>"] Cons.prems
    obtain status' where
      "dynamic_edge_vs_all_edge_collisions ext mu dt collect is
         (s, update, status\<lparr>all_candidates_processed := (drop k (add_edge_candidates ext s i True True []) = [])\<rparr>) =
         (s, update, status')"
      and "overflow status' = overflow status" and "collision_found status' = collision_found status"
      by auto
    with False p show ?thesis by simp
  qed
qed

text \<open>
  Claim C9, as the code has it. \<^verbatim>\<open>handle_collisions\<close> is a no-op that returns true
  when the continuous narrow phase detects no collision for any candidate that the
  first pass generates: the surface (velocities and predicted positions included) is
  returned as it was.
\<close>

theorem handle_collisions_no_detection:
  assumes "\<forall>c \<in> set (first_pass_candidates ext s). detect_collision ext s c = None"
  shows "handle_collisions ext mu dt s = (s, True)"
proof -
  let ?st0 = "\<lparr>overflow = False, collision_found = False, all_candidates_processed = False\<rparr>"
  have 1: "\<forall>i \<in> set [0..<get_num_vertices s]. \<not> vertex_is_solid ext s i \<longrightarrow>
             (\<forall>c \<in> set (add_point_candidates ext s i True False []). detect_collision ext s c = None)"
    using assms by (auto simp: first_pass_candidates_def)
  have 2: "\<forall>i \<in> set [0..<length (m_tris s)]. \<not> triangle_is_solid ext s i \<longrightarrow>
             (\<forall>c \<in> set (add_triangle_candidates ext s i True True []). detect_collision ext s c = None)"
    using assms by (auto simp: first_pass_candidates_def)
  have 3: "\<forall>i \<in> set [0..<length (m_edges s)]. \<not> edge_is_solid ext s i \<longrightarrow>
             (\<forall>c \<in> set (add_edge_candidates ext s i True True []). detect_collision ext s c = None)"
    using assms by (auto simp: first_pass_candidates_def)
  from dynamic_point_vs_solid_triangle_collisions_no_detection[OF 1, of mu dt True "[]" ?st0]
  obtain st1 where
    r1: "dynamic_point_vs_solid_triangle_collisions ext mu dt True [0..<get_num_vertices s]
           (s, [], ?st0) = (s, [], st1)"
    and o1: "\<not> overflow st1" and c1: "\<not> collision_found st1" by auto
  from dynamic_triangle_vs_all_point_collisions_no_detection[OF 2, of mu dt True "[]" st1]
  obtain st2 where
    r2: "dynamic_triangle_vs_all_point_collisions ext mu dt True [0..<length (m_tris s)]
           (s, [], st1) = (s, [], st2)"
    and o2: "\<not> overflow st2" and c2: "\<not> collision_found st2" using o1 c1 by auto
  from dynamic_edge_vs_all_edge_collisions_no_detection[OF 3, of mu dt True "[]" st2]
  obtain st3 where
    r3: "dynamic_edge_vs_all_edge_collisions ext mu dt True [0..<length (m_edges s)]
           (s, [], st2) = (s, [], st3)"
    and o3: "\<not> overflow st3" and c3: "\<not> collision_found st3" using o2 c2 by auto
  have "first_pass ext mu dt s = (s, [], st3, False)"
    using r1 r2 r3 c1 c2 c3 by (simp add: first_pass_def)
  with o3 show ?thesis by (simp add: handle_collisions_def)
qed

subsection \<open>A spike through a triangle\<close>

text \<open>
  Triangle 0 lies in the plane \<open>z = 0\<close>; triangle 1 is a thin spike above it whose tip,
  vertex 3, is predicted to move from \<open>z = 1\<close> to \<open>z = -1\<close> through the interior of
  triangle 0 (time step 1). At the current positions no edge meets a triangle.
\<close>

definition spike_surface :: surface where
  "spike_surface =
     \<lparr>pm_positions = [(0, 0, 0), (1, 0, 0), (0, 1, 0), (1/4, 1/4, 1), (1/5, 3/10, 5), (3/10, 1/5, 5)],
      pm_newpositions = [(0, 0, 0), (1, 0, 0), (0, 1, 0), (1/4, 1/4, - 1), (1/5, 3/10, 5), (3/10, 1/5, 5)],
      m_velocities = [(0, 0, 0), (0, 0, 0), (0, 0, 0), (0, 0, - 2), (0, 0, 0), (0, 0, 0)],
      m_masses = [1, 1, 1, 1, 1, 1],
      m_vertex_free = [False, False, False, False, False, False],
      m_tris = [(0, 1, 2), (3, 4, 5)],
      m_edges = [(0, 1), (1, 2), (2, 0), (3, 4), (4, 5), (5, 3)],
      m_vertex_to_triangle_map = [[0], [0], [0], [1], [1], [1]],
      m_vertex_to_edge_map = [[0, 2], [0, 1], [1, 2], [3, 5], [3, 4], [4, 5]],
      m_proximity_epsilon = 1/10000,
      m_collision_safety = True\<rparr>"

text \<open>
  The same mesh after the impulse that stops the approach of the tip (all masses 1,
  barycentric coordinates \<open>(1/2, 1/4, 1/4)\<close>, impulse 2 over an inverse-mass sum of
  \<open>11/8\<close>).
\<close>

definition spike_resolved :: surface where
  "spike_resolved =
     spike_surface
       \<lparr>m_velocities :=
          [(0, 0, - 8/11), (0, 0, - 4/11), (0, 0, - 4/11), (0, 0, - 6/11), (0, 0, 0), (0, 0, 0)],
        pm_newpositions :=
          [(0, 0, - 8/11), (1, 0, - 4/11), (0, 1, - 4/11), (1/4, 1/4, 5/11), (1/5, 3/10, 5),
           (3/10, 1/5, 5)]\<rparr>"

text \<open>
  The externals on this scene: nothing is solid; the broad phase returns every
  primitive of the kind asked for (the bounding boxes all overlap); the static tests
  find no intersection; the continuous point-triangle test reports the tip against
  triangle 0 as long as the tip is predicted below the plane, and nothing else.
\<close>

definition spike_externals :: externals where
  "spike_externals =
     null_externals
       \<lparr>point_triangle_collision :=
          (\<lambda>(x, xnew, v) (x0, xnew0, v0) (x1, xnew1, v1) (x2, xnew2, v2).
             if v = 3 \<and> (v0, v1, v2) = (0, 1, 2) \<and> snd (snd xnew) < 0 \<and> 0 < snd (snd x)
             then Some (1/2, 1/4, 1/4, (0, 0, 1), snd (snd xnew) - snd (snd x))
             else None),
        get_potential_vertex_collisions :=
          (\<lambda>s low high rs rd. if rd then [0..<length (pm_positions s)] else []),
        get_potential_edge_collisions :=
          (\<lambda>s low high rs rd. if rd then [0..<length (m_edges s)] else []),
        get_potential_triangle_collisions :=
          (\<lambda>s low high rs rd. if rd then [0..<length (m_tris s)] else [])\<rparr>"

lemma process_collision_loop_step:
  "i < max_iteration \<Longrightarrow>
   process_collision_loop ext mu dt add max_iteration i (s, c # cs, new_candidates, status) n =
     process_collision_loop ext mu dt add max_iteration (i + 1)
       (process_collision_candidate ext mu dt add c (s, cs, new_candidates, status)) (Suc n)"
  by (simp add: process_collision_loop.simps[of ext mu dt add max_iteration i])

lemma process_collision_loop_done:
  "process_collision_loop ext mu dt add max_iteration i (s, [], new_candidates, status) n =
     ((s, [], new_candidates, status), n)"
  by (simp add: process_collision_loop.simps[of ext mu dt add max_iteration i])

lemma spike_resolved_no_detection: "detect_collision spike_externals spike_resolved c = None"
proof -
  obtain c0 c1 kind where c: "c = (c0, c1, kind)" by (cases c) auto
  have ee: "detect_segment_segment_collision spike_externals spike_resolved c = None"
    by (auto simp: c detect_segment_segment_collision_def spike_externals_def null_externals_def
        Let_def split: prod.splits)
  have pt: "detect_point_triangle_collision spike_externals spike_resolved c = None"
    by (auto simp: c detect_point_triangle_collision_def spike_externals_def null_externals_def
        posed_vertex_def get_newposition_def spike_resolved_def spike_surface_def
        split: prod.splits)
  show ?thesis using ee pt unfolding c by (auto simp: detect_collision_def)
qed

lemma spike_no_solid:
  "\<not> vertex_is_solid spike_externals s v" "\<not> triangle_is_solid spike_externals s t"
  "\<not> edge_is_solid spike_externals s e"
  by (simp_all add: spike_externals_def null_externals_def triangle_is_solid_def edge_is_solid_def
      split: prod.splits)

definition spike_collision :: Collision where
  "spike_collision =
     \<lparr>m_is_edge_edge = False, m_vertex_indices = (3, 0, 1, 2), m_normal = (0, 0, 1),
      m_barycentric_coordinates = (1, 1/2, 1/4, 1/4), m_relative_displacement = - 2\<rparr>"

lemma spike_candidates:
  "add_triangle_candidates spike_externals spike_surface 0 True True [] =
     [(0, 0, 0), (0, 1, 0), (0, 2, 0), (0, 3, 0), (0, 4, 0), (0, 5, 0)]"
  by (simp add: add_triangle_candidates_def spike_externals_def null_externals_def spike_surface_def)

lemma spike_detect:
  "detect_point_triangle_collision spike_externals spike_surface (0, 0, 0) = None"
  "detect_point_triangle_collision spike_externals spike_surface (0, 1, 0) = None"
  "detect_point_triangle_collision spike_externals spike_surface (0, 2, 0) = None"
  "detect_point_triangle_collision spike_externals spike_surface (0, 3, 0) = Some spike_collision"
  by (simp_all add: detect_point_triangle_collision_def spike_externals_def null_externals_def
      spike_surface_def get_triangle_def triangle_is_solid_def posed_vertex_def get_position_def
      get_newposition_def spike_collision_def)

lemma spike_impulse:
  "apply_triangle_point_impulse 0 spike_collision 2 1 spike_surface = spike_resolved"
proof -
  let ?a = "(1, - (1/2), - (1/4), - (1/4)) :: Vec4d"
  let ?e = "(3, 0, Suc 0, 2) :: Vec4st"
  let ?v1 = "[(0, 0, - (8/11)), (0, 0, - (4/11)), (0, 0, - (4/11)), (0, 0, - (6/11)), (0, 0, 0), (0, 0, 0)] :: Vec3d list"
  have ms: "m_masses spike_surface = [1, 1, 1, 1, 1, 1]"
    and vs: "m_velocities spike_surface =
               [(0, 0, 0), (0, 0, 0), (0, 0, 0), (0, 0, - 2), (0, 0, 0), (0, 0, 0)]"
    by (simp_all add: spike_surface_def)
  have k: "inverse_mass_sum ?a ?e [1, 1, 1, 1, 1, 1] = 11/8"
    by (simp add: inverse_mass_sum_def)
  have pre: "relative_velocity ?a ?e
               [(0, 0, 0), (0, 0, 0), (0, 0, 0), (0, 0, - 2), (0, 0, 0), (0, 0, 0)] = (0, 0, - 2)"
    by (simp add: relative_velocity_def)
  have vel1: "add_impulses (16/11) ?a ?e [1, 1, 1, 1, 1, 1] (0, 0, 1)
                [(0, 0, 0), (0, 0, 0), (0, 0, 0), (0, 0, - 2), (0, 0, 0), (0, 0, 0)] = ?v1"
    by (simp add: add_impulses_def add_scaled_def)
  have post: "relative_velocity ?a ?e ?v1 = (0, 0, 0)"
    by (simp add: relative_velocity_def)
  have tan: "tangential_direction (0, 0, 0) = (0, 0, 0)"
    by (simp add: tangential_direction_def mag_def)
  have m0: "mag (0, 0, 0) = 0" by (simp add: mag_def)
  have vel2: "add_impulses 0 ?a ?e [1, 1, 1, 1, 1, 1] (0, 0, 0) ?v1 = ?v1"
    by (simp add: add_impulses_def add_scaled_def)
  have pred: "predict_positions ?e 1 (spike_surface\<lparr>m_velocities := ?v1\<rparr>) = spike_resolved"
    by (simp add: predict_positions_def set_newposition_def get_position_def spike_surface_def
        spike_resolved_def)
  show ?thesis
    unfolding apply_triangle_point_impulse_def apply_impulse_def spike_collision_def Let_def
    by (simp add: ms vs k pre vel1 post tan m0 vel2 pred)
qed


definition spike_update :: "Vec3st list" where
  "spike_update =
     add_point_update_candidates spike_externals spike_resolved 2
       (add_point_update_candidates spike_externals spike_resolved 1
         (add_point_update_candidates spike_externals spike_resolved 0
           (add_point_update_candidates spike_externals spike_resolved 3 [])))"

lemma spike_candidate_miss:
  "v \<in> {0, 1, 2} \<Longrightarrow>
   process_collision_candidate spike_externals 0 1 True (0, v, 0)
     (spike_surface, cs, nc, status) = (spike_surface, cs, nc, status)"
proof (rule process_collision_candidate_no_detection)
  assume "v \<in> {0, 1, 2}"
  then have "detect_point_triangle_collision spike_externals spike_surface (0, v, 0) = None"
    by (auto simp: detect_point_triangle_collision_def spike_surface_def get_triangle_def)
  then show "detect_collision spike_externals spike_surface (0, v, 0) = None"
    by (simp add: detect_collision_def)
qed

lemma spike_candidate_hit:
  "\<not> overflow status \<Longrightarrow>
   process_collision_candidate spike_externals 0 1 True (0, 3, 0)
     (spike_surface, cs, Some [], status) =
     (spike_resolved, cs, Some spike_update, status\<lparr>collision_found := True\<rparr>)"
proof -
  assume o: "\<not> overflow status"
  have d: "m_relative_displacement spike_collision = - 2"
    and i: "m_vertex_indices spike_collision = (3, 0, 1, 2)"
    by (simp_all add: spike_collision_def)
  have e: "enqueue_after_impulse spike_externals spike_resolved spike_collision True cs (Some [])
             status = (cs, Some spike_update, status\<lparr>collision_found := True\<rparr>)"
    using o by (simp add: enqueue_after_impulse_def Let_def MAX_CANDIDATES_def i spike_update_def)
  show ?thesis
    by (simp add: process_collision_candidate_def spike_detect Let_def IMPULSE_MULTIPLIER_def d
        spike_impulse e)
qed

lemma spike_candidate_after:
  "process_collision_candidate spike_externals 0 1 add c (spike_resolved, cs, nc, status) =
     (spike_resolved, cs, nc, status)"
  by (rule process_collision_candidate_no_detection) (rule spike_resolved_no_detection)

lemma spike_first_hit:
  "\<not> overflow status \<Longrightarrow>
   process_collision_candidates spike_externals 0 1
     (add_triangle_candidates spike_externals spike_surface 0 True True []) True (Some []) status
     spike_surface =
     ((spike_resolved, [], Some spike_update,
       status\<lparr>collision_found := True, all_candidates_processed := True\<rparr>), 6)"
  by (simp add: spike_candidates process_collision_candidates_def Let_def
      process_collision_loop_step process_collision_loop_done spike_candidate_miss
      spike_candidate_hit spike_candidate_after)

lemma spike_after:
  "\<forall>i \<in> set is. \<not> solid i \<longrightarrow>
     (\<forall>c \<in> set (gen i). detect_collision spike_externals spike_resolved c = None)"
  by (simp add: spike_resolved_no_detection)

lemma spike_first_pass:
  "\<exists>status. first_pass spike_externals 0 1 spike_surface =
      (spike_resolved, spike_update, status, True) \<and> \<not> overflow status"
proof -
  let ?st0 = "\<lparr>overflow = False, collision_found = False, all_candidates_processed = False\<rparr>"
  have "\<forall>i \<in> set [0..<get_num_vertices spike_surface]. \<not> vertex_is_solid spike_externals spike_surface i \<longrightarrow>
          (\<forall>c \<in> set (add_point_candidates spike_externals spike_surface i True False []).
             detect_collision spike_externals spike_surface c = None)"
    by (simp add: add_point_candidates_def spike_externals_def null_externals_def)
  from dynamic_point_vs_solid_triangle_collisions_no_detection[OF this, of 0 1 True "[]" ?st0]
  obtain st1 where
    r1: "dynamic_point_vs_solid_triangle_collisions spike_externals 0 1 True
           [0..<get_num_vertices spike_surface] (spike_surface, [], ?st0) = (spike_surface, [], st1)"
    and o1: "\<not> overflow st1" and c1: "\<not> collision_found st1" by auto
  let ?st1' = "st1\<lparr>collision_found := True, all_candidates_processed := True\<rparr>"
  from dynamic_triangle_vs_all_point_collisions_no_detection[
      OF spike_after[of "[1]" "triangle_is_solid spike_externals spike_resolved"
          "\<lambda>i. add_triangle_candidates spike_externals spike_resolved i True True []"],
      of 0 1 True spike_update ?st1']
  obtain st2 where
    r2: "dynamic_triangle_vs_all_point_collisions spike_externals 0 1 True [1]
           (spike_resolved, spike_update, ?st1') = (spike_resolved, spike_update, st2)"
    and o2: "\<not> overflow st2" and c2: "collision_found st2" using o1 by auto
  have r2': "dynamic_triangle_vs_all_point_collisions spike_externals 0 1 True
           [0..<length (m_tris spike_surface)] (spike_surface, [], st1) =
           (spike_resolved, spike_update, st2)"
  proof -
    have "[0..<length (m_tris spike_surface)] = [0, 1]" by (simp add: spike_surface_def)
    then show ?thesis using o1 r2 by (simp add: spike_no_solid spike_first_hit)
  qed
  from dynamic_edge_vs_all_edge_collisions_no_detection[
      OF spike_after[of "[0..<length (m_edges spike_resolved)]"
          "edge_is_solid spike_externals spike_resolved"
          "\<lambda>i. add_edge_candidates spike_externals spike_resolved i True True []"],
      of 0 1 True spike_update st2]
  obtain st3 where
    r3: "dynamic_edge_vs_all_edge_collisions spike_externals 0 1 True
           [0..<length (m_edges spike_resolved)] (spike_resolved, spike_update, st2) =
           (spike_resolved, spike_update, st3)"
    and o3: "\<not> overflow st3" and c3: "collision_found st3" using o2 c2 by auto
  have "first_pass spike_externals 0 1 spike_surface = (spike_resolved, spike_update, st3, True)"
    using r1 r2' r3 c3 by (simp add: first_pass_def)
  with o3 show ?thesis by blast
qed

text \<open>
  The claim as stated fails: the audit finds the spike mesh free of intersections at its
  current positions, yet \<^verbatim>\<open>handle_collisions\<close> applies an impulse: it changes
  velocities and predicted positions.
\<close>

theorem handle_collisions_moves_clean_mesh:
  "get_intersections spike_externals spike_surface False False [] = [] \<and>
   get_intersections spike_externals spike_surface True False [] = [] \<and>
   fst (handle_collisions spike_externals 0 1 spike_surface) = spike_resolved \<and>
   m_velocities spike_resolved \<noteq> m_velocities spike_surface \<and>
   pm_newpositions spike_resolved \<noteq> pm_newpositions spike_surface"
proof -
  from spike_first_pass obtain status where
    f: "first_pass spike_externals 0 1 spike_surface = (spike_resolved, spike_update, status, True)"
    and o: "\<not> overflow status" by blast
  have "\<forall>c \<in> set (sort_unique spike_update). detect_collision spike_externals spike_resolved c = None"
    by (simp add: spike_resolved_no_detection)
  from process_collision_candidates_no_detection[OF this, of 0 1 True None
      "\<lparr>overflow = False, collision_found = False, all_candidates_processed = False\<rparr>"]
  obtain k n' where
    "wind_down spike_externals 0 1 spike_resolved spike_update =
       ((spike_resolved, drop k (sort_unique spike_update), None,
         \<lparr>overflow = False, collision_found = False,
            all_candidates_processed = (drop k (sort_unique spike_update) = [])\<rparr>), n')"
    by (auto simp: wind_down_def)
  with f o have h: "fst (handle_collisions spike_externals 0 1 spike_surface) = spike_resolved"
    by (simp add: handle_collisions_def)
  have a: "get_intersections spike_externals spike_surface d False [] = []" for d
    by (simp add: get_intersections_def spike_externals_def null_externals_def spike_surface_def
        get_triangle_def triangle_is_solid_def get_position_def get_newposition_def Let_def)
  have v: "m_velocities spike_resolved \<noteq> m_velocities spike_surface"
    "pm_newpositions spike_resolved \<noteq> pm_newpositions spike_surface"
    by (simp_all add: spike_resolved_def spike_surface_def)
  from a h v show ?thesis by simp
qed

theorem handle_collisions_no_detection_witness:
  "list_all (\<lambda>c. detect_collision spike_externals spike_resolved c = None)
     (first_pass_candidates spike_externals spike_resolved) \<and>
   length (first_pass_candidates spike_externals spike_resolved) = 48 \<and>
   handle_collisions spike_externals 0 1 spike_resolved = (spike_resolved, True)"
proof -
  have h: "\<forall>c \<in> set (first_pass_candidates spike_externals spike_resolved).
             detect_collision spike_externals spike_resolved c = None"
    by (simp add: spike_resolved_no_detection)
  have l: "length (first_pass_candidates spike_externals spike_resolved) = 48"
    unfolding first_pass_candidates_def
    apply (simp only: spike_no_solid if_False)
    apply (simp add: add_triangle_candidates_def add_edge_candidates_def add_point_candidates_def
        get_num_vertices_def spike_externals_def null_externals_def spike_resolved_def
        spike_surface_def)
    done
  from handle_collisions_no_detection[OF h, of 0 1] h l show ?thesis
    by (simp add: list_all_iff)
qed


subsection \<open>Overflow of the candidate vector\<close>

lemma add_candidates_length:
  "length cs \<le> length (add_triangle_candidates ext s t rs rd cs)"
  "length cs \<le> length (add_edge_candidates ext s e rs rd cs)"
  by (simp_all add: add_triangle_candidates_def add_edge_candidates_def split: prod.splits)

lemma fold_add_candidates_length:
  "length cs \<le> length (fold (\<lambda>t cs. add_triangle_candidates ext s t True True cs) ts cs)"
  "length cs \<le> length (fold (\<lambda>e cs. add_edge_candidates ext s e True True cs) es cs)"
proof -
  show "length cs \<le> length (fold (\<lambda>t cs. add_triangle_candidates ext s t True True cs) ts cs)"
  proof (induction ts arbitrary: cs)
    case (Cons t ts)
    have "length cs \<le> length (add_triangle_candidates ext s t True True cs)"
      by (rule add_candidates_length)
    also have "\<dots> \<le> length (fold (\<lambda>t cs. add_triangle_candidates ext s t True True cs) ts
                            (add_triangle_candidates ext s t True True cs))"
      by (rule Cons.IH)
    finally show ?case by simp
  qed simp
  show "length cs \<le> length (fold (\<lambda>e cs. add_edge_candidates ext s e True True cs) es cs)"
  proof (induction es arbitrary: cs)
    case (Cons e es)
    have "length cs \<le> length (add_edge_candidates ext s e True True cs)"
      by (rule add_candidates_length)
    also have "\<dots> \<le> length (fold (\<lambda>e cs. add_edge_candidates ext s e True True cs) es
                            (add_edge_candidates ext s e True True cs))"
      by (rule Cons.IH)
    finally show ?case by simp
  qed simp
qed

lemma add_point_update_candidates_length:
  "length cs \<le> length (add_point_update_candidates ext s v cs)"
proof (cases "vertex_is_solid ext s v")
  case True
  then show ?thesis by (simp add: add_point_update_candidates_def)
next
  case False
  have "length cs \<le> length (add_point_candidates ext s v True True cs)"
    by (simp add: add_point_candidates_def split: prod.splits)
  also have "\<dots> \<le> length (fold (\<lambda>t cs. add_triangle_candidates ext s t True True cs)
                          (m_vertex_to_triangle_map s ! v)
                          (add_point_candidates ext s v True True cs))"
    by (rule fold_add_candidates_length)
  also have "\<dots> \<le> length (add_point_update_candidates ext s v cs)"
    using False by (simp add: add_point_update_candidates_def fold_add_candidates_length)
  finally show ?thesis .
qed

lemma add_point_update_candidates_grows:
  assumes "\<not> vertex_is_solid ext s v"
    and "vertex_continuous_bounds ext s v = (low, high)"
  shows "length cs + length (get_potential_triangle_collisions ext s low high True True)
           \<le> length (add_point_update_candidates ext s v cs)"
proof -
  have "length cs + length (get_potential_triangle_collisions ext s low high True True) =
          length (add_point_candidates ext s v True True cs)"
    using assms(2) by (simp add: add_point_candidates_def)
  also have "\<dots> \<le> length (fold (\<lambda>t cs. add_triangle_candidates ext s t True True cs)
                          (m_vertex_to_triangle_map s ! v)
                          (add_point_candidates ext s v True True cs))"
    by (rule fold_add_candidates_length)
  also have "\<dots> \<le> length (add_point_update_candidates ext s v cs)"
    using assms(1) by (simp add: add_point_update_candidates_def fold_add_candidates_length)
  finally show ?thesis .
qed

text \<open>
  A million candidates, for a new-candidate vector that is exactly full.
\<close>

definition million_candidates :: "Vec3st list" where
  "million_candidates = replicate 1000000 (0, 0, 0)"

lemma length_million_candidates: "length million_candidates = 1000000"
  unfolding million_candidates_def by (rule length_replicate)

text \<open>
  Claim C4 as stated fails: on the spike scene, with a new-candidate vector that already
  holds \<open>MAX_CANDIDATES\<close> entries, the one collision of the call pushes its new
  candidates, the vector grows beyond \<open>MAX_CANDIDATES\<close>, and the call ends with all
  candidates processed and the overflow flag not set.
\<close>

theorem overflow_not_flagged:
  "length million_candidates = MAX_CANDIDATES \<and>
   (case process_collision_candidates spike_externals 0 1 [(0, 3, 0)] True
           (Some million_candidates)
           \<lparr>overflow = False, collision_found = False, all_candidates_processed = False\<rparr>
           spike_surface of
      ((s', candidates', new_candidates', status'), n) \<Rightarrow>
        MAX_CANDIDATES < length (case_option [] id new_candidates') \<and>
        collision_found status' \<and> all_candidates_processed status' \<and> \<not> overflow status')"
proof -
  let ?st = "\<lparr>overflow = False, collision_found = False, all_candidates_processed = False\<rparr>"
  let ?u = "add_point_update_candidates spike_externals spike_resolved 2
       (add_point_update_candidates spike_externals spike_resolved 1
         (add_point_update_candidates spike_externals spike_resolved 0
           (add_point_update_candidates spike_externals spike_resolved 3 million_candidates)))"
  have i: "m_vertex_indices spike_collision = (3, 0, 1, 2)"
    and d: "m_relative_displacement spike_collision = - 2"
    by (simp_all add: spike_collision_def)
  have e: "enqueue_after_impulse spike_externals spike_resolved spike_collision True []
             (Some million_candidates) ?st = ([], Some ?u, ?st\<lparr>collision_found := True\<rparr>)"
    by (simp add: enqueue_after_impulse_def Let_def MAX_CANDIDATES_def i
        length_million_candidates)
  have p: "process_collision_candidate spike_externals 0 1 True (0, 3, 0)
             (spike_surface, [], Some million_candidates, ?st) =
             (spike_resolved, [], Some ?u, ?st\<lparr>collision_found := True\<rparr>)"
    by (simp add: process_collision_candidate_def spike_detect Let_def IMPULSE_MULTIPLIER_def d
        spike_impulse e)
  have r: "process_collision_candidates spike_externals 0 1 [(0, 3, 0)] True
             (Some million_candidates) ?st spike_surface =
             ((spike_resolved, [], Some ?u,
               ?st\<lparr>collision_found := True, all_candidates_processed := True\<rparr>), 1)"
    by (simp add: process_collision_candidates_def Let_def process_collision_loop_step
        process_collision_loop_done p)
  have b: "vertex_continuous_bounds spike_externals spike_resolved 3 = ((0, 0, 0), (0, 0, 0))"
    by (simp add: spike_externals_def null_externals_def)
  have q: "length (get_potential_triangle_collisions spike_externals spike_resolved
             (0, 0, 0) (0, 0, 0) True True) = 2"
    by (simp add: spike_externals_def null_externals_def spike_resolved_def spike_surface_def)
  have "length million_candidates + 2 \<le>
          length (add_point_update_candidates spike_externals spike_resolved 3 million_candidates)"
    using add_point_update_candidates_grows[OF spike_no_solid(1) b, of million_candidates] q
    by simp
  also have "\<dots> \<le> length (add_point_update_candidates spike_externals spike_resolved 0
       (add_point_update_candidates spike_externals spike_resolved 3 million_candidates))"
    by (rule add_point_update_candidates_length)
  also have "\<dots> \<le> length (add_point_update_candidates spike_externals spike_resolved 1
       (add_point_update_candidates spike_externals spike_resolved 0
         (add_point_update_candidates spike_externals spike_resolved 3 million_candidates)))"
    by (rule add_point_update_candidates_length)
  also have "\<dots> \<le> length ?u"
    by (rule add_point_update_candidates_length)
  finally have "MAX_CANDIDATES < length ?u"
    by (simp add: length_million_candidates MAX_CANDIDATES_def)
  then show ?thesis
    by (simp add: r length_million_candidates MAX_CANDIDATES_def)
qed


subsection \<open>An overflowing first pass\<close>

text \<open>
  The spike scene with a second vertex of the upper triangle falling through triangle 0,
  and a broad phase that answers every query for dynamic triangles with 1000001
  triangle indices. The continuous point-triangle test reports vertices 3 and 4
  against triangle 0 when they cross its plane during the step.
\<close>

definition crowded_surface :: surface where
  "crowded_surface =
     spike_surface
       \<lparr>pm_newpositions :=
          [(0, 0, 0), (1, 0, 0), (0, 1, 0), (1/4, 1/4, - 1), (1/5, 3/10, - 1), (3/10, 1/5, 5)],
        m_velocities :=
          [(0, 0, 0), (0, 0, 0), (0, 0, 0), (0, 0, - 2), (0, 0, - 6), (0, 0, 0)]\<rparr>"

definition crowded_resolved :: surface where
  "crowded_resolved =
     crowded_surface
       \<lparr>m_velocities :=
          [(0, 0, - 8/11), (0, 0, - 4/11), (0, 0, - 4/11), (0, 0, - 6/11), (0, 0, - 6), (0, 0, 0)],
        pm_newpositions :=
          [(0, 0, - 8/11), (1, 0, - 4/11), (0, 1, - 4/11), (1/4, 1/4, 5/11), (1/5, 3/10, - 1),
           (3/10, 1/5, 5)]\<rparr>"

definition many_triangles :: "nat list" where
  "many_triangles = [0..<1000001]"

lemma length_many_triangles: "length many_triangles = 1000001"
  unfolding many_triangles_def by (simp only: length_upt diff_zero)

definition crossing_weights :: "nat \<Rightarrow> real \<times> real \<times> real" where
  "crossing_weights v = (if v = 3 then (1/2, 1/4, 1/4) else (1/2, 1/5, 3/10))"

definition crowded_externals :: externals where
  "crowded_externals =
     null_externals
       \<lparr>point_triangle_collision :=
          (\<lambda>(x, xnew, v) (x0, xnew0, v0) (x1, xnew1, v1) (x2, xnew2, v2).
             case crossing_weights v of (a, b, c) \<Rightarrow>
               (let plane = a * snd (snd x0) + b * snd (snd x1) + c * snd (snd x2);
                    plane_new = a * snd (snd xnew0) + b * snd (snd xnew1) + c * snd (snd xnew2)
                in if (v = 3 \<or> v = 4) \<and> (v0, v1, v2) = (0, 1, 2) \<and>
                      snd (snd xnew) < plane_new \<and> plane < snd (snd x)
                   then Some (a, b, c, (0, 0, 1), (snd (snd xnew) - snd (snd x)) - (plane_new - plane))
                   else None)),
        get_potential_vertex_collisions :=
          (\<lambda>s low high rs rd. if rd then [0..<length (pm_positions s)] else []),
        get_potential_edge_collisions :=
          (\<lambda>s low high rs rd. if rd then [0..<length (m_edges s)] else []),
        get_potential_triangle_collisions :=
          (\<lambda>s low high rs rd. if rd then many_triangles else [])\<rparr>"

lemma crowded_no_solid:
  "\<not> vertex_is_solid crowded_externals s v" "\<not> triangle_is_solid crowded_externals s t"
  "\<not> edge_is_solid crowded_externals s e"
  by (simp_all add: crowded_externals_def null_externals_def triangle_is_solid_def
      edge_is_solid_def split: prod.splits)

lemma crowded_candidates:
  "add_triangle_candidates crowded_externals crowded_surface 0 True True [] =
     [(0, 0, 0), (0, 1, 0), (0, 2, 0), (0, 3, 0), (0, 4, 0), (0, 5, 0)]"
  by (simp add: add_triangle_candidates_def crowded_externals_def null_externals_def
      crowded_surface_def spike_surface_def)

lemma crowded_detect:
  "detect_point_triangle_collision crowded_externals crowded_surface (0, 3, 0) =
     Some spike_collision"
  by (simp add: detect_point_triangle_collision_def crowded_externals_def null_externals_def
      crowded_surface_def spike_surface_def get_triangle_def triangle_is_solid_def
      posed_vertex_def get_position_def get_newposition_def spike_collision_def
      crossing_weights_def)

lemma crowded_second_detect:
  "detect_collision crowded_externals crowded_resolved (0, 4, 0) \<noteq> None"
  by (simp add: detect_collision_def detect_point_triangle_collision_def crowded_externals_def
      null_externals_def crowded_resolved_def crowded_surface_def spike_surface_def
      get_triangle_def triangle_is_solid_def posed_vertex_def get_position_def
      get_newposition_def crossing_weights_def)

lemma crowded_impulse:
  "apply_triangle_point_impulse 0 spike_collision 2 1 crowded_surface = crowded_resolved"
proof -
  let ?a = "(1, - (1/2), - (1/4), - (1/4)) :: Vec4d"
  let ?e = "(3, 0, Suc 0, 2) :: Vec4st"
  let ?v0 = "[(0, 0, 0), (0, 0, 0), (0, 0, 0), (0, 0, - 2), (0, 0, - 6), (0, 0, 0)] :: Vec3d list"
  let ?v1 = "[(0, 0, - (8/11)), (0, 0, - (4/11)), (0, 0, - (4/11)), (0, 0, - (6/11)), (0, 0, - 6), (0, 0, 0)] :: Vec3d list"
  have ms: "m_masses crowded_surface = [1, 1, 1, 1, 1, 1]"
    and vs: "m_velocities crowded_surface = ?v0"
    by (simp_all add: crowded_surface_def spike_surface_def)
  have k: "inverse_mass_sum ?a ?e [1, 1, 1, 1, 1, 1] = 11/8"
    by (simp add: inverse_mass_sum_def)
  have pre: "relative_velocity ?a ?e ?v0 = (0, 0, - 2)"
    by (simp add: relative_velocity_def)
  have vel1: "add_impulses (16/11) ?a ?e [1, 1, 1, 1, 1, 1] (0, 0, 1) ?v0 = ?v1"
    by (simp add: add_impulses_def add_scaled_def)
  have post: "relative_velocity ?a ?e ?v1 = (0, 0, 0)"
    by (simp add: relative_velocity_def)
  have tan: "tangential_direction (0, 0, 0) = (0, 0, 0)"
    by (simp add: tangential_direction_def mag_def)
  have m0: "mag (0, 0, 0) = 0" by (simp add: mag_def)
  have vel2: "add_impulses 0 ?a ?e [1, 1, 1, 1, 1, 1] (0, 0, 0) ?v1 = ?v1"
    by (simp add: add_impulses_def add_scaled_def)
  have pred: "predict_positions ?e 1 (crowded_surface\<lparr>m_velocities := ?v1\<rparr>) = crowded_resolved"
    by (simp add: predict_positions_def set_newposition_def get_position_def crowded_surface_def
        spike_surface_def crowded_resolved_def)
  show ?thesis
    unfolding apply_triangle_point_impulse_def apply_impulse_def spike_collision_def Let_def
    by (simp add: ms vs k pre vel1 post tan m0 vel2 pred)
qed

definition crowded_update :: "Vec3st list" where
  "crowded_update =
     add_point_update_candidates crowded_externals crowded_resolved 2
       (add_point_update_candidates crowded_externals crowded_resolved 1
         (add_point_update_candidates crowded_externals crowded_resolved 0
           (add_point_update_candidates crowded_externals crowded_resolved 3 [])))"

lemma crowded_update_overflows: "MAX_CANDIDATES < length crowded_update"
proof -
  have b: "vertex_continuous_bounds crowded_externals crowded_resolved 3 = ((0, 0, 0), (0, 0, 0))"
    by (simp add: crowded_externals_def null_externals_def)
  have q: "get_potential_triangle_collisions crowded_externals crowded_resolved
             (0, 0, 0) (0, 0, 0) True True = many_triangles"
    by (simp add: crowded_externals_def null_externals_def)
  have "length many_triangles \<le>
          length (add_point_update_candidates crowded_externals crowded_resolved 3 [])"
    using add_point_update_candidates_grows[OF crowded_no_solid(1) b, of "[]"] q by simp
  also have "\<dots> \<le> length (add_point_update_candidates crowded_externals crowded_resolved 0
       (add_point_update_candidates crowded_externals crowded_resolved 3 []))"
    by (rule add_point_update_candidates_length)
  also have "\<dots> \<le> length (add_point_update_candidates crowded_externals crowded_resolved 1
       (add_point_update_candidates crowded_externals crowded_resolved 0
         (add_point_update_candidates crowded_externals crowded_resolved 3 [])))"
    by (rule add_point_update_candidates_length)
  also have "\<dots> \<le> length crowded_update"
    unfolding crowded_update_def by (rule add_point_update_candidates_length)
  finally show ?thesis
    by (simp add: length_many_triangles MAX_CANDIDATES_def)
qed

lemma crowded_candidate_miss:
  "v \<in> {0, 1, 2} \<Longrightarrow>
   process_collision_candidate crowded_externals 0 1 True (0, v, 0)
     (crowded_surface, cs, nc, status) = (crowded_surface, cs, nc, status)"
proof (rule process_collision_candidate_no_detection)
  assume "v \<in> {0, 1, 2}"
  then have "detect_point_triangle_collision crowded_externals crowded_surface (0, v, 0) = None"
    by (auto simp: detect_point_triangle_collision_def crowded_surface_def spike_surface_def
        get_triangle_def)
  then show "detect_collision crowded_externals crowded_surface (0, v, 0) = None"
    by (simp add: detect_collision_def)
qed

lemma crowded_candidate_hit:
  "\<not> overflow status \<Longrightarrow>
   process_collision_candidate crowded_externals 0 1 True (0, 3, 0)
     (crowded_surface, cs, Some [], status) =
     (crowded_resolved, cs, Some crowded_update, status\<lparr>collision_found := True\<rparr>)"
proof -
  assume o: "\<not> overflow status"
  have d: "m_relative_displacement spike_collision = - 2"
    and i: "m_vertex_indices spike_collision = (3, 0, 1, 2)"
    by (simp_all add: spike_collision_def)
  have e: "enqueue_after_impulse crowded_externals crowded_resolved spike_collision True cs
             (Some []) status = (cs, Some crowded_update, status\<lparr>collision_found := True\<rparr>)"
    using o by (simp add: enqueue_after_impulse_def Let_def MAX_CANDIDATES_def i crowded_update_def)
  show ?thesis
    by (simp add: process_collision_candidate_def crowded_detect Let_def IMPULSE_MULTIPLIER_def d
        crowded_impulse e)
qed

lemma crowded_second_hit:
  "\<exists>s' status'.
     process_collision_candidate crowded_externals 0 1 True (0, 4, 0)
       (crowded_resolved, cs, Some crowded_update, status) =
       (s', cs, Some crowded_update, status') \<and> overflow status'"
proof -
  from crowded_second_detect obtain collision where
    "detect_point_triangle_collision crowded_externals crowded_resolved (0, 4, 0) = Some collision"
    by (auto simp: detect_collision_def)
  then show ?thesis
    using crowded_update_overflows
    by (simp add: process_collision_candidate_def Let_def enqueue_after_impulse_overflow)
qed

lemma crowded_first_triangle:
  assumes "\<not> overflow status"
  shows "\<exists>s' status' n.
     process_collision_candidates crowded_externals 0 1
       (add_triangle_candidates crowded_externals crowded_surface 0 True True []) True (Some [])
       status crowded_surface =
       ((s', [], Some crowded_update, status'), n) \<and> overflow status'"
proof -
  let ?st = "status\<lparr>collision_found := True\<rparr>"
  from crowded_second_hit[of "[(0, 5, 0)]" ?st] obtain s1 st1 where
    h: "process_collision_candidate crowded_externals 0 1 True (0, 4, 0)
          (crowded_resolved, [(0, 5, 0)], Some crowded_update, ?st) =
          (s1, [(0, 5, 0)], Some crowded_update, st1)"
    and o: "overflow st1" by blast
  from process_collision_candidate_overflow[OF o, of crowded_externals 0 1 True "(0, 5, 0)" s1 "[]"
      "Some crowded_update"]
  obtain s2 st2 where
    l: "process_collision_candidate crowded_externals 0 1 True (0, 5, 0)
          (s1, [], Some crowded_update, st1) = (s2, [], Some crowded_update, st2)"
    and o2: "overflow st2" by blast
  have "process_collision_candidates crowded_externals 0 1
       (add_triangle_candidates crowded_externals crowded_surface 0 True True []) True (Some [])
       status crowded_surface =
       ((s2, [], Some crowded_update, st2\<lparr>all_candidates_processed := True\<rparr>), 6)"
    using assms
    by (simp add: crowded_candidates process_collision_candidates_def Let_def
        process_collision_loop_step process_collision_loop_done crowded_candidate_miss
        crowded_candidate_hit h l)
  with o2 show ?thesis by simp
qed

lemma crowded_first_pass:
  "\<exists>s1 update1 status1 found.
     first_pass crowded_externals 0 1 crowded_surface = (s1, update1, status1, found) \<and>
     overflow status1"
proof -
  let ?st0 = "\<lparr>overflow = False, collision_found = False, all_candidates_processed = False\<rparr>"
  have "\<forall>i \<in> set [0..<get_num_vertices crowded_surface].
          \<not> vertex_is_solid crowded_externals crowded_surface i \<longrightarrow>
          (\<forall>c \<in> set (add_point_candidates crowded_externals crowded_surface i True False []).
             detect_collision crowded_externals crowded_surface c = None)"
    by (simp add: add_point_candidates_def crowded_externals_def null_externals_def)
  from dynamic_point_vs_solid_triangle_collisions_no_detection[OF this, of 0 1 True "[]" ?st0]
  obtain st1 where
    r1: "dynamic_point_vs_solid_triangle_collisions crowded_externals 0 1 True
           [0..<get_num_vertices crowded_surface] (crowded_surface, [], ?st0) =
           (crowded_surface, [], st1)"
    and o1: "\<not> overflow st1" by auto
  from crowded_first_triangle[OF o1] obtain s' st' n where
    t: "process_collision_candidates crowded_externals 0 1
          (add_triangle_candidates crowded_externals crowded_surface 0 True True []) True (Some [])
          st1 crowded_surface = ((s', [], Some crowded_update, st'), n)"
    and o': "overflow st'" by blast
  obtain s2 u2 st2 where
    r2: "dynamic_triangle_vs_all_point_collisions crowded_externals 0 1 True [1]
           (s', crowded_update, st') = (s2, u2, st2)"
    by (metis prod_cases3)
  have o2: "overflow st2"
    using dynamic_triangle_vs_all_point_collisions_overflow[OF o', of crowded_externals 0 1 True
        "[1]" s' crowded_update] r2 by simp
  have r2': "dynamic_triangle_vs_all_point_collisions crowded_externals 0 1 True
           [0..<length (m_tris crowded_surface)] (crowded_surface, [], st1) = (s2, u2, st2)"
  proof -
    have "[0..<length (m_tris crowded_surface)] = [0, 1]"
      by (simp add: crowded_surface_def spike_surface_def)
    then show ?thesis using r2 t by (simp add: crowded_no_solid)
  qed
  obtain s3 u3 st3 where
    r3: "dynamic_edge_vs_all_edge_collisions crowded_externals 0 1 True
           [0..<length (m_edges s2)] (s2, u2, st2) = (s3, u3, st3)"
    by (metis prod_cases3)
  have o3: "overflow st3"
    using dynamic_edge_vs_all_edge_collisions_overflow[OF o2, of crowded_externals 0 1 True
        "[0..<length (m_edges s2)]" s2 u2] r3 by simp
  have "first_pass crowded_externals 0 1 crowded_surface =
          (s3, u3, st3, collision_found st1 \<or> collision_found st2 \<or> collision_found st3)"
    using r1 r2' r3 by (simp add: first_pass_def)
  with o3 show ?thesis by blast
qed


lemma process_collision_loop_consumes:
  assumes "\<forall>c \<in> set candidates. detect_collision ext s c = None"
    and "unat i + length candidates \<le> unat max_iteration"
  shows "process_collision_loop ext mu dt add max_iteration i
           (s, candidates, new_candidates, status) n =
           ((s, [], new_candidates, status), n + length candidates)"
  using assms
proof (induction candidates arbitrary: i n)
  case Nil
  show ?case by (simp add: process_collision_loop_done)
next
  case (Cons c cs)
  from Cons.prems(2) have "unat i < unat max_iteration" by simp
  then have l: "i < max_iteration" by (simp add: word_less_nat_alt)
  then have u: "unat (i + 1) = Suc (unat i)" by (rule unat_inc_below)
  have p: "process_collision_candidate ext mu dt add c (s, cs, new_candidates, status) =
             (s, cs, new_candidates, status)"
    using Cons.prems(1) by (simp add: process_collision_candidate_no_detection)
  have "process_collision_loop ext mu dt add max_iteration (i + 1)
          (s, cs, new_candidates, status) (Suc n) =
          ((s, [], new_candidates, status), Suc n + length cs)"
    using Cons.prems u by (intro Cons.IH) simp_all
  with l p show ?case by (simp add: process_collision_loop_step)
qed

lemma process_collision_candidates_consumes:
  assumes "\<forall>c \<in> set candidates. detect_collision ext s c = None"
    and "length candidates \<le> 1000000"
  shows "process_collision_candidates ext mu dt candidates add new_candidates status s =
           ((s, [], new_candidates, status\<lparr>all_candidates_processed := True\<rparr>),
            length candidates)"
proof -
  have "5 * (of_nat (length candidates) :: 64 word) = of_nat (5 * length candidates)"
    by simp
  moreover have "5 * length candidates < 2 ^ 64" using assms(2) by simp
  ultimately have "unat (5 * (of_nat (length candidates) :: 64 word)) = 5 * length candidates"
    by (simp only: unat_of_nat) simp
  then have "unat (0 :: 64 word) + length candidates \<le>
               unat (5 * (of_nat (length candidates) :: 64 word))"
    by simp
  from process_collision_loop_consumes[OF assms(1) this]
  show ?thesis by (simp add: process_collision_candidates_def)
qed

lemma length_insert_sorted: "length (insert_sorted x xs) = Suc (length xs)"
  by (induction xs) simp_all

lemma length_sort_unique: "length (sort_unique cs) \<le> length cs"
proof -
  have "length (foldr insert_sorted cs []) = length cs"
    by (induction cs) (simp_all add: length_insert_sorted)
  then show ?thesis
    unfolding sort_unique_def using remdups_adj_length[of "foldr insert_sorted cs []"] by simp
qed

lemma length_spike_update: "length spike_update = 80"
  unfolding spike_update_def add_point_update_candidates_def
  apply (simp only: spike_no_solid if_False)
  apply (simp add: add_triangle_candidates_def add_edge_candidates_def add_point_candidates_def
      spike_externals_def null_externals_def spike_resolved_def spike_surface_def)
  done

lemma spike_wind_down:
  "wind_down spike_externals 0 1 spike_resolved spike_update =
     ((spike_resolved, [], None,
       \<lparr>overflow = False, collision_found = False, all_candidates_processed = True\<rparr>),
      length (sort_unique spike_update))"
proof -
  have "length (sort_unique spike_update) \<le> 1000000"
    using length_sort_unique[of spike_update] by (simp add: length_spike_update)
  with process_collision_candidates_consumes[of "sort_unique spike_update" spike_externals
      spike_resolved 0 1 True None
      "\<lparr>overflow = False, collision_found = False, all_candidates_processed = False\<rparr>"]
  show ?thesis by (simp add: wind_down_def spike_resolved_no_detection)
qed

definition overflowed :: ProcessCollisionStatus where
  "overflowed = \<lparr>overflow = True, collision_found = False, all_candidates_processed = False\<rparr>"

text \<open>
  Claim C4 as the code has it, on these scenes. On the crowded scene the second collision
  of triangle 0 finds more than \<open>MAX_CANDIDATES\<close> collected candidates and sets the
  flag, the first pass ends with the flag set and \<^verbatim>\<open>handle_collisions\<close> returns
  false. With the flag set on entry, the pass over the spike still applies the impulse and
  pushes nothing. On the spike scene the first pass finds a collision without overflow,
  the wind-down consumes all its candidates and \<^verbatim>\<open>handle_collisions\<close> returns true.
\<close>

theorem overflow_sets_flag_and_fails_witness:
  "detect_collision crowded_externals crowded_resolved (0, 4, 0) \<noteq> None \<and>
   MAX_CANDIDATES < length crowded_update \<and>
   overflow (snd (snd (snd (process_collision_candidate crowded_externals 0 1 True (0, 4, 0)
      (crowded_resolved, [(0, 5, 0)], Some crowded_update,
       \<lparr>overflow = False, collision_found = True, all_candidates_processed = False\<rparr>))))) \<and>
   overflow overflowed \<and>
   (case process_collision_candidates spike_externals 0 1 [(0, 3, 0)] True (Some []) overflowed
           spike_surface of
      ((s', candidates', new_candidates', status'), n) \<Rightarrow>
        s' = spike_resolved \<and> candidates' = [] \<and> new_candidates' = Some [] \<and>
        overflow status') \<and>
   overflow (snd (snd (dynamic_point_vs_solid_triangle_collisions spike_externals 0 1 True
      [0, 1, 2, 3, 4, 5] (spike_surface, [], overflowed)))) \<and>
   overflow (snd (snd (dynamic_triangle_vs_all_point_collisions spike_externals 0 1 True
      [0, 1] (spike_surface, [], overflowed)))) \<and>
   overflow (snd (snd (dynamic_edge_vs_all_edge_collisions spike_externals 0 1 True
      [0, 1, 2, 3, 4, 5] (spike_surface, [], overflowed)))) \<and>
   overflow (fst (snd (snd (first_pass crowded_externals 0 1 crowded_surface)))) \<and>
   \<not> snd (handle_collisions crowded_externals 0 1 crowded_surface) \<and>
   \<not> overflow (fst (snd (snd (first_pass spike_externals 0 1 spike_surface)))) \<and>
   snd (snd (snd (first_pass spike_externals 0 1 spike_surface))) \<and>
   handle_collisions spike_externals 0 1 spike_surface = (spike_resolved, True)"
proof -
  let ?st = "\<lparr>overflow = False, collision_found = True, all_candidates_processed = False\<rparr>"
  have o: "overflow overflowed" by (simp add: overflowed_def)
  have a: "overflow (snd (snd (snd (process_collision_candidate crowded_externals 0 1 True
      (0, 4, 0) (crowded_resolved, [(0, 5, 0)], Some crowded_update, ?st)))))"
    using overflow_sets_flag_and_fails[where ext = crowded_externals and s = crowded_resolved
        and candidate = "(0, 4, 0)" and candidates = "[(0, 5, 0)]"
        and new_candidates = "Some crowded_update" and mu = 0 and dt = 1
        and add_to_new_candidates = True and status = ?st]
      crowded_second_detect crowded_update_overflows
    by (auto split: prod.splits)
  have d: "m_relative_displacement spike_collision = - 2"
    by (simp add: spike_collision_def)
  have "process_collision_candidate spike_externals 0 1 True (0, 3, 0)
          (spike_surface, [], Some [], overflowed) =
          (spike_resolved, [], Some [], overflowed\<lparr>collision_found := True, overflow := True\<rparr>)"
    using o
    by (simp add: process_collision_candidate_def spike_detect Let_def IMPULSE_MULTIPLIER_def d
        spike_impulse enqueue_after_impulse_overflow)
  then have r: "process_collision_candidates spike_externals 0 1 [(0, 3, 0)] True (Some [])
          overflowed spike_surface =
          ((spike_resolved, [], Some [],
            overflowed\<lparr>collision_found := True, overflow := True,
              all_candidates_processed := True\<rparr>), 1)"
    by (simp add: process_collision_candidates_def Let_def process_collision_loop_step
        process_collision_loop_done)
  have b: "case process_collision_candidates spike_externals 0 1 [(0, 3, 0)] True (Some [])
             overflowed spike_surface of
      ((s', candidates', new_candidates', status'), n) \<Rightarrow>
        s' = spike_resolved \<and> candidates' = [] \<and> new_candidates' = Some [] \<and>
        overflow status'"
    using overflow_sets_flag_and_fails[where ext = spike_externals and s = spike_surface
        and candidates = "[(0, 3, 0)]" and new_candidates = "Some []" and mu = 0 and dt = 1
        and add_to_new_candidates = True and status = overflowed] o r
    by simp
  have c: "overflow (snd (snd (dynamic_point_vs_solid_triangle_collisions spike_externals 0 1
        True [0, 1, 2, 3, 4, 5] (spike_surface, [], overflowed))))"
    "overflow (snd (snd (dynamic_triangle_vs_all_point_collisions spike_externals 0 1 True
        [0, 1] (spike_surface, [], overflowed))))"
    "overflow (snd (snd (dynamic_edge_vs_all_edge_collisions spike_externals 0 1 True
        [0, 1, 2, 3, 4, 5] (spike_surface, [], overflowed))))"
    using overflow_sets_flag_and_fails[where ext = spike_externals and s = spike_surface
        and mu = 0 and dt = 1 and status = overflowed and collect = True
        and indices = "[0, 1, 2, 3, 4, 5]" and update = "[]"]
      overflow_sets_flag_and_fails[where ext = spike_externals and s = spike_surface
        and mu = 0 and dt = 1 and status = overflowed and collect = True
        and indices = "[0, 1]" and update = "[]"] o
    by blast+
  from crowded_first_pass obtain s1 update1 status1 found where
    f: "first_pass crowded_externals 0 1 crowded_surface = (s1, update1, status1, found)"
    and o1: "overflow status1" by blast
  have d1: "overflow (fst (snd (snd (first_pass crowded_externals 0 1 crowded_surface))))"
    "\<not> snd (handle_collisions crowded_externals 0 1 crowded_surface)"
    using overflow_sets_flag_and_fails[where ext = crowded_externals and s = crowded_surface
        and mu = 0 and dt = 1]
      f o1
    by simp_all
  from spike_first_pass obtain status where
    g: "first_pass spike_externals 0 1 spike_surface = (spike_resolved, spike_update, status, True)"
    and o2: "\<not> overflow status" by blast
  have d2: "\<not> overflow (fst (snd (snd (first_pass spike_externals 0 1 spike_surface))))"
    "snd (snd (snd (first_pass spike_externals 0 1 spike_surface)))"
    "handle_collisions spike_externals 0 1 spike_surface = (spike_resolved, True)"
    using overflow_sets_flag_and_fails[where ext = spike_externals and s = spike_surface
        and mu = 0 and dt = 1]
      g o2 spike_wind_down
    by simp_all
  from crowded_second_detect crowded_update_overflows a o b c d1 d2 show ?thesis
    by simp
qed


subsection \<open>The proximity pass\<close>

text \<open>
  The loop body of \<^verbatim>\<open>process_proximity_candidates\<close> for an edge-edge candidate (lines
  358-419): the \<^verbatim>\<open>Collision\<close> and the impulse magnitude that it passes to
  \<^verbatim>\<open>apply_edge_edge_impulse\<close>, or \<open>None\<close> when the candidate is skipped. The
  constant \<open>k\<close> is 10 (line 348); \<open>0.1\<close> is the real number \<open>1/10\<close>.

  The source divides by \<open>dt\<close> in floating point. Where the division is reached,
  \<open>d\<close> is positive; for \<open>dt = 0.0\<close> the quotient \<open>0.1 * d / dt\<close> is
  \<open>+infinity\<close>, so the candidate is not skipped, \<open>impulse1\<close> is \<open>+infinity\<close>
  and the minimum is \<open>impulse2 = 0\<close>. The model, whose division is that of the real
  numbers, has this case written out.
\<close>

definition edge_edge_proximity_impulse ::
  "externals \<Rightarrow> real \<Rightarrow> surface \<Rightarrow> Vec3st \<Rightarrow> (Collision \<times> real) option" where
  "edge_edge_proximity_impulse ext dt s candidate =
     (case candidate of (c0, c1, kind) \<Rightarrow>
      case m_edges s ! c0 of (e00, e01) \<Rightarrow>
      case m_edges s ! c1 of (e10, e11) \<Rightarrow>
        if e00 = e01 then None
        else if e10 = e11 then None
        else if e00 \<noteq> e10 \<and> e00 \<noteq> e11 \<and> e01 \<noteq> e10 \<and> e01 \<noteq> e11
        then
          (case check_edge_edge_proximity ext (get_position s e00) (get_position s e01)
                  (get_position s e10) (get_position s e11) of
             (distance, s0, s2, normal) \<Rightarrow>
               if distance < m_proximity_epsilon s
               then
                 (let relvel = dot normal
                        (vsub (vsub (vadd (smul s0 (m_velocities s ! e00))
                                          (smul (1 - s0) (m_velocities s ! e01)))
                                    (smul s2 (m_velocities s ! e10)))
                              (smul (1 - s2) (m_velocities s ! e11)));
                      diff = vsub (vsub (vadd (smul s0 (get_position s e00))
                                              (smul (1 - s0) (get_position s e01)))
                                        (smul s2 (get_position s e10)))
                                  (smul (1 - s2) (get_position s e11))
                  in if dot normal diff < 0 then None
                     else
                       (let d = m_proximity_epsilon s - distance
                        in if dt \<noteq> 0 \<and> relvel > (1/10) * d / dt then None
                           else
                             (let impulse2 = dt * 10 * d;
                                  impulse =
                                    (if dt = 0 then impulse2
                                     else min (max 0 ((1/10) * d / dt - relvel)) impulse2)
                              in Some (\<lparr>m_is_edge_edge = True,
                                         m_vertex_indices = (e00, e01, e10, e11),
                                         m_normal = normal,
                                         m_barycentric_coordinates = (s0, 1 - s0, s2, 1 - s2),
                                         m_relative_displacement = dt * relvel\<rparr>, impulse))))
               else None)
        else None)"

text \<open>The same for a point-triangle candidate (lines 423-481).\<close>

definition point_triangle_proximity_impulse ::
  "externals \<Rightarrow> real \<Rightarrow> surface \<Rightarrow> Vec3st \<Rightarrow> (Collision \<times> real) option" where
  "point_triangle_proximity_impulse ext dt s candidate =
     (case candidate of (t, v, kind) \<Rightarrow>
      case get_triangle s t of (tri0, tri1, tri2) \<Rightarrow>
        if tri0 \<noteq> v \<and> tri1 \<noteq> v \<and> tri2 \<noteq> v
        then
          (case check_point_triangle_proximity ext (get_position s v) (get_position s tri0)
                  (get_position s tri1) (get_position s tri2) of
             (distance, s1, s2, s3, normal) \<Rightarrow>
               if distance < m_proximity_epsilon s
               then
                 (let relvel = dot normal
                        (vsub (m_velocities s ! v)
                              (vadd (vadd (smul s1 (m_velocities s ! tri0))
                                          (smul s2 (m_velocities s ! tri1)))
                                    (smul s3 (m_velocities s ! tri2))));
                      diff = vsub (get_position s v)
                               (vadd (vadd (smul s1 (get_position s tri0))
                                           (smul s2 (get_position s tri1)))
                                     (smul s3 (get_position s tri2)))
                  in if dot normal diff < 0 then None
                     else
                       (let d = m_proximity_epsilon s - distance
                        in if dt \<noteq> 0 \<and> relvel > (1/10) * d / dt then None
                           else
                             (let impulse2 = dt * 10 * d;
                                  impulse =
                                    (if dt = 0 then impulse2
                                     else min (max 0 ((1/10) * d / dt - relvel)) impulse2)
                              in Some (\<lparr>m_is_edge_edge = False,
                                         m_vertex_indices = (v, tri0, tri1, tri2),
                                         m_normal = normal,
                                         m_barycentric_coordinates = (1, s1, s2, s3),
                                         m_relative_displacement = dt * relvel\<rparr>, impulse))))
               else None)
        else None)"

text \<open>
  \<^verbatim>\<open>CollisionPipeline::process_proximity_candidates\<close> (lines 344-485): the candidates
  are taken from the front of the vector until it is empty.
\<close>

fun process_proximity_candidates ::
  "externals \<Rightarrow> real \<Rightarrow> real \<Rightarrow> Vec3st list \<Rightarrow> surface \<Rightarrow> surface" where
  "process_proximity_candidates ext m_friction_coefficient dt [] s = s"
| "process_proximity_candidates ext m_friction_coefficient dt (candidate # candidates) s =
     (case candidate of (c0, c1, kind) \<Rightarrow>
        if kind = 1
        then
          (case edge_edge_proximity_impulse ext dt s candidate of
             None \<Rightarrow> process_proximity_candidates ext m_friction_coefficient dt candidates s
           | Some (proximity, impulse) \<Rightarrow>
               process_proximity_candidates ext m_friction_coefficient dt candidates
                 (apply_edge_edge_impulse m_friction_coefficient proximity impulse dt s))
        else
          (case point_triangle_proximity_impulse ext dt s candidate of
             None \<Rightarrow> process_proximity_candidates ext m_friction_coefficient dt candidates s
           | Some (proximity, impulse) \<Rightarrow>
               process_proximity_candidates ext m_friction_coefficient dt candidates
                 (apply_triangle_point_impulse m_friction_coefficient proximity impulse dt s)))"

text \<open>
  The quantities the proximity test of a point-triangle candidate works with: the
  relative velocity along the normal and the separation along the normal.
\<close>

definition point_triangle_relvel ::
  "surface \<Rightarrow> nat \<Rightarrow> Vec3st \<Rightarrow> real \<times> real \<times> real \<Rightarrow> Vec3d \<Rightarrow> real" where
  "point_triangle_relvel s v tri weights normal =
     (case tri of (tri0, tri1, tri2) \<Rightarrow>
      case weights of (s1, s2, s3) \<Rightarrow>
        dot normal
          (vsub (m_velocities s ! v)
                (vadd (vadd (smul s1 (m_velocities s ! tri0)) (smul s2 (m_velocities s ! tri1)))
                      (smul s3 (m_velocities s ! tri2)))))"

definition point_triangle_separation ::
  "surface \<Rightarrow> nat \<Rightarrow> Vec3st \<Rightarrow> real \<times> real \<times> real \<Rightarrow> Vec3d \<Rightarrow> real" where
  "point_triangle_separation s v tri weights normal =
     (case tri of (tri0, tri1, tri2) \<Rightarrow>
      case weights of (s1, s2, s3) \<Rightarrow>
        dot normal
          (vsub (get_position s v)
                (vadd (vadd (smul s1 (get_position s tri0)) (smul s2 (get_position s tri1)))
                      (smul s3 (get_position s tri2)))))"

definition edge_edge_relvel ::
  "surface \<Rightarrow> Vec2st \<Rightarrow> Vec2st \<Rightarrow> real \<times> real \<Rightarrow> Vec3d \<Rightarrow> real" where
  "edge_edge_relvel s e0 e1 weights normal =
     (case e0 of (e00, e01) \<Rightarrow>
      case e1 of (e10, e11) \<Rightarrow>
      case weights of (s0, s2) \<Rightarrow>
        dot normal
          (vsub (vsub (vadd (smul s0 (m_velocities s ! e00)) (smul (1 - s0) (m_velocities s ! e01)))
                      (smul s2 (m_velocities s ! e10)))
                (smul (1 - s2) (m_velocities s ! e11))))"

definition edge_edge_separation ::
  "surface \<Rightarrow> Vec2st \<Rightarrow> Vec2st \<Rightarrow> real \<times> real \<Rightarrow> Vec3d \<Rightarrow> real" where
  "edge_edge_separation s e0 e1 weights normal =
     (case e0 of (e00, e01) \<Rightarrow>
      case e1 of (e10, e11) \<Rightarrow>
      case weights of (s0, s2) \<Rightarrow>
        dot normal
          (vsub (vsub (vadd (smul s0 (get_position s e00)) (smul (1 - s0) (get_position s e01)))
                      (smul s2 (get_position s e10)))
                (smul (1 - s2) (get_position s e11))))"

lemma edge_edge_proximity_step:
  assumes "0 < dt" "m_edges s ! c0 = (e00, e01)" "m_edges s ! c1 = (e10, e11)"
    and "check_edge_edge_proximity ext (get_position s e00) (get_position s e01)
           (get_position s e10) (get_position s e11) = (distance, s0, s2, normal)"
  shows "edge_edge_proximity_impulse ext dt s (c0, c1, kind) =
     (if e00 \<noteq> e01 \<and> e10 \<noteq> e11 \<and> e00 \<notin> {e10, e11} \<and> e01 \<notin> {e10, e11} \<and>
         distance < m_proximity_epsilon s \<and>
         0 \<le> edge_edge_separation s (e00, e01) (e10, e11) (s0, s2) normal \<and>
         edge_edge_relvel s (e00, e01) (e10, e11) (s0, s2) normal \<le>
           (1/10) * (m_proximity_epsilon s - distance) / dt
      then Some (\<lparr>m_is_edge_edge = True, m_vertex_indices = (e00, e01, e10, e11),
                  m_normal = normal, m_barycentric_coordinates = (s0, 1 - s0, s2, 1 - s2),
                  m_relative_displacement =
                    dt * edge_edge_relvel s (e00, e01) (e10, e11) (s0, s2) normal\<rparr>,
                 min (max 0 ((1/10) * (m_proximity_epsilon s - distance) / dt -
                             edge_edge_relvel s (e00, e01) (e10, e11) (s0, s2) normal))
                     (10 * dt * (m_proximity_epsilon s - distance)))
      else None)"
  using assms
  by (auto simp: edge_edge_proximity_impulse_def Let_def edge_edge_relvel_def
      edge_edge_separation_def mult.commute)

lemma point_triangle_proximity_step:
  assumes "0 < dt" "get_triangle s t = (tri0, tri1, tri2)"
    and "check_point_triangle_proximity ext (get_position s v) (get_position s tri0)
           (get_position s tri1) (get_position s tri2) = (distance, s1, s2, s3, normal)"
  shows "point_triangle_proximity_impulse ext dt s (t, v, kind) =
     (if v \<notin> {tri0, tri1, tri2} \<and> distance < m_proximity_epsilon s \<and>
         0 \<le> point_triangle_separation s v (tri0, tri1, tri2) (s1, s2, s3) normal \<and>
         point_triangle_relvel s v (tri0, tri1, tri2) (s1, s2, s3) normal \<le>
           (1/10) * (m_proximity_epsilon s - distance) / dt
      then Some (\<lparr>m_is_edge_edge = False, m_vertex_indices = (v, tri0, tri1, tri2),
                  m_normal = normal, m_barycentric_coordinates = (1, s1, s2, s3),
                  m_relative_displacement =
                    dt * point_triangle_relvel s v (tri0, tri1, tri2) (s1, s2, s3) normal\<rparr>,
                 min (max 0 ((1/10) * (m_proximity_epsilon s - distance) / dt -
                             point_triangle_relvel s v (tri0, tri1, tri2) (s1, s2, s3) normal))
                     (10 * dt * (m_proximity_epsilon s - distance)))
      else None)"
  using assms
  by (auto simp: point_triangle_proximity_impulse_def Let_def point_triangle_relvel_def
      point_triangle_separation_def mult.commute)


text \<open>
  Claim C2, as the code has it, for a time step \<open>dt > 0\<close>. With \<open>d\<close> the static
  distance of the candidate's primitives at the current positions and \<open>v_rel\<close> their
  relative velocity along the contact normal, \<^verbatim>\<open>process_proximity_candidates\<close> takes
  the candidate from the front of the vector and goes on with the rest, after calling
  \<^verbatim>\<open>apply_edge_edge_impulse\<close> or \<^verbatim>\<open>apply_triangle_point_impulse\<close> exactly when the
  primitives share no vertex (and neither edge of an edge-edge candidate is degenerate),
  \<open>d < proximity_epsilon\<close>, the separation along the normal is not negative, and
  \<open>v_rel\<close> does not exceed \<open>0.1 * (proximity_epsilon - d) / dt\<close>; the magnitude it
  passes is
  \<open>min (max 0 (0.1 * (proximity_epsilon - d) / dt - v_rel)) (k * dt * (proximity_epsilon - d))\<close>
  with \<open>k = 10\<close>. Otherwise, and so at \<open>d = proximity_epsilon\<close>, the surface is
  left as it is.
\<close>

theorem proximity_impulse_rule:
  "(0 < dt \<and> m_edges s ! c0 = (e00, e01) \<and> m_edges s ! c1 = (e10, e11) \<and>
    check_edge_edge_proximity ext (get_position s e00) (get_position s e01)
      (get_position s e10) (get_position s e11) = (distance, s0, s2, normal) \<and>
    relvel = edge_edge_relvel s (e00, e01) (e10, e11) (s0, s2) normal \<and>
    threshold = (1/10) * (m_proximity_epsilon s - distance) / dt
    \<longrightarrow>
      process_proximity_candidates ext mu dt ((c0, c1, 1) # candidates) s =
        process_proximity_candidates ext mu dt candidates
          (if e00 \<noteq> e01 \<and> e10 \<noteq> e11 \<and> e00 \<notin> {e10, e11} \<and> e01 \<notin> {e10, e11} \<and>
              distance < m_proximity_epsilon s \<and>
              0 \<le> edge_edge_separation s (e00, e01) (e10, e11) (s0, s2) normal \<and>
              relvel \<le> threshold
           then apply_edge_edge_impulse mu
                  \<lparr>m_is_edge_edge = True, m_vertex_indices = (e00, e01, e10, e11),
                   m_normal = normal, m_barycentric_coordinates = (s0, 1 - s0, s2, 1 - s2),
                   m_relative_displacement = dt * relvel\<rparr>
                  (min (max 0 (threshold - relvel)) (10 * dt * (m_proximity_epsilon s - distance)))
                  dt s
           else s) \<and>
      (distance = m_proximity_epsilon s \<longrightarrow>
         process_proximity_candidates ext mu dt ((c0, c1, 1) # candidates) s =
           process_proximity_candidates ext mu dt candidates s)) \<and>
   (0 < dt \<and> kind \<noteq> 1 \<and> get_triangle s t = (tri0, tri1, tri2) \<and>
    check_point_triangle_proximity ext (get_position s v) (get_position s tri0)
      (get_position s tri1) (get_position s tri2) = (distance, s1, s2, s3, normal) \<and>
    relvel = point_triangle_relvel s v (tri0, tri1, tri2) (s1, s2, s3) normal \<and>
    threshold = (1/10) * (m_proximity_epsilon s - distance) / dt
    \<longrightarrow>
      process_proximity_candidates ext mu dt ((t, v, kind) # candidates) s =
        process_proximity_candidates ext mu dt candidates
          (if v \<notin> {tri0, tri1, tri2} \<and> distance < m_proximity_epsilon s \<and>
              0 \<le> point_triangle_separation s v (tri0, tri1, tri2) (s1, s2, s3) normal \<and>
              relvel \<le> threshold
           then apply_triangle_point_impulse mu
                  \<lparr>m_is_edge_edge = False, m_vertex_indices = (v, tri0, tri1, tri2),
                   m_normal = normal, m_barycentric_coordinates = (1, s1, s2, s3),
                   m_relative_displacement = dt * relvel\<rparr>
                  (min (max 0 (threshold - relvel)) (10 * dt * (m_proximity_epsilon s - distance)))
                  dt s
           else s) \<and>
      (distance = m_proximity_epsilon s \<longrightarrow>
         process_proximity_candidates ext mu dt ((t, v, kind) # candidates) s =
           process_proximity_candidates ext mu dt candidates s))"
proof (intro conjI impI)
  assume a: "0 < dt \<and> m_edges s ! c0 = (e00, e01) \<and> m_edges s ! c1 = (e10, e11) \<and>
    check_edge_edge_proximity ext (get_position s e00) (get_position s e01)
      (get_position s e10) (get_position s e11) = (distance, s0, s2, normal) \<and>
    relvel = edge_edge_relvel s (e00, e01) (e10, e11) (s0, s2) normal \<and>
    threshold = (1/10) * (m_proximity_epsilon s - distance) / dt"
  then have e: "edge_edge_proximity_impulse ext dt s (c0, c1, 1) =
     (if e00 \<noteq> e01 \<and> e10 \<noteq> e11 \<and> e00 \<notin> {e10, e11} \<and> e01 \<notin> {e10, e11} \<and>
         distance < m_proximity_epsilon s \<and>
         0 \<le> edge_edge_separation s (e00, e01) (e10, e11) (s0, s2) normal \<and>
         relvel \<le> threshold
      then Some (\<lparr>m_is_edge_edge = True, m_vertex_indices = (e00, e01, e10, e11),
                  m_normal = normal, m_barycentric_coordinates = (s0, 1 - s0, s2, 1 - s2),
                  m_relative_displacement = dt * relvel\<rparr>,
                 min (max 0 (threshold - relvel)) (10 * dt * (m_proximity_epsilon s - distance)))
      else None)"
    using edge_edge_proximity_step[of dt s c0 e00 e01 c1 e10 e11 ext distance s0 s2 normal 1]
    by simp
  show "process_proximity_candidates ext mu dt ((c0, c1, 1) # candidates) s =
        process_proximity_candidates ext mu dt candidates
          (if e00 \<noteq> e01 \<and> e10 \<noteq> e11 \<and> e00 \<notin> {e10, e11} \<and> e01 \<notin> {e10, e11} \<and>
              distance < m_proximity_epsilon s \<and>
              0 \<le> edge_edge_separation s (e00, e01) (e10, e11) (s0, s2) normal \<and>
              relvel \<le> threshold
           then apply_edge_edge_impulse mu
                  \<lparr>m_is_edge_edge = True, m_vertex_indices = (e00, e01, e10, e11),
                   m_normal = normal, m_barycentric_coordinates = (s0, 1 - s0, s2, 1 - s2),
                   m_relative_displacement = dt * relvel\<rparr>
                  (min (max 0 (threshold - relvel)) (10 * dt * (m_proximity_epsilon s - distance)))
                  dt s
           else s)"
    by (simp add: e del: One_nat_def)
  show "process_proximity_candidates ext mu dt ((c0, c1, 1) # candidates) s =
           process_proximity_candidates ext mu dt candidates s"
    if "distance = m_proximity_epsilon s"
    using that by (simp add: e del: One_nat_def)
next
  assume a: "0 < dt \<and> kind \<noteq> 1 \<and> get_triangle s t = (tri0, tri1, tri2) \<and>
    check_point_triangle_proximity ext (get_position s v) (get_position s tri0)
      (get_position s tri1) (get_position s tri2) = (distance, s1, s2, s3, normal) \<and>
    relvel = point_triangle_relvel s v (tri0, tri1, tri2) (s1, s2, s3) normal \<and>
    threshold = (1/10) * (m_proximity_epsilon s - distance) / dt"
  then have e: "point_triangle_proximity_impulse ext dt s (t, v, kind) =
     (if v \<notin> {tri0, tri1, tri2} \<and> distance < m_proximity_epsilon s \<and>
         0 \<le> point_triangle_separation s v (tri0, tri1, tri2) (s1, s2, s3) normal \<and>
         relvel \<le> threshold
      then Some (\<lparr>m_is_edge_edge = False, m_vertex_indices = (v, tri0, tri1, tri2),
                  m_normal = normal, m_barycentric_coordinates = (1, s1, s2, s3),
                  m_relative_displacement = dt * relvel\<rparr>,
                 min (max 0 (threshold - relvel)) (10 * dt * (m_proximity_epsilon s - distance)))
      else None)"
    using point_triangle_proximity_step[of dt s t tri0 tri1 tri2 ext v distance s1 s2 s3 normal kind]
    by simp
  from a have k: "kind \<noteq> 1" by simp
  show "process_proximity_candidates ext mu dt ((t, v, kind) # candidates) s =
        process_proximity_candidates ext mu dt candidates
          (if v \<notin> {tri0, tri1, tri2} \<and> distance < m_proximity_epsilon s \<and>
              0 \<le> point_triangle_separation s v (tri0, tri1, tri2) (s1, s2, s3) normal \<and>
              relvel \<le> threshold
           then apply_triangle_point_impulse mu
                  \<lparr>m_is_edge_edge = False, m_vertex_indices = (v, tri0, tri1, tri2),
                   m_normal = normal, m_barycentric_coordinates = (1, s1, s2, s3),
                   m_relative_displacement = dt * relvel\<rparr>
                  (min (max 0 (threshold - relvel)) (10 * dt * (m_proximity_epsilon s - distance)))
                  dt s
           else s)"
    using k by (simp add: e)
  show "process_proximity_candidates ext mu dt ((t, v, kind) # candidates) s =
           process_proximity_candidates ext mu dt candidates s"
    if "distance = m_proximity_epsilon s"
    using that k by (simp add: e)
qed

text \<open>
  A scene at rest: triangle 0 in the plane \<open>z = 0\<close>, the tip (vertex 3) of triangle 1
  at distance 1 above its interior, and the edge from vertex 4 to vertex 5 at distance
  2 above the edge from vertex 0 to vertex 1. All velocities are zero and
  \<open>proximity_epsilon = 2\<close>. The distance queries answer for these two pairs.
\<close>

definition resting_surface :: surface where
  "resting_surface =
     \<lparr>pm_positions = [(0, 0, 0), (1, 0, 0), (0, 1, 0), (1/4, 1/4, 1), (1/2, - 1, 2), (1/2, 1, 2)],
      pm_newpositions = [(0, 0, 0), (1, 0, 0), (0, 1, 0), (1/4, 1/4, 1), (1/2, - 1, 2), (1/2, 1, 2)],
      m_velocities = [(0, 0, 0), (0, 0, 0), (0, 0, 0), (0, 0, 0), (0, 0, 0), (0, 0, 0)],
      m_masses = [1, 1, 1, 1, 1, 1],
      m_vertex_free = [False, False, False, False, False, False],
      m_tris = [(0, 1, 2), (3, 4, 5)],
      m_edges = [(0, 1), (1, 2), (2, 0), (3, 4), (4, 5), (5, 3)],
      m_vertex_to_triangle_map = [[0], [0], [0], [1], [1], [1]],
      m_vertex_to_edge_map = [[0, 2], [0, 1], [1, 2], [3, 5], [3, 4], [4, 5]],
      m_proximity_epsilon = 2,
      m_collision_safety = True\<rparr>"

text \<open>
  The scene after an impulse of magnitude \<open>1/10\<close> between the tip and triangle 0
  (all masses 1, barycentric coordinates \<open>(1/2, 1/4, 1/4)\<close>, inverse-mass sum
  \<open>11/8\<close>, so \<open>i = 4/55\<close>), with \<open>dt = 1\<close> and no friction.
\<close>

definition resting_pushed :: surface where
  "resting_pushed =
     resting_surface
       \<lparr>m_velocities :=
          [(0, 0, - 2/55), (0, 0, - 1/55), (0, 0, - 1/55), (0, 0, 4/55), (0, 0, 0), (0, 0, 0)],
        pm_newpositions :=
          [(0, 0, - 2/55), (1, 0, - 1/55), (0, 1, - 1/55), (1/4, 1/4, 59/55), (1/2, - 1, 2),
           (1/2, 1, 2)]\<rparr>"

definition proximity_externals :: externals where
  "proximity_externals =
     null_externals
       \<lparr>check_edge_edge_proximity := (\<lambda>a b c d. (2, 1/2, 1/2, (0, 0, - 1))),
        check_point_triangle_proximity := (\<lambda>p a b c. (1, 1/2, 1/4, 1/4, (0, 0, 1)))\<rparr>"

definition resting_proximity :: Collision where
  "resting_proximity =
     \<lparr>m_is_edge_edge = False, m_vertex_indices = (3, 0, 1, 2), m_normal = (0, 0, 1),
      m_barycentric_coordinates = (1, 1/2, 1/4, 1/4), m_relative_displacement = 0\<rparr>"

lemma resting_point:
  "point_triangle_proximity_impulse proximity_externals 1 resting_surface (0, 3, 0) =
     Some (resting_proximity, 1/10)"
  by (simp add: point_triangle_proximity_impulse_def proximity_externals_def null_externals_def
      resting_surface_def get_triangle_def get_position_def resting_proximity_def Let_def)

lemma resting_relvel:
  "point_triangle_relvel resting_surface 3 (0, Suc 0, 2) (1/2, 1/4, 1/4) (0, 0, 1) = 0"
  "point_triangle_separation resting_surface 3 (0, Suc 0, 2) (1/2, 1/4, 1/4) (0, 0, 1) = 1"
  "edge_edge_relvel resting_surface (0, Suc 0) (4, 5) (1/2, 1/2) (0, 0, - 1) = 0"
  by (simp_all add: point_triangle_relvel_def point_triangle_separation_def edge_edge_relvel_def
      resting_surface_def get_position_def)

lemma resting_impulse:
  "apply_triangle_point_impulse 0 resting_proximity (1/10) 1 resting_surface = resting_pushed"
proof -
  let ?a = "(1, - (1/2), - (1/4), - (1/4)) :: Vec4d"
  let ?e = "(3, 0, Suc 0, 2) :: Vec4st"
  let ?v0 = "[(0, 0, 0), (0, 0, 0), (0, 0, 0), (0, 0, 0), (0, 0, 0), (0, 0, 0)] :: Vec3d list"
  let ?v1 = "[(0, 0, - (2/55)), (0, 0, - (1/55)), (0, 0, - (1/55)), (0, 0, 4/55), (0, 0, 0),
              (0, 0, 0)] :: Vec3d list"
  have ms: "m_masses resting_surface = [1, 1, 1, 1, 1, 1]"
    and vs: "m_velocities resting_surface = ?v0"
    by (simp_all add: resting_surface_def)
  have k: "inverse_mass_sum ?a ?e [1, 1, 1, 1, 1, 1] = 11/8"
    by (simp add: inverse_mass_sum_def)
  have pre: "relative_velocity ?a ?e ?v0 = (0, 0, 0)"
    by (simp add: relative_velocity_def)
  have vel1: "add_impulses (4/55) ?a ?e [1, 1, 1, 1, 1, 1] (0, 0, 1) ?v0 = ?v1"
    by (simp add: add_impulses_def add_scaled_def)
  have tan: "tangential_direction (0, 0, 0) = (0, 0, 0)"
    by (simp add: tangential_direction_def mag_def)
  have m0: "mag (0, 0, 0) = 0" by (simp add: mag_def)
  have vel2: "add_impulses 0 ?a ?e [1, 1, 1, 1, 1, 1] (0, 0, 0) ?v1 = ?v1"
    by (simp add: add_impulses_def add_scaled_def)
  have pred: "predict_positions ?e 1 (resting_surface\<lparr>m_velocities := ?v1\<rparr>) = resting_pushed"
    by (simp add: predict_positions_def set_newposition_def get_position_def resting_surface_def
        resting_pushed_def)
  show ?thesis
    unfolding apply_triangle_point_impulse_def apply_impulse_def resting_proximity_def Let_def
    by (simp add: ms vs k pre vel1 tan m0 vel2 pred)
qed

lemma resting_pass:
  "process_proximity_candidates proximity_externals 0 1 [(0, 3, 0)] resting_surface =
     resting_pushed"
  by (simp add: resting_point resting_impulse)

text \<open>
  Claim C2 as the code has it, on the scene at rest with \<open>dt = 1\<close>: for the tip and
  triangle 0, \<open>d = 1 < 2\<close>, the separation is 1 and \<open>v_rel = 0\<close> does not exceed
  the threshold \<open>1/10\<close>, and the pass applies the impulse of magnitude
  \<open>min (max 0 (1/10 - 0)) (10 * 1 * 1) = 1/10\<close>; for the two edges,
  \<open>d = 2 = proximity_epsilon\<close> and the pass leaves the surface as it is.
\<close>

theorem proximity_impulse_rule_witness:
  "(0::real) < 1 \<and> (0::nat) \<noteq> 1 \<and>
   get_triangle resting_surface 0 = (0, 1, 2) \<and>
   check_point_triangle_proximity proximity_externals (get_position resting_surface 3)
     (get_position resting_surface 0) (get_position resting_surface 1)
     (get_position resting_surface 2) = (1, 1/2, 1/4, 1/4, (0, 0, 1)) \<and>
   point_triangle_relvel resting_surface 3 (0, 1, 2) (1/2, 1/4, 1/4) (0, 0, 1) = 0 \<and>
   (1/10) * (m_proximity_epsilon resting_surface - 1) / 1 = 1/10 \<and>
   process_proximity_candidates proximity_externals 0 1 [(0, 3, 0)] resting_surface =
     apply_triangle_point_impulse 0 resting_proximity (1/10) 1 resting_surface \<and>
   apply_triangle_point_impulse 0 resting_proximity (1/10) 1 resting_surface = resting_pushed \<and>
   m_edges resting_surface ! 0 = (0, 1) \<and> m_edges resting_surface ! 4 = (4, 5) \<and>
   check_edge_edge_proximity proximity_externals (get_position resting_surface 0)
     (get_position resting_surface 1) (get_position resting_surface 4)
     (get_position resting_surface 5) = (2, 1/2, 1/2, (0, 0, - 1)) \<and>
   m_proximity_epsilon resting_surface = 2 \<and>
   process_proximity_candidates proximity_externals 0 1 [(0, 4, 1)] resting_surface =
     resting_surface"
proof -
  have t: "get_triangle resting_surface 0 = (0, 1, 2)"
    and e: "m_edges resting_surface ! 0 = (0, 1)" "m_edges resting_surface ! 4 = (4, 5)"
    and eps: "m_proximity_epsilon resting_surface = 2"
    by (simp_all add: get_triangle_def resting_surface_def)
  have p: "check_point_triangle_proximity proximity_externals (get_position resting_surface 3)
     (get_position resting_surface 0) (get_position resting_surface 1)
     (get_position resting_surface 2) = (1, 1/2, 1/4, 1/4, (0, 0, 1))"
    and q: "check_edge_edge_proximity proximity_externals (get_position resting_surface 0)
     (get_position resting_surface 1) (get_position resting_surface 4)
     (get_position resting_surface 5) = (2, 1/2, 1/2, (0, 0, - 1))"
    by (simp_all add: proximity_externals_def null_externals_def)
  from proximity_impulse_rule[where s = resting_surface and ext = proximity_externals
      and t = 0 and ?tri0.0 = 0 and ?tri1.0 = 1 and ?tri2.0 = 2 and v = 3 and distance = 1
      and ?s1.0 = "1/2" and ?s2.0 = "1/4" and ?s3.0 = "1/4" and normal = "(0, 0, 1)"
      and relvel = 0 and threshold = "1/10" and dt = 1 and kind = 0 and mu = 0
      and candidates = "[]"] t p
  have a: "process_proximity_candidates proximity_externals 0 1 [(0, 3, 0)] resting_surface =
     apply_triangle_point_impulse 0 resting_proximity (1/10) 1 resting_surface"
    by (simp add: resting_relvel eps resting_proximity_def)
  from proximity_impulse_rule[where s = resting_surface and ext = proximity_externals
      and ?c0.0 = 0 and ?c1.0 = 4 and ?e00.0 = 0 and ?e01.0 = 1 and ?e10.0 = 4 and ?e11.0 = 5
      and distance = 2 and ?s0.0 = "1/2" and ?s2.0 = "1/2" and normal = "(0, 0, - 1)"
      and relvel = 0 and threshold = 0 and dt = 1 and mu = 0 and candidates = "[]"] e q
  have b: "process_proximity_candidates proximity_externals 0 1 [(0, 4, 1)] resting_surface =
     resting_surface"
    by (simp add: resting_relvel eps)
  from a b t e p q eps show ?thesis by (simp add: resting_relvel resting_impulse)
qed

text \<open>
  Claim C2 as stated fails: in the scene at rest nothing approaches anything (every
  velocity is zero, so the relative velocity is 0 and does not exceed the threshold
  \<open>0.1 * (2 - 1) / 1 = 1/10\<close>), yet the proximity pass applies an impulse of
  magnitude \<open>1/10\<close> to the tip and triangle 0 and sets them moving apart.
\<close>

theorem proximity_impulse_without_approach:
  "m_velocities resting_surface =
     [(0, 0, 0), (0, 0, 0), (0, 0, 0), (0, 0, 0), (0, 0, 0), (0, 0, 0)] \<and>
   point_triangle_relvel resting_surface 3 (0, 1, 2) (1/2, 1/4, 1/4) (0, 0, 1) = 0 \<and>
   (1/10) * (m_proximity_epsilon resting_surface - 1) / 1 = 1/10 \<and>
   \<not> (0::real) > 1/10 \<and>
   process_proximity_candidates proximity_externals 0 1 [(0, 3, 0)] resting_surface =
     resting_pushed \<and>
   m_velocities resting_pushed =
     [(0, 0, - 2/55), (0, 0, - 1/55), (0, 0, - 1/55), (0, 0, 4/55), (0, 0, 0), (0, 0, 0)]"
proof -
  have "m_velocities resting_surface =
          [(0, 0, 0), (0, 0, 0), (0, 0, 0), (0, 0, 0), (0, 0, 0), (0, 0, 0)]"
    and "(1/10) * (m_proximity_epsilon resting_surface - 1) / 1 = 1/10"
    by (simp_all add: resting_surface_def)
  moreover have "m_velocities resting_pushed =
     [(0, 0, - 2/55), (0, 0, - 1/55), (0, 0, - 1/55), (0, 0, 4/55), (0, 0, 0), (0, 0, 0)]"
    by (simp add: resting_pushed_def)
  ultimately show ?thesis using resting_pass resting_relvel by simp
qed


subsection \<open>The mesh pincher\<close>

text \<open>
  Modelled from the spec: \<^verbatim>\<open>add_vertex\<close>, \<^verbatim>\<open>remove_vertex\<close>, \<^verbatim>\<open>add_triangle\<close> and
  \<^verbatim>\<open>remove_triangle\<close> of the surface (\<^verbatim>\<open>surftrack.cpp\<close>,
  \<^verbatim>\<open>nondestructivetrimesh.cpp\<close>) are not among the sources. Section 3 (Lifecycle, I7)
  and section 4.4: indices are stable and a deleted index is not reused before
  defragmentation, so a new vertex or triangle takes the next index at the end of its
  table; removal only marks the slot (a vertex slot as free, a triangle slot with the
  sentinel \<open>(0, 0, 0)\<close>) and unlinks it from the incidence maps; \<^verbatim>\<open>add_triangle\<close>
  finds the edge of each pair of its vertices or allocates a new one. The spec does not
  say that \<^verbatim>\<open>add_vertex\<close> creates a velocity entry; none is created here.
\<close>

definition add_vertex :: "Vec3d \<Rightarrow> real \<Rightarrow> surface \<Rightarrow> nat \<times> surface" where
  "add_vertex new_vertex_position new_vertex_mass s =
     (length (pm_positions s),
      s\<lparr>pm_positions := pm_positions s @ [new_vertex_position],
        pm_newpositions := pm_newpositions s @ [new_vertex_position],
        m_masses := m_masses s @ [new_vertex_mass],
        m_vertex_free := m_vertex_free s @ [False],
        m_vertex_to_triangle_map := m_vertex_to_triangle_map s @ [[]],
        m_vertex_to_edge_map := m_vertex_to_edge_map s @ [[]]\<rparr>)"

definition remove_vertex :: "nat \<Rightarrow> surface \<Rightarrow> surface" where
  "remove_vertex v s =
     s\<lparr>m_vertex_free := (m_vertex_free s)[v := True],
       m_vertex_to_triangle_map := (m_vertex_to_triangle_map s)[v := []],
       m_vertex_to_edge_map := (m_vertex_to_edge_map s)[v := []]\<rparr>"

definition add_edge_if_absent :: "nat \<Rightarrow> nat \<Rightarrow> surface \<Rightarrow> surface" where
  "add_edge_if_absent a b s =
     (if (a, b) \<in> set (m_edges s) \<or> (b, a) \<in> set (m_edges s) then s
      else
        (let e = length (m_edges s);
             v2e = m_vertex_to_edge_map s;
             v2e1 = v2e[a := v2e ! a @ [e]];
             v2e2 = v2e1[b := v2e1 ! b @ [e]]
         in s\<lparr>m_edges := m_edges s @ [(a, b)], m_vertex_to_edge_map := v2e2\<rparr>))"

definition add_triangle :: "Vec3st \<Rightarrow> surface \<Rightarrow> surface" where
  "add_triangle tri s =
     (case tri of (a, b, c) \<Rightarrow>
        (let t = length (m_tris s);
             v2t = m_vertex_to_triangle_map s;
             v2t1 = v2t[a := v2t ! a @ [t]];
             v2t2 = v2t1[b := v2t1 ! b @ [t]];
             v2t3 = v2t2[c := v2t2 ! c @ [t]]
         in add_edge_if_absent c a
              (add_edge_if_absent b c
                (add_edge_if_absent a b
                  (s\<lparr>m_tris := m_tris s @ [tri], m_vertex_to_triangle_map := v2t3\<rparr>)))))"

definition remove_triangle :: "nat \<Rightarrow> surface \<Rightarrow> surface" where
  "remove_triangle t s =
     s\<lparr>m_tris := (m_tris s)[t := (0, 0, 0)],
       m_vertex_to_triangle_map := map (removeAll t) (m_vertex_to_triangle_map s)\<rparr>"

text \<open>
  Lines 131-143: the copy of a component triangle with the pinched vertex replaced by
  its duplicate, and the centroid accumulator with the positions of the other corners
  added.
\<close>

definition retarget_corner :: "surface \<Rightarrow> nat \<Rightarrow> nat \<Rightarrow> nat \<times> Vec3d \<Rightarrow> nat \<times> Vec3d" where
  "retarget_corner s vertex_index duplicate_vertex_index cc =
     (case cc of (corner, centroid) \<Rightarrow>
        if corner = vertex_index then (duplicate_vertex_index, centroid)
        else (corner, vadd centroid (get_position s corner)))"

definition retarget_triangle ::
  "surface \<Rightarrow> nat \<Rightarrow> nat \<Rightarrow> Vec3st \<Rightarrow> Vec3d \<Rightarrow> Vec3st \<times> Vec3d" where
  "retarget_triangle s vertex_index duplicate_vertex_index tri centroid =
     (case tri of (t0, t1, t2) \<Rightarrow>
      case retarget_corner s vertex_index duplicate_vertex_index (t0, centroid) of (n0, c0) \<Rightarrow>
      case retarget_corner s vertex_index duplicate_vertex_index (t1, c0) of (n1, c1) \<Rightarrow>
      case retarget_corner s vertex_index duplicate_vertex_index (t2, c1) of (n2, c2) \<Rightarrow>
        ((n0, n1, n2), c2))"

text \<open>
  The loop of lines 128-147 over the triangles of one component, on
  (\<open>centroid\<close>, \<open>triangles_to_add\<close>, \<open>triangles_to_delete\<close>).
\<close>

fun map_component ::
  "surface \<Rightarrow> nat \<Rightarrow> nat \<Rightarrow> nat list \<Rightarrow> Vec3d \<times> Vec3st list \<times> nat list \<Rightarrow>
   Vec3d \<times> Vec3st list \<times> nat list" where
  "map_component s vertex_index duplicate_vertex_index [] acc = acc"
| "map_component s vertex_index duplicate_vertex_index (t # ts)
       (centroid, triangles_to_add, triangles_to_delete) =
     (case retarget_triangle s vertex_index duplicate_vertex_index (get_triangle s t) centroid of
        (new_triangle, centroid1) \<Rightarrow>
          map_component s vertex_index duplicate_vertex_index ts
            (centroid1, triangles_to_add @ [new_triangle], triangles_to_delete @ [t]))"

text \<open>
  One round of the loop of lines 118-159: the duplicate of the vertex for one
  component, placed at \<open>(1 - dx) * x + dx * centroid\<close>. (For an empty component the
  source divides by zero; the partition never returns one.)
\<close>

definition duplicate_for_component ::
  "nat \<Rightarrow> real \<Rightarrow> nat list \<Rightarrow> surface \<times> nat list \<times> Vec3st list \<times> nat list \<Rightarrow>
   surface \<times> nat list \<times> Vec3st list \<times> nat list" where
  "duplicate_for_component vertex_index dx component st =
     (case st of (s, triangles_to_delete, triangles_to_add, vertices_added) \<Rightarrow>
      case add_vertex (get_position s vertex_index) (m_masses s ! vertex_index) s of
        (duplicate_vertex_index, s1) \<Rightarrow>
      case map_component s1 vertex_index duplicate_vertex_index component
             ((0, 0, 0), triangles_to_add, triangles_to_delete) of
        (centroid_sum, triangles_to_add1, triangles_to_delete1) \<Rightarrow>
          (let centroid = vdiv centroid_sum (real (length component * 2));
               added_vertex_position =
                 vadd (smul (1 - dx) (get_position s1 duplicate_vertex_index)) (smul dx centroid)
           in (set_newposition duplicate_vertex_index added_vertex_position
                 (set_position duplicate_vertex_index added_vertex_position s1),
               triangles_to_delete1, triangles_to_add1,
               vertices_added @ [duplicate_vertex_index])))"

text \<open>
  The loop of lines 118-159: every component but the last gets a duplicate.
\<close>

definition duplicate_vertices ::
  "nat \<Rightarrow> nat list list \<Rightarrow> surface \<Rightarrow> surface \<times> nat list \<times> Vec3st list \<times> nat list" where
  "duplicate_vertices vertex_index connected_components s =
     fold (duplicate_for_component vertex_index (10 * m_proximity_epsilon s))
       (take (length connected_components - 1) connected_components) (s, [], [], [])"

text \<open>
  The collision check of lines 163-206. An inner loop stops at the first intersection it
  finds (\<^verbatim>\<open>break\<close>); the outer loops go on.
\<close>

fun intersects_any_existing :: "externals \<Rightarrow> surface \<Rightarrow> Vec3st \<Rightarrow> nat list \<Rightarrow> bool" where
  "intersects_any_existing ext s current_triangle [] = False"
| "intersects_any_existing ext s current_triangle (j # js) =
     (if check_triangle_triangle_intersection ext current_triangle (get_triangle s j)
           (pm_positions s)
      then True
      else intersects_any_existing ext s current_triangle js)"

fun new_vs_existing :: "externals \<Rightarrow> surface \<Rightarrow> Vec3st list \<Rightarrow> bool \<Rightarrow> bool" where
  "new_vs_existing ext s [] collision_occurs = collision_occurs"
| "new_vs_existing ext s (current_triangle # rest) collision_occurs =
     (case current_triangle of (c0, c1, c2) \<Rightarrow>
      case minmax (get_position s c0) (get_position s c1) (get_position s c2) of (low, high) \<Rightarrow>
        new_vs_existing ext s rest
          (if intersects_any_existing ext s current_triangle
                (get_potential_triangle_collisions ext s low high True True)
           then True else collision_occurs))"

fun intersects_any_new :: "externals \<Rightarrow> surface \<Rightarrow> Vec3st \<Rightarrow> Vec3st list \<Rightarrow> bool" where
  "intersects_any_new ext s tri_i [] = False"
| "intersects_any_new ext s tri_i (tri_j # rest) =
     (if check_triangle_triangle_intersection ext tri_i tri_j (pm_positions s) then True
      else intersects_any_new ext s tri_i rest)"

fun new_vs_new :: "externals \<Rightarrow> surface \<Rightarrow> Vec3st list \<Rightarrow> bool \<Rightarrow> bool" where
  "new_vs_new ext s [] collision_occurs = collision_occurs"
| "new_vs_new ext s (tri_i # rest) collision_occurs =
     new_vs_new ext s rest
       (if intersects_any_new ext s tri_i rest then True else collision_occurs)"

definition pinch_collision_occurs :: "externals \<Rightarrow> surface \<Rightarrow> Vec3st list \<Rightarrow> bool" where
  "pinch_collision_occurs ext s triangles_to_add =
     (if m_collision_safety s
      then new_vs_new ext s triangles_to_add (new_vs_existing ext s triangles_to_add False)
      else False)"

text \<open>
  \<^verbatim>\<open>MeshPincher::pull_apart_vertex\<close> (lines 109-248): the surface it leaves and the
  value it returns. (The final \<^verbatim>\<open>assert_mesh_is_intersection_free\<close> only asserts.)
\<close>

definition pull_apart_vertex ::
  "externals \<Rightarrow> nat \<Rightarrow> nat list list \<Rightarrow> surface \<Rightarrow> surface \<times> bool" where
  "pull_apart_vertex ext vertex_index connected_components s =
     (case duplicate_vertices vertex_index connected_components s of
        (s1, triangles_to_delete, triangles_to_add, vertices_added) \<Rightarrow>
          if pinch_collision_occurs ext s1 triangles_to_add
          then (fold remove_vertex vertices_added s1, False)
          else (fold remove_triangle triangles_to_delete (fold add_triangle triangles_to_add s1),
                True))"

text \<open>
  The body of the loop of \<^verbatim>\<open>MeshPincher::process_mesh\<close> (lines 262-269) for vertex
  \<open>i\<close>, and the loop (lines 260-270), whose bound is re-read after every vertex, so
  that it also visits the duplicates it has just created.
\<close>

definition process_mesh_vertex :: "externals \<Rightarrow> nat \<Rightarrow> surface \<Rightarrow> surface option" where
  "process_mesh_vertex ext i s =
     (case partition_vertex_neighbourhood (triangles_are_adjacent ext s)
             (m_vertex_to_triangle_map s) i [] of
        None \<Rightarrow> None
      | Some connected_components \<Rightarrow>
          if length connected_components > 1
          then Some (fst (pull_apart_vertex ext i connected_components s))
          else Some s)"

partial_function (option) process_mesh_from :: "externals \<Rightarrow> nat \<Rightarrow> surface \<Rightarrow> surface option" where
  "process_mesh_from ext i s =
     (if i < get_num_vertices s
      then (case process_mesh_vertex ext i s of
              None \<Rightarrow> None
            | Some s1 \<Rightarrow> process_mesh_from ext (Suc i) s1)
      else Some s)"

definition process_mesh :: "externals \<Rightarrow> surface \<Rightarrow> surface option" where
  "process_mesh ext s = process_mesh_from ext 0 s"


subsection \<open>What a pinch does\<close>

text \<open>
  The per-vertex arrays of a surface are aligned with the vertex indices (spec,
  section 4.5), and the triangles of the components name vertices of the surface.
\<close>

definition aligned :: "surface \<Rightarrow> bool" where
  "aligned s =
     (length (pm_newpositions s) = length (pm_positions s) \<and>
      length (m_masses s) = length (pm_positions s) \<and>
      length (m_vertex_free s) = length (pm_positions s) \<and>
      length (m_vertex_to_triangle_map s) = length (pm_positions s) \<and>
      length (m_vertex_to_edge_map s) = length (pm_positions s))"

definition corners_in_range :: "surface \<Rightarrow> nat list \<Rightarrow> bool" where
  "corners_in_range s component =
     list_all (\<lambda>t. case get_triangle s t of (a, b, c) \<Rightarrow>
                 a < length (pm_positions s) \<and> b < length (pm_positions s) \<and>
                 c < length (pm_positions s)) component"

text \<open>
  The centroid of a component as the source computes it: the mean of the positions of
  the corners other than the pinched vertex, two per triangle; and the place of the
  duplicate, \<open>dx = 10 * proximity_epsilon\<close> of the way from the vertex to that
  centroid.
\<close>

definition other_corners :: "nat \<Rightarrow> Vec3st \<Rightarrow> nat list" where
  "other_corners v tri = (case tri of (a, b, c) \<Rightarrow> filter (\<lambda>w. w \<noteq> v) [a, b, c])"

definition component_centroid :: "surface \<Rightarrow> nat \<Rightarrow> nat list \<Rightarrow> Vec3d" where
  "component_centroid s v component =
     vdiv (foldl vadd (0, 0, 0)
             (map (get_position s)
                (concat (map (\<lambda>t. other_corners v (get_triangle s t)) component))))
          (real (length component * 2))"

definition pinch_position :: "surface \<Rightarrow> nat \<Rightarrow> nat list \<Rightarrow> Vec3d" where
  "pinch_position s v component =
     vadd (smul (1 - 10 * m_proximity_epsilon s) (get_position s v))
          (smul (10 * m_proximity_epsilon s) (component_centroid s v component))"

definition replace_vertex :: "nat \<Rightarrow> nat \<Rightarrow> Vec3st \<Rightarrow> Vec3st" where
  "replace_vertex v d tri =
     (case tri of (a, b, c) \<Rightarrow>
        (if a = v then d else a, if b = v then d else b, if c = v then d else c))"

text \<open>
  The copies that the loop of lines 118-159 collects in \<^verbatim>\<open>triangles_to_add\<close>: the
  triangles of each component in turn, with the pinched vertex replaced by the duplicate
  of the component; \<open>d\<close> is the index of the first duplicate.
\<close>

fun retargeted_triangles :: "surface \<Rightarrow> nat \<Rightarrow> nat \<Rightarrow> nat list list \<Rightarrow> Vec3st list" where
  "retargeted_triangles s v d [] = []"
| "retargeted_triangles s v d (component # components) =
     map (\<lambda>t. replace_vertex v d (get_triangle s t)) component @
     retargeted_triangles s v (Suc d) components"

text \<open>
  The surface with duplicates of mass \<open>m\<close> appended at the positions \<open>ps\<close>, live or
  removed again.
\<close>

definition with_duplicates :: "surface \<Rightarrow> Vec3d list \<Rightarrow> real \<Rightarrow> bool \<Rightarrow> surface" where
  "with_duplicates s ps m removed =
     s\<lparr>pm_positions := pm_positions s @ ps,
       pm_newpositions := pm_newpositions s @ ps,
       m_masses := m_masses s @ replicate (length ps) m,
       m_vertex_free := m_vertex_free s @ replicate (length ps) removed,
       m_vertex_to_triangle_map := m_vertex_to_triangle_map s @ replicate (length ps) [],
       m_vertex_to_edge_map := m_vertex_to_edge_map s @ replicate (length ps) []\<rparr>"

lemma retarget_triangle_eq:
  "retarget_triangle s v d tri centroid =
     (replace_vertex v d tri, foldl vadd centroid (map (get_position s) (other_corners v tri)))"
  by (cases tri)
     (simp add: retarget_triangle_def retarget_corner_def replace_vertex_def other_corners_def)

lemma map_component_eq:
  "map_component s v d ts (centroid, triangles_to_add, triangles_to_delete) =
     (foldl vadd centroid
        (map (get_position s) (concat (map (\<lambda>t. other_corners v (get_triangle s t)) ts))),
      triangles_to_add @ map (\<lambda>t. replace_vertex v d (get_triangle s t)) ts,
      triangles_to_delete @ ts)"
  by (induction ts arbitrary: centroid triangles_to_add triangles_to_delete)
     (simp_all add: retarget_triangle_eq)

lemma with_duplicates_fields:
  "pm_positions (with_duplicates s ps m r) = pm_positions s @ ps"
  "m_tris (with_duplicates s ps m r) = m_tris s"
  "m_masses (with_duplicates s ps m r) = m_masses s @ replicate (length ps) m"
  "m_proximity_epsilon (with_duplicates s ps m r) = m_proximity_epsilon s"
  by (simp_all add: with_duplicates_def)

lemma other_corners_in_range:
  assumes "w \<in> set (other_corners v tri)"
    and "case tri of (a, b, c) \<Rightarrow> a < n \<and> b < n \<and> c < n"
  shows "w < n"
proof -
  obtain a b c where t: "tri = (a, b, c)" by (cases tri) auto
  from assms(1) have "w = a \<or> w = b \<or> w = c"
    unfolding t other_corners_def by (auto split: if_splits)
  with assms(2) show ?thesis unfolding t by auto
qed

lemma positions_of_corners:
  assumes "corners_in_range s component"
  shows "map (get_position (with_duplicates s ps m r))
           (concat (map (\<lambda>t. other_corners v (get_triangle s t)) component)) =
         map (get_position s)
           (concat (map (\<lambda>t. other_corners v (get_triangle s t)) component))"
proof -
  have "w < length (pm_positions s)"
    if "w \<in> set (concat (map (\<lambda>t. other_corners v (get_triangle s t)) component))" for w
  proof -
    from that obtain t where
      t: "t \<in> set component" and w: "w \<in> set (other_corners v (get_triangle s t))"
      by auto
    from t assms
    have "case get_triangle s t of (a, b, c) \<Rightarrow>
            a < length (pm_positions s) \<and> b < length (pm_positions s) \<and>
            c < length (pm_positions s)"
      by (simp add: corners_in_range_def list_all_iff)
    with w show ?thesis by (rule other_corners_in_range)
  qed
  then have "\<forall>w \<in> set (concat (map (\<lambda>t. other_corners v (get_triangle s t)) component)).
          get_position (with_duplicates s ps m r) w = get_position s w"
    by (simp add: get_position_def with_duplicates_def nth_append)
  then show ?thesis by simp
qed

lemma duplicate_for_component_step:
  assumes "aligned s" "v < length (pm_positions s)" "corners_in_range s component"
    and "dx = 10 * m_proximity_epsilon s" "m = m_masses s ! v"
  shows "duplicate_for_component v dx component
           (with_duplicates s ps m False, triangles_to_delete, triangles_to_add, vertices_added) =
         (with_duplicates s (ps @ [pinch_position s v component]) m False,
          triangles_to_delete @ component,
          triangles_to_add @
            map (\<lambda>t. replace_vertex v (length (pm_positions s) + length ps) (get_triangle s t))
              component,
          vertices_added @ [length (pm_positions s) + length ps])"
proof -
  let ?s0 = "with_duplicates s ps m False"
  let ?d = "length (pm_positions s) + length ps"
  have pv: "get_position ?s0 v = get_position s v"
    using assms(2) by (simp add: get_position_def with_duplicates_def nth_append)
  have mv: "m_masses ?s0 ! v = m"
    using assms(1,2,5) by (simp add: with_duplicates_def nth_append aligned_def)
  have av: "add_vertex (get_position s v) m ?s0 =
              (?d, with_duplicates s (ps @ [get_position s v]) m False)"
    by (simp add: add_vertex_def with_duplicates_def replicate_append_same)
  let ?s1 = "with_duplicates s (ps @ [get_position s v]) m False"
  have gd: "get_position ?s1 ?d = get_position s v"
    by (simp add: get_position_def with_duplicates_def nth_append)
  have tr: "get_triangle ?s1 = get_triangle s"
    by (rule ext) (simp add: get_triangle_def with_duplicates_def)
  have upd: "set_newposition ?d x (set_position ?d x ?s1) = with_duplicates s (ps @ [x]) m False"
    for x
    using assms(1)
    by (simp add: set_newposition_def set_position_def with_duplicates_def aligned_def
        list_update_append)
  have mc: "map_component ?s1 v ?d component ((0, 0, 0), triangles_to_add, triangles_to_delete) =
          (foldl vadd (0, 0, 0)
             (map (get_position s)
                (concat (map (\<lambda>t. other_corners v (get_triangle s t)) component))),
           triangles_to_add @ map (\<lambda>t. replace_vertex v ?d (get_triangle s t)) component,
           triangles_to_delete @ component)"
    by (simp only: map_component_eq tr positions_of_corners[OF assms(3)])
  show ?thesis
    unfolding duplicate_for_component_def
    by (simp only: prod.case pv mv av mc Let_def gd upd pinch_position_def
        component_centroid_def assms(4))
qed

lemma duplicate_fold:
  assumes "aligned s" "v < length (pm_positions s)" "list_all (corners_in_range s) components"
    and "dx = 10 * m_proximity_epsilon s" "m = m_masses s ! v"
  shows "fold (duplicate_for_component v dx) components
           (with_duplicates s ps m False, triangles_to_delete, triangles_to_add, vertices_added) =
         (with_duplicates s (ps @ map (pinch_position s v) components) m False,
          triangles_to_delete @ concat components,
          triangles_to_add @
            retargeted_triangles s v (length (pm_positions s) + length ps) components,
          vertices_added @
            [length (pm_positions s) + length ps ..<
             length (pm_positions s) + length ps + length components])"
  using assms(3)
proof (induction components arbitrary: ps triangles_to_delete triangles_to_add vertices_added)
  case Nil
  then show ?case by simp
next
  case (Cons c cs)
  from Cons.prems have c: "corners_in_range s c" and cs: "list_all (corners_in_range s) cs"
    by simp_all
  let ?n = "length (pm_positions s) + length ps"
  let ?a1 = "map (\<lambda>t. replace_vertex v ?n (get_triangle s t)) c"
  have s1: "duplicate_for_component v dx c
           (with_duplicates s ps m False, triangles_to_delete, triangles_to_add, vertices_added) =
         (with_duplicates s (ps @ [pinch_position s v c]) m False,
          triangles_to_delete @ c, triangles_to_add @ ?a1, vertices_added @ [?n])"
    by (rule duplicate_for_component_step[OF assms(1,2) c assms(4,5)])
  have s2: "fold (duplicate_for_component v dx) cs
           (with_duplicates s (ps @ [pinch_position s v c]) m False,
            triangles_to_delete @ c, triangles_to_add @ ?a1, vertices_added @ [?n]) =
         (with_duplicates s ((ps @ [pinch_position s v c]) @ map (pinch_position s v) cs) m False,
          (triangles_to_delete @ c) @ concat cs,
          (triangles_to_add @ ?a1) @ retargeted_triangles s v (Suc ?n) cs,
          (vertices_added @ [?n]) @ [Suc ?n ..< Suc ?n + length cs])"
    using Cons.IH[OF cs, of "ps @ [pinch_position s v c]" "triangles_to_delete @ c"
      "triangles_to_add @ ?a1" "vertices_added @ [?n]"]
    by simp
  have u: "[?n ..< ?n + length (c # cs)] = ?n # [Suc ?n ..< Suc ?n + length cs]"
    by (subst upt_rec) simp
  show ?case
    unfolding u by (simp add: s1 s2)
qed

lemma with_duplicates_empty: "with_duplicates s [] m r = s"
  by (simp add: with_duplicates_def)

lemma duplicate_vertices_triangles:
  assumes "aligned s" "v < length (pm_positions s)" "list_all (corners_in_range s) components"
  shows "duplicate_vertices v components s =
         (with_duplicates s (map (pinch_position s v) (butlast components)) (m_masses s ! v) False,
          concat (butlast components),
          retargeted_triangles s v (length (pm_positions s)) (butlast components),
          [length (pm_positions s) ..< length (pm_positions s) + (length components - 1)])"
proof -
  have l: "list_all (corners_in_range s) (butlast components)"
    using assms(3) by (auto simp: list_all_iff dest: in_set_butlastD)
  from duplicate_fold[OF assms(1,2) l refl refl, of "[]" "[]" "[]" "[]"]
  show ?thesis
    unfolding duplicate_vertices_def butlast_conv_take[symmetric]
    by (simp add: with_duplicates_empty)
qed

lemma length_retargeted_triangles:
  "length (retargeted_triangles s v d components) = length (concat components)"
  by (induction components arbitrary: d) simp_all

lemma duplicate_vertices_eq:
  assumes "aligned s" "v < length (pm_positions s)" "list_all (corners_in_range s) components"
  shows "\<exists>triangles_to_add.
         duplicate_vertices v components s =
         (with_duplicates s (map (pinch_position s v) (butlast components)) (m_masses s ! v) False,
          concat (butlast components),
          triangles_to_add,
          [length (pm_positions s) ..< length (pm_positions s) + (length components - 1)]) \<and>
         length triangles_to_add = length (concat (butlast components))"
  using duplicate_vertices_triangles[OF assms] length_retargeted_triangles by blast


lemma remove_duplicates:
  assumes "aligned s"
  shows "fold remove_vertex [length (pm_positions s) ..< length (pm_positions s) + length ps]
           (with_duplicates s ps m False) = with_duplicates s ps m True"
proof -
  let ?n = "length (pm_positions s)"
  have "j \<le> length ps \<Longrightarrow>
        fold remove_vertex [?n ..< ?n + j] (with_duplicates s ps m False) =
          (with_duplicates s ps m False)
            \<lparr>m_vertex_free := m_vertex_free s @ replicate j True @ replicate (length ps - j) False\<rparr>"
    for j
  proof (induction j)
    case 0
    then show ?case by (simp add: with_duplicates_def)
  next
    case (Suc j)
    then have j: "j < length ps" by simp
    have l: "length (m_vertex_free s) = ?n" "length (m_vertex_to_triangle_map s) = ?n"
      "length (m_vertex_to_edge_map s) = ?n"
      using assms by (simp_all add: aligned_def)
    have r: "replicate (length ps - j) False = False # replicate (length ps - Suc j) False"
      using j by (metis Suc_diff_Suc replicate_Suc)
    have f: "(m_vertex_free s @ replicate j True @ replicate (length ps - j) False)[?n + j := True] =
             m_vertex_free s @ replicate (Suc j) True @ replicate (length ps - Suc j) False"
      unfolding r using l(1)
      by (simp add: list_update_append replicate_append_same)
    have e: "(xs @ replicate (length ps) [])[length xs + j := []] = xs @ replicate (length ps) []"
      for xs :: "nat list list"
      using j by (simp add: list_update_append list_update_same_conv)
    show ?case
      using Suc.IH j f e[of "m_vertex_to_triangle_map s"] e[of "m_vertex_to_edge_map s"] l
      by (simp add: remove_vertex_def with_duplicates_def)
  qed
  from this[of "length ps"] show ?thesis by (simp add: with_duplicates_def)
qed

text \<open>
  Claim C1, as the code has it. If the collision-safety check of the pincher fails,
  \<^verbatim>\<open>pull_apart_vertex\<close> returns false, adds and deletes no triangle, and removes every
  vertex it added; what is left is the surface as it was before the call with the slots
  of the removed duplicates appended to the vertex tables, marked free and with empty
  incidence lists. Every slot that existed before the call, and the triangle and edge
  tables, are unchanged.
\<close>

theorem pull_apart_vertex_abort:
  assumes "aligned s" "vertex_index < get_num_vertices s"
    and "list_all (corners_in_range s) connected_components"
    and "pinch_collision_occurs ext
           (fst (duplicate_vertices vertex_index connected_components s))
           (fst (snd (snd (duplicate_vertices vertex_index connected_components s))))"
  shows "pull_apart_vertex ext vertex_index connected_components s =
           (with_duplicates s
              (map (pinch_position s vertex_index) (butlast connected_components))
              (m_masses s ! vertex_index) True,
            False)"
proof -
  from duplicate_vertices_eq[OF assms(1) assms(2)[unfolded get_num_vertices_def] assms(3)]
  obtain triangles_to_add where
    d: "duplicate_vertices vertex_index connected_components s =
         (with_duplicates s (map (pinch_position s vertex_index) (butlast connected_components))
            (m_masses s ! vertex_index) False,
          concat (butlast connected_components),
          triangles_to_add,
          [length (pm_positions s) ..< length (pm_positions s) + (length connected_components - 1)])"
    by blast
  have r: "fold remove_vertex
             [length (pm_positions s) ..< length (pm_positions s) + (length connected_components - 1)]
             (with_duplicates s (map (pinch_position s vertex_index) (butlast connected_components))
                (m_masses s ! vertex_index) False) =
           with_duplicates s (map (pinch_position s vertex_index) (butlast connected_components))
             (m_masses s ! vertex_index) True"
    using remove_duplicates[OF assms(1),
        of "map (pinch_position s vertex_index) (butlast connected_components)"
           "m_masses s ! vertex_index"]
    by simp
  from assms(4) show ?thesis
    unfolding pull_apart_vertex_def d
    by (simp only: fst_conv snd_conv prod.case r if_True)
qed

lemma add_edge_if_absent_frame:
  "pm_positions (add_edge_if_absent a b s) = pm_positions s"
  "m_vertex_free (add_edge_if_absent a b s) = m_vertex_free s"
  by (simp_all add: add_edge_if_absent_def Let_def)

lemma add_triangle_frame:
  "pm_positions (add_triangle tri s) = pm_positions s"
  "m_vertex_free (add_triangle tri s) = m_vertex_free s"
  by (cases tri; simp add: add_triangle_def Let_def add_edge_if_absent_frame)+

lemma remove_triangle_frame:
  "pm_positions (remove_triangle t s) = pm_positions s"
  "m_vertex_free (remove_triangle t s) = m_vertex_free s"
  by (simp_all add: remove_triangle_def)

lemma commit_frame:
  "pm_positions (fold remove_triangle ts (fold add_triangle tris s)) = pm_positions s"
  "m_vertex_free (fold remove_triangle ts (fold add_triangle tris s)) = m_vertex_free s"
proof -
  have a: "pm_positions (fold add_triangle tris s) = pm_positions s \<and>
           m_vertex_free (fold add_triangle tris s) = m_vertex_free s" for s
    by (induction tris arbitrary: s) (simp_all add: add_triangle_frame)
  have r: "pm_positions (fold remove_triangle ts s) = pm_positions s \<and>
           m_vertex_free (fold remove_triangle ts s) = m_vertex_free s" for s
    by (induction ts arbitrary: s) (simp_all add: remove_triangle_frame)
  show "pm_positions (fold remove_triangle ts (fold add_triangle tris s)) = pm_positions s"
    "m_vertex_free (fold remove_triangle ts (fold add_triangle tris s)) = m_vertex_free s"
    using a r by simp_all
qed

text \<open>
  The surface that a committed pinch leaves (lines 213-228): the duplicates appended to
  the vertex tables, the copies of \<^verbatim>\<open>triangles_to_add\<close> added and the triangles of
  \<^verbatim>\<open>triangles_to_delete\<close> removed.
\<close>

definition pinched :: "surface \<Rightarrow> nat \<Rightarrow> nat list list \<Rightarrow> surface" where
  "pinched s v components =
     fold remove_triangle (concat (butlast components))
       (fold add_triangle
          (retargeted_triangles s v (length (pm_positions s)) (butlast components))
          (with_duplicates s (map (pinch_position s v) (butlast components))
             (m_masses s ! v) False))"

definition corners :: "Vec3st \<Rightarrow> nat list" where
  "corners tri = (case tri of (a, b, c) \<Rightarrow> [a, b, c])"

text \<open>
  The entries that adding the triangles \<open>tris\<close>, the first of them at index \<open>t\<close>,
  appends to the incidence list of vertex \<open>w\<close>.
\<close>

fun new_incidence :: "nat \<Rightarrow> nat \<Rightarrow> Vec3st list \<Rightarrow> nat list" where
  "new_incidence w t [] = []"
| "new_incidence w t (tri # tris) =
     replicate (count_list (corners tri) w) t @ new_incidence w (Suc t) tris"

lemma add_edge_if_absent_tris:
  "m_tris (add_edge_if_absent a b s) = m_tris s"
  "m_vertex_to_triangle_map (add_edge_if_absent a b s) = m_vertex_to_triangle_map s"
  by (simp_all add: add_edge_if_absent_def Let_def)

lemma add_triangle_tris: "m_tris (add_triangle tri s) = m_tris s @ [tri]"
  by (cases tri) (simp add: add_triangle_def Let_def add_edge_if_absent_tris)

lemma add_triangle_incidence_length:
  "length (m_vertex_to_triangle_map (add_triangle tri s)) = length (m_vertex_to_triangle_map s)"
  by (cases tri) (simp add: add_triangle_def Let_def add_edge_if_absent_tris)

lemma add_triangle_incidence:
  assumes "w < length (m_vertex_to_triangle_map s)"
  shows "m_vertex_to_triangle_map (add_triangle tri s) ! w =
           m_vertex_to_triangle_map s ! w @
           replicate (count_list (corners tri) w) (length (m_tris s))"
proof -
  obtain a b c where t: "tri = (a, b, c)" by (cases tri) auto
  show ?thesis
    using assms unfolding t
    by (simp add: add_triangle_def Let_def add_edge_if_absent_tris corners_def
        nth_list_update)
qed

lemma fold_add_triangle_tris: "m_tris (fold add_triangle tris s) = m_tris s @ tris"
  by (induction tris arbitrary: s) (simp_all add: add_triangle_tris)

lemma fold_add_triangle_incidence_length:
  "length (m_vertex_to_triangle_map (fold add_triangle tris s)) =
     length (m_vertex_to_triangle_map s)"
  by (induction tris arbitrary: s) (simp_all add: add_triangle_incidence_length)

lemma fold_add_triangle_incidence:
  "w < length (m_vertex_to_triangle_map s) \<Longrightarrow>
   m_vertex_to_triangle_map (fold add_triangle tris s) ! w =
     m_vertex_to_triangle_map s ! w @ new_incidence w (length (m_tris s)) tris"
proof (induction tris arbitrary: s)
  case Nil
  then show ?case by simp
next
  case (Cons tri tris)
  have "w < length (m_vertex_to_triangle_map (add_triangle tri s))"
    using Cons.prems by (simp add: add_triangle_incidence_length)
  from Cons.IH[OF this] show ?case
    using Cons.prems by (simp add: add_triangle_incidence add_triangle_tris)
qed

lemma fold_remove_triangle_tris:
  "m_tris (fold remove_triangle ts s) = fold (\<lambda>t l. l[t := (0, 0, 0)]) ts (m_tris s)"
  by (induction ts arbitrary: s) (simp_all add: remove_triangle_def)

lemma fold_remove_triangle_incidence:
  "m_vertex_to_triangle_map (fold remove_triangle ts s) =
     map (filter (\<lambda>t. t \<notin> set ts)) (m_vertex_to_triangle_map s)"
proof (induction ts arbitrary: s)
  case Nil
  then show ?case by simp
next
  case (Cons t ts)
  have f: "filter (\<lambda>x. x \<notin> set ts) (removeAll t l) = filter (\<lambda>x. x \<notin> set (t # ts)) l" for l
    by (induction l) auto
  have r: "m_vertex_to_triangle_map (remove_triangle t s) =
             map (removeAll t) (m_vertex_to_triangle_map s)"
    by (simp add: remove_triangle_def)
  have "m_vertex_to_triangle_map (fold remove_triangle (t # ts) s) =
          map (filter (\<lambda>x. x \<notin> set ts)) (map (removeAll t) (m_vertex_to_triangle_map s))"
    using Cons.IH[of "remove_triangle t s"] by (simp only: fold_simps r)
  also have "\<dots> = map (filter (\<lambda>x. x \<notin> set (t # ts))) (m_vertex_to_triangle_map s)"
    by (simp only: map_map o_def f)
  finally show ?case .
qed

lemma tombstones_length: "length (fold (\<lambda>t l. l[t := z]) ts l) = length l"
  by (induction ts arbitrary: l) simp_all

lemma tombstones_nth:
  "i < length l \<Longrightarrow> fold (\<lambda>t l. l[t := z]) ts l ! i = (if i \<in> set ts then z else l ! i)"
proof (induction ts arbitrary: l)
  case Nil
  then show ?case by simp
next
  case (Cons t ts)
  have "i < length (l[t := z])" using Cons.prems by simp
  from Cons.IH[OF this] show ?case using Cons.prems by (auto simp: nth_list_update)
qed

lemma tombstones_append:
  "\<forall>t \<in> set ts. t < length xs \<Longrightarrow>
   fold (\<lambda>t l. l[t := z]) ts (xs @ ys) = fold (\<lambda>t l. l[t := z]) ts xs @ ys"
  by (induction ts arbitrary: xs) (simp_all add: list_update_append)

lemma tombstones_map:
  "fold (\<lambda>t l. l[t := z]) ts l = map (\<lambda>i. if i \<in> set ts then z else l ! i) [0..<length l]"
  by (rule nth_equalityI) (simp_all add: tombstones_length tombstones_nth)

lemma replace_vertex_corners:
  "v \<noteq> d \<Longrightarrow> v \<notin> set (corners (replace_vertex v d tri))"
  by (cases tri) (simp add: replace_vertex_def corners_def)

lemma retargeted_triangles_corners:
  "tri \<in> set (retargeted_triangles s v d components) \<Longrightarrow> v < d \<Longrightarrow> v \<notin> set (corners tri)"
proof (induction components arbitrary: d)
  case Nil
  then show ?case by simp
next
  case (Cons c cs)
  from Cons.prems(1) consider
    "tri \<in> set (map (\<lambda>t. replace_vertex v d (get_triangle s t)) c)"
    | "tri \<in> set (retargeted_triangles s v (Suc d) cs)" by auto
  then show ?case
  proof cases
    case 1
    then obtain t where "tri = replace_vertex v d (get_triangle s t)" by auto
    with Cons.prems(2) show ?thesis by (simp add: replace_vertex_corners)
  next
    case 2
    from Cons.IH[OF this] Cons.prems(2) show ?thesis by simp
  qed
qed

lemma new_incidence_none:
  "\<forall>tri \<in> set tris. w \<notin> set (corners tri) \<Longrightarrow> new_incidence w t tris = []"
  by (induction tris arbitrary: t) (simp_all add: count_list_0_iff)

lemma partition_vertex_neighbourhood_mset:
  assumes "partition_vertex_neighbourhood adj vertex_to_triangle_map vertex_index [] =
             Some connected_components"
  shows "vertex_index < length vertex_to_triangle_map \<and>
         mset (concat connected_components) = mset (vertex_to_triangle_map ! vertex_index)"
proof -
  from assms have l: "vertex_index < length vertex_to_triangle_map"
    and p: "partition_loop adj (vertex_to_triangle_map ! vertex_index) [] =
              Some connected_components"
    by (simp_all add: partition_vertex_neighbourhood_def split: if_splits)
  from partition_loop_inv[of "vertex_to_triangle_map ! vertex_index"
      "set (vertex_to_triangle_map ! vertex_index)" adj "[]"]
  obtain res where
    "partition_loop adj (vertex_to_triangle_map ! vertex_index) [] = Some ([] @ res)"
    and "mset (concat res) = mset (vertex_to_triangle_map ! vertex_index)" by blast
  with p l show ?thesis by simp
qed

lemma pinched_frame:
  "pm_positions (pinched s v components) =
     pm_positions s @ map (pinch_position s v) (butlast components)"
  "m_vertex_free (pinched s v components) =
     m_vertex_free s @ replicate (length components - 1) False"
  by (simp_all add: pinched_def commit_frame with_duplicates_def)

lemma pinched_tris:
  assumes "\<forall>t \<in> set (concat (butlast components)). t < length (m_tris s)"
  shows "m_tris (pinched s v components) =
     map (\<lambda>t. if t \<in> set (concat (butlast components)) then (0, 0, 0) else m_tris s ! t)
       [0..<length (m_tris s)] @
     retargeted_triangles s v (length (pm_positions s)) (butlast components)"
proof -
  have "m_tris (pinched s v components) =
          fold (\<lambda>t l. l[t := (0, 0, 0)]) (concat (butlast components))
            (m_tris s @ retargeted_triangles s v (length (pm_positions s)) (butlast components))"
    unfolding pinched_def
    by (simp only: fold_remove_triangle_tris fold_add_triangle_tris with_duplicates_fields)
  also have "\<dots> =
          fold (\<lambda>t l. l[t := (0, 0, 0)]) (concat (butlast components)) (m_tris s) @
          retargeted_triangles s v (length (pm_positions s)) (butlast components)"
    by (rule tombstones_append[OF assms])
  also have "fold (\<lambda>t l. l[t := (0, 0, 0)]) (concat (butlast components)) (m_tris s) =
          map (\<lambda>t. if t \<in> set (concat (butlast components)) then (0, 0, 0) else m_tris s ! t)
            [0..<length (m_tris s)]"
    by (rule tombstones_map)
  finally show ?thesis .
qed

lemma pinched_incidence:
  assumes "aligned s" "v < length (pm_positions s)"
  shows "m_vertex_to_triangle_map (pinched s v components) ! v =
     filter (\<lambda>t. t \<notin> set (concat (butlast components))) (m_vertex_to_triangle_map s ! v)"
proof -
  let ?s1 = "with_duplicates s (map (pinch_position s v) (butlast components))
               (m_masses s ! v) False"
  let ?r = "retargeted_triangles s v (length (pm_positions s)) (butlast components)"
  have l: "v < length (m_vertex_to_triangle_map ?s1)"
    using assms by (simp add: with_duplicates_def aligned_def)
  have "\<forall>tri \<in> set ?r. v \<notin> set (corners tri)"
    using retargeted_triangles_corners[OF _ assms(2)] by blast
  then have n: "new_incidence v (length (m_tris ?s1)) ?r = []"
    by (rule new_incidence_none)
  have b: "m_vertex_to_triangle_map ?s1 ! v = m_vertex_to_triangle_map s ! v"
    using assms by (simp add: with_duplicates_def nth_append aligned_def)
  have a: "m_vertex_to_triangle_map (fold add_triangle ?r ?s1) ! v =
          m_vertex_to_triangle_map s ! v"
    by (simp only: fold_add_triangle_incidence[OF l] n b append_Nil2)
  have "v < length (m_vertex_to_triangle_map (fold add_triangle ?r ?s1))"
    using l by (simp only: fold_add_triangle_incidence_length)
  then show ?thesis
    unfolding pinched_def
    by (simp only: fold_remove_triangle_incidence nth_map a)
qed

lemma new_incidence_append:
  "new_incidence w t (xs @ ys) = new_incidence w t xs @ new_incidence w (t + length xs) ys"
  by (induction xs arbitrary: t) simp_all

lemma corners_replace_vertex:
  "corners (replace_vertex v d tri) = map (\<lambda>w. if w = v then d else w) (corners tri)"
  by (cases tri) (simp add: replace_vertex_def corners_def)

lemma count_list_replaced:
  assumes "\<forall>w \<in> set ws. w < (n::nat)" "n \<le> d"
  shows "count_list (map (\<lambda>w. if w = v then d else w) ws) d = count_list ws v"
  using assms(1)
proof (induction ws)
  case Nil
  then show ?case by simp
next
  case (Cons w ws)
  then have "w < n" by simp
  with assms(2) have "w \<noteq> d" by simp
  with Cons show ?case by simp
qed

lemma not_in_replaced:
  assumes "\<forall>w \<in> set ws. w < (n::nat)" "n \<le> u" "u \<noteq> d"
  shows "u \<notin> set (map (\<lambda>w. if w = v then d else w) ws)"
proof
  assume "u \<in> set (map (\<lambda>w. if w = v then d else w) ws)"
  then obtain w where w: "w \<in> set ws" and u: "u = (if w = v then d else w)" by auto
  from w assms(1) have "w < n" by simp
  with u assms(2,3) show False by (simp split: if_splits)
qed

definition pinch_ready :: "surface \<Rightarrow> nat \<Rightarrow> nat \<Rightarrow> bool" where
  "pinch_ready s v t =
     (count_list (corners (get_triangle s t)) v = 1 \<and>
      list_all (\<lambda>w. w < length (pm_positions s)) (corners (get_triangle s t)))"

lemma new_incidence_own:
  assumes "\<forall>t \<in> set c. pinch_ready s v t" "length (pm_positions s) \<le> d"
  shows "new_incidence d T (map (\<lambda>t. replace_vertex v d (get_triangle s t)) c) =
           [T ..< T + length c]"
  using assms(1)
proof (induction c arbitrary: T)
  case Nil
  then show ?case by simp
next
  case (Cons t c)
  from Cons.prems have r: "pinch_ready s v t" by simp
  then have "count_list (corners (replace_vertex v d (get_triangle s t))) d = 1"
    using count_list_replaced[of "corners (get_triangle s t)" "length (pm_positions s)" d v]
      assms(2)
    by (simp add: pinch_ready_def corners_replace_vertex list_all_iff)
  moreover have "new_incidence d (Suc T) (map (\<lambda>t. replace_vertex v d (get_triangle s t)) c) =
                   [Suc T ..< Suc T + length c]"
    using Cons by simp
  moreover have "[T ..< T + length (t # c)] = T # [Suc T ..< Suc T + length c]"
    by (subst upt_rec) simp
  ultimately show ?case by simp
qed

lemma new_incidence_other:
  assumes "\<forall>t \<in> set c. pinch_ready s v t" "length (pm_positions s) \<le> u" "u \<noteq> d"
  shows "new_incidence u T (map (\<lambda>t. replace_vertex v d (get_triangle s t)) c) = []"
proof (rule new_incidence_none, rule ballI)
  fix tri assume "tri \<in> set (map (\<lambda>t. replace_vertex v d (get_triangle s t)) c)"
  then obtain t where t: "t \<in> set c" and tri: "tri = replace_vertex v d (get_triangle s t)"
    by auto
  from t assms(1) have "\<forall>w \<in> set (corners (get_triangle s t)). w < length (pm_positions s)"
    by (simp add: pinch_ready_def list_all_iff)
  from not_in_replaced[OF this assms(2,3)]
  show "u \<notin> set (corners tri)" unfolding tri corners_replace_vertex .
qed

lemma new_incidence_earlier:
  assumes "\<forall>t \<in> set (concat cs). pinch_ready s v t" "length (pm_positions s) \<le> u" "u < d"
  shows "new_incidence u T (retargeted_triangles s v d cs) = []"
  using assms(1,3)
proof (induction cs arbitrary: d T)
  case Nil
  then show ?case by simp
next
  case (Cons c cs)
  have a: "new_incidence u T (map (\<lambda>t. replace_vertex v d (get_triangle s t)) c) = []"
    using Cons.prems assms(2) by (intro new_incidence_other) auto
  have b: "new_incidence u (T + length c) (retargeted_triangles s v (Suc d) cs) = []"
    using Cons.prems by (intro Cons.IH) auto
  show ?case by (simp add: new_incidence_append a b)
qed

lemma new_incidence_duplicate:
  assumes "\<forall>t \<in> set (concat cs). pinch_ready s v t" "length (pm_positions s) \<le> d"
    and "i < length cs"
  shows "new_incidence (d + i) T (retargeted_triangles s v d cs) =
           [T + length (concat (take i cs)) ..< T + length (concat (take (Suc i) cs))]"
  using assms
proof (induction cs arbitrary: d T i)
  case Nil
  then show ?case by simp
next
  case (Cons c cs)
  show ?case
  proof (cases i)
    case 0
    have a: "new_incidence d T (map (\<lambda>t. replace_vertex v d (get_triangle s t)) c) =
               [T ..< T + length c]"
      using Cons.prems by (intro new_incidence_own) auto
    have b: "new_incidence d (T + length c) (retargeted_triangles s v (Suc d) cs) = []"
      using Cons.prems by (intro new_incidence_earlier) auto
    show ?thesis unfolding 0 by (simp add: new_incidence_append a b)
  next
    case (Suc j)
    have a: "new_incidence (Suc (d + j)) T
               (map (\<lambda>t. replace_vertex v d (get_triangle s t)) c) = []"
      using Cons.prems by (intro new_incidence_other) auto
    have "new_incidence (Suc d + j) (T + length c) (retargeted_triangles s v (Suc d) cs) =
            [T + length c + length (concat (take j cs)) ..<
             T + length c + length (concat (take (Suc j) cs))]"
      using Cons.prems Suc by (intro Cons.IH) auto
    then show ?thesis unfolding Suc by (simp add: new_incidence_append a add.assoc)
  qed
qed

lemma pinched_duplicate_incidence:
  assumes "aligned s"
    and "\<forall>t \<in> set (concat (butlast components)). pinch_ready s v t \<and> t < length (m_tris s)"
    and "i < length components - 1"
  shows "m_vertex_to_triangle_map (pinched s v components) ! (length (pm_positions s) + i) =
           [length (m_tris s) + length (concat (take i components)) ..<
            length (m_tris s) + length (concat (take (Suc i) components))]"
proof -
  let ?n = "length (pm_positions s)"
  let ?s1 = "with_duplicates s (map (pinch_position s v) (butlast components))
               (m_masses s ! v) False"
  let ?r = "retargeted_triangles s v ?n (butlast components)"
  let ?new = "[length (m_tris s) + length (concat (take i components)) ..<
               length (m_tris s) + length (concat (take (Suc i) components))]"
  have l: "?n + i < length (m_vertex_to_triangle_map ?s1)"
    using assms(1,3) by (simp add: with_duplicates_def aligned_def)
  have e: "m_vertex_to_triangle_map ?s1 ! (?n + i) = []"
    using assms(1,3) by (simp add: with_duplicates_def aligned_def nth_append)
  have i: "i < length (butlast components)" using assms(3) by simp
  have t: "take i (butlast components) = take i components"
    "take (Suc i) (butlast components) = take (Suc i) components"
    using assms(3) by (simp_all add: take_butlast)
  have n: "new_incidence (?n + i) (length (m_tris ?s1)) ?r = ?new"
    using new_incidence_duplicate[of "butlast components" s v ?n i "length (m_tris s)"]
      assms(2) i
    by (simp add: with_duplicates_fields t)
  have a: "m_vertex_to_triangle_map (fold add_triangle ?r ?s1) ! (?n + i) = ?new"
    by (simp only: fold_add_triangle_incidence[OF l] n e append_Nil)
  have k: "filter (\<lambda>t. t \<notin> set (concat (butlast components))) ?new = ?new"
  proof -
    have "\<forall>t \<in> set ?new. t \<notin> set (concat (butlast components))"
      using assms(2) by fastforce
    then show ?thesis by (simp only: filter_True)
  qed
  have "?n + i < length (m_vertex_to_triangle_map (fold add_triangle ?r ?s1))"
    using l by (simp only: fold_add_triangle_incidence_length)
  then show ?thesis
    unfolding pinched_def
    by (simp only: fold_remove_triangle_incidence nth_map a k)
qed

lemma pinch_ready_corners_in_range:
  assumes "\<forall>t \<in> set (concat components). pinch_ready s v t"
  shows "list_all (corners_in_range s) components"
  using assms
  by (auto simp: list_all_iff corners_in_range_def pinch_ready_def corners_def
      split: prod.splits)

text \<open>
  Claim C8, as the code has it. For a vertex whose incident triangles fall into
  \<open>k \<ge> 2\<close> components, \<^verbatim>\<open>process_mesh\<close> calls \<^verbatim>\<open>pull_apart_vertex\<close>, which creates
  one duplicate for every component but the last (\<open>k - 1\<close> new vertices) and, unless
  the collision check fails, commits the pinch and returns true. The duplicate of a
  component is placed at \<open>(1 - dx) * x + dx * c\<close>, where \<open>x\<close> is the position of the
  vertex, \<open>c\<close> the centroid of the component's other corners and
  \<open>dx = 10 * proximity_epsilon\<close>: \<open>dx\<close> is the fraction of the way to the centroid,
  not a distance. The triangles of every component but the last are removed, and their
  copies, with the vertex replaced by the duplicate of the component, are added at the
  end of the triangle table: they are the triangles incident to that duplicate. The last
  component keeps the original vertex, which does not move: its triangles are as they
  were, and they are the triangles left incident to the vertex.
\<close>

theorem pull_apart_vertex_commit:
  assumes "aligned s" "vertex_index < get_num_vertices s"
    and "\<not> pinch_collision_occurs ext
           (fst (duplicate_vertices vertex_index connected_components s))
           (fst (snd (snd (duplicate_vertices vertex_index connected_components s))))"
    and "partition_vertex_neighbourhood (triangles_are_adjacent ext s)
           (m_vertex_to_triangle_map s) vertex_index [] = Some connected_components"
    and "length connected_components > 1"
    and "distinct (m_vertex_to_triangle_map s ! vertex_index)"
    and "list_all (\<lambda>t. t < length (m_tris s) \<and> pinch_ready s vertex_index t)
           (m_vertex_to_triangle_map s ! vertex_index)"
  shows "process_mesh_vertex ext vertex_index s =
           Some (pinched s vertex_index connected_components) \<and>
         pull_apart_vertex ext vertex_index connected_components s =
           (pinched s vertex_index connected_components, True) \<and>
         get_num_vertices (pinched s vertex_index connected_components) =
           get_num_vertices s + (length connected_components - 1) \<and>
         pm_positions (pinched s vertex_index connected_components) =
           pm_positions s @
           map (pinch_position s vertex_index) (butlast connected_components) \<and>
         m_vertex_free (pinched s vertex_index connected_components) =
           m_vertex_free s @ replicate (length connected_components - 1) False \<and>
         m_tris (pinched s vertex_index connected_components) =
           map (\<lambda>t. if t \<in> set (concat (butlast connected_components)) then (0, 0, 0)
                     else m_tris s ! t) [0..<length (m_tris s)] @
           retargeted_triangles s vertex_index (get_num_vertices s)
             (butlast connected_components) \<and>
         (\<forall>t \<in> set (last connected_components).
            get_triangle (pinched s vertex_index connected_components) t = get_triangle s t) \<and>
         m_vertex_to_triangle_map (pinched s vertex_index connected_components) ! vertex_index =
           filter (\<lambda>t. t \<in> set (last connected_components))
             (m_vertex_to_triangle_map s ! vertex_index) \<and>
         set (m_vertex_to_triangle_map (pinched s vertex_index connected_components) !
                vertex_index) = set (last connected_components) \<and>
         (\<forall>i < length connected_components - 1.
            m_vertex_to_triangle_map (pinched s vertex_index connected_components) !
              (get_num_vertices s + i) =
              [length (m_tris s) + length (concat (take i connected_components)) ..<
               length (m_tris s) + length (concat (take (Suc i) connected_components))])"
proof -
  let ?v = vertex_index
  let ?cs = connected_components
  let ?inc = "m_vertex_to_triangle_map s ! ?v"
  let ?p = "pinched s ?v ?cs"
  have v: "?v < length (pm_positions s)" using assms(2) by (simp add: get_num_vertices_def)
  have n: "get_num_vertices s = length (pm_positions s)" by (simp add: get_num_vertices_def)
  from partition_vertex_neighbourhood_mset[OF assms(4)]
  have m: "mset (concat ?cs) = mset ?inc" by simp
  then have se: "set (concat ?cs) = set ?inc" by (rule mset_eq_setD)
  have di: "distinct (concat ?cs)"
    using m assms(6) by (metis mset_eq_imp_distinct_iff)
  have ne: "?cs \<noteq> []" using assms(5) by auto
  have "concat (butlast ?cs @ [last ?cs]) = concat (butlast ?cs) @ last ?cs" by simp
  then have cc: "concat ?cs = concat (butlast ?cs) @ last ?cs"
    unfolding append_butlast_last_id[OF ne] .
  have dj: "set (concat (butlast ?cs)) \<inter> set (last ?cs) = {}"
    using di unfolding cc by simp
  have un: "set ?inc = set (concat (butlast ?cs)) \<union> set (last ?cs)"
    using se unfolding cc by simp
  have rd: "\<forall>t \<in> set (concat ?cs). t < length (m_tris s) \<and> pinch_ready s ?v t"
    using assms(7) se by (simp add: list_all_iff)
  have rb: "\<forall>t \<in> set (concat (butlast ?cs)). pinch_ready s ?v t \<and> t < length (m_tris s)"
  proof
    fix t assume "t \<in> set (concat (butlast ?cs))"
    then have "t \<in> set (concat ?cs)" unfolding cc by simp
    with rd show "pinch_ready s ?v t \<and> t < length (m_tris s)" by blast
  qed
  have cr: "list_all (corners_in_range s) ?cs"
    using rd by (intro pinch_ready_corners_in_range) auto
  have d: "duplicate_vertices ?v ?cs s =
         (with_duplicates s (map (pinch_position s ?v) (butlast ?cs)) (m_masses s ! ?v) False,
          concat (butlast ?cs),
          retargeted_triangles s ?v (length (pm_positions s)) (butlast ?cs),
          [length (pm_positions s) ..< length (pm_positions s) + (length ?cs - 1)])"
    by (rule duplicate_vertices_triangles[OF assms(1) v cr])
  from assms(3) have p: "pull_apart_vertex ext ?v ?cs s = (?p, True)"
    unfolding pull_apart_vertex_def d pinched_def by simp
  have q: "process_mesh_vertex ext ?v s = Some ?p"
    using assms(4,5) p by (simp add: process_mesh_vertex_def)
  have f: "pm_positions ?p = pm_positions s @ map (pinch_position s ?v) (butlast ?cs)"
    "m_vertex_free ?p = m_vertex_free s @ replicate (length ?cs - 1) False"
    by (rule pinched_frame)+
  have g: "get_num_vertices ?p = get_num_vertices s + (length ?cs - 1)"
    by (simp add: get_num_vertices_def f)
  have t: "m_tris ?p =
           map (\<lambda>t. if t \<in> set (concat (butlast ?cs)) then (0, 0, 0) else m_tris s ! t)
             [0..<length (m_tris s)] @
           retargeted_triangles s ?v (get_num_vertices s) (butlast ?cs)"
    unfolding n using rb by (intro pinched_tris) blast
  have k: "\<forall>t \<in> set (last ?cs). get_triangle ?p t = get_triangle s t"
  proof
    fix t assume a: "t \<in> set (last ?cs)"
    then have "t \<in> set (concat ?cs)" unfolding cc by simp
    with rd have l: "t < length (m_tris s)" by blast
    from a dj have "t \<notin> set (concat (butlast ?cs))" by auto
    with l show "get_triangle ?p t = get_triangle s t"
      by (simp add: get_triangle_def t nth_append)
  qed
  have "m_vertex_to_triangle_map ?p ! ?v =
          filter (\<lambda>t. t \<notin> set (concat (butlast ?cs))) ?inc"
    by (rule pinched_incidence[OF assms(1) v])
  also have "\<dots> = filter (\<lambda>t. t \<in> set (last ?cs)) ?inc"
    using un dj by (intro filter_cong) auto
  finally have i: "m_vertex_to_triangle_map ?p ! ?v = filter (\<lambda>t. t \<in> set (last ?cs)) ?inc" .
  have j: "set (m_vertex_to_triangle_map ?p ! ?v) = set (last ?cs)"
    unfolding i using un by auto
  have u: "\<forall>i < length ?cs - 1.
            m_vertex_to_triangle_map ?p ! (get_num_vertices s + i) =
              [length (m_tris s) + length (concat (take i ?cs)) ..<
               length (m_tris s) + length (concat (take (Suc i) ?cs))]"
    unfolding n using pinched_duplicate_incidence[OF assms(1) rb] by blast
  show ?thesis by (intro conjI; fact)
qed

subsection \<open>A bow tie\<close>

text \<open>
  Two triangles in the plane \<open>z = 0\<close> that share vertex 0 and nothing else.
\<close>

definition bowtie :: surface where
  "bowtie =
     \<lparr>pm_positions = [(0, 0, 0), (1, 0, 0), (1, 1, 0), (- 1, 0, 0), (- 1, - 1, 0)],
      pm_newpositions = [(0, 0, 0), (1, 0, 0), (1, 1, 0), (- 1, 0, 0), (- 1, - 1, 0)],
      m_velocities = [(0, 0, 0), (0, 0, 0), (0, 0, 0), (0, 0, 0), (0, 0, 0)],
      m_masses = [1, 1, 1, 1, 1],
      m_vertex_free = [False, False, False, False, False],
      m_tris = [(0, 1, 2), (0, 3, 4)],
      m_edges = [(0, 1), (1, 2), (2, 0), (0, 3), (3, 4), (4, 0)],
      m_vertex_to_triangle_map = [[0, 1], [0], [0], [1], [1]],
      m_vertex_to_edge_map = [[0, 2, 3, 5], [0, 1], [1, 2], [3, 4], [4, 5]],
      m_proximity_epsilon = 1/100,
      m_collision_safety = True\<rparr>"

text \<open>
  Externals for the bow tie: two triangles are adjacent when they share two vertices;
  the broad phase returns every triangle. In \<open>blocked_externals\<close> the
  triangle-triangle test reports an intersection, in \<open>free_externals\<close> it reports
  none.
\<close>

definition free_externals :: externals where
  "free_externals =
     null_externals
       \<lparr>triangles_are_adjacent :=
          (\<lambda>s a b. case (m_tris s ! a, m_tris s ! b) of
                      ((a0, a1, a2), (b0, b1, b2)) \<Rightarrow>
                        2 \<le> length (filter (\<lambda>w. w \<in> {b0, b1, b2}) [a0, a1, a2])),
        get_potential_triangle_collisions :=
          (\<lambda>s low high rs rd. [0..<length (m_tris s)])\<rparr>"

definition blocked_externals :: externals where
  "blocked_externals =
     free_externals\<lparr>check_triangle_triangle_intersection := (\<lambda>a b ps. True)\<rparr>"

definition bowtie_components :: "nat list list" where
  "bowtie_components = [[1], [0]]"

lemma bowtie_well_formed:
  "aligned bowtie" "0 < get_num_vertices bowtie"
  "list_all (corners_in_range bowtie) bowtie_components"
  by (simp_all add: aligned_def get_num_vertices_def corners_in_range_def get_triangle_def
      bowtie_def bowtie_components_def)

lemma bowtie_partition:
  "partition_vertex_neighbourhood (triangles_are_adjacent free_externals bowtie)
     (m_vertex_to_triangle_map bowtie) 0 [] = Some bowtie_components"
  by (simp add: partition_vertex_neighbourhood_def partition_loop.simps grow_component.simps
      free_externals_def null_externals_def bowtie_def bowtie_components_def)

definition bowtie_copy :: Vec3d where
  "bowtie_copy = (- (1/10), - (1/20), 0)"

lemma bowtie_pinch_position:
  "map (pinch_position bowtie 0) (butlast bowtie_components) = [bowtie_copy]"
  by (simp add: pinch_position_def component_centroid_def other_corners_def get_triangle_def
      get_position_def bowtie_def bowtie_components_def bowtie_copy_def)

lemma bowtie_facts:
  "length (pm_positions bowtie) = 5" "m_masses bowtie ! 0 = 1"
  "get_position bowtie 0 = (0, 0, 0)" "m_proximity_epsilon bowtie = 1/100"
  by (simp_all add: get_position_def bowtie_def)

lemma bowtie_duplicates:
  "duplicate_vertices 0 bowtie_components bowtie =
     (with_duplicates bowtie [bowtie_copy] 1 False, [1], [(5, 3, 4)], [5])"
proof -
  have a: "add_vertex (0, 0, 0) 1 bowtie = (5, with_duplicates bowtie [(0, 0, 0)] 1 False)"
    by (simp add: add_vertex_def with_duplicates_def bowtie_def)
  have m: "map_component (with_duplicates bowtie [(0, 0, 0)] 1 False) 0 5 [Suc 0]
             ((0, 0, 0), [], []) = ((- 2, - 1, 0), [(5, 3, 4)], [Suc 0])"
    by (simp add: map_component_eq replace_vertex_def other_corners_def get_triangle_def
        get_position_def with_duplicates_def bowtie_def)
  have u: "set_newposition 5 x (set_position 5 x (with_duplicates bowtie [(0, 0, 0)] 1 False)) =
             with_duplicates bowtie [x] 1 False" for x
    by (simp add: set_newposition_def set_position_def with_duplicates_def bowtie_def)
  have g: "get_position (with_duplicates bowtie [(0, 0, 0)] 1 False) 5 = (0, 0, 0)"
    by (simp add: get_position_def with_duplicates_def bowtie_def)
  show ?thesis
    by (simp add: duplicate_vertices_def duplicate_for_component_def bowtie_components_def
        bowtie_facts g a m u Let_def bowtie_copy_def del: map_component.simps)
qed

lemma bowtie_blocked:
  "pinch_collision_occurs blocked_externals (with_duplicates bowtie [bowtie_copy] 1 False)
     [(5, 3, 4)]"
  by (simp add: pinch_collision_occurs_def blocked_externals_def free_externals_def
      null_externals_def with_duplicates_def bowtie_def get_position_def)

lemma bowtie_free:
  "\<not> pinch_collision_occurs free_externals (with_duplicates bowtie [bowtie_copy] 1 False)
     [(5, 3, 4)]"
  by (simp add: pinch_collision_occurs_def free_externals_def
      null_externals_def with_duplicates_def bowtie_def get_position_def)

lemma bowtie_abort:
  "pull_apart_vertex blocked_externals 0 bowtie_components bowtie =
     (with_duplicates bowtie [bowtie_copy] 1 True, False)"
  using remove_duplicates[OF bowtie_well_formed(1), of "[bowtie_copy]" 1]
  by (simp add: pull_apart_vertex_def bowtie_duplicates bowtie_blocked bowtie_facts)

lemma bowtie_commit_positions:
  "pm_positions (fst (pull_apart_vertex free_externals 0 bowtie_components bowtie)) =
     pm_positions bowtie @ [bowtie_copy]"
  by (simp add: pull_apart_vertex_def bowtie_duplicates bowtie_free remove_triangle_frame
      add_triangle_frame with_duplicates_fields)

theorem pull_apart_vertex_abort_witness:
  "aligned bowtie \<and> 0 < get_num_vertices bowtie \<and>
   list_all (corners_in_range bowtie) bowtie_components \<and>
   pinch_collision_occurs blocked_externals
     (fst (duplicate_vertices 0 bowtie_components bowtie))
     (fst (snd (snd (duplicate_vertices 0 bowtie_components bowtie)))) \<and>
   pull_apart_vertex blocked_externals 0 bowtie_components bowtie =
     (with_duplicates bowtie [bowtie_copy] 1 True, False) \<and>
   m_tris (with_duplicates bowtie [bowtie_copy] 1 True) = m_tris bowtie \<and>
   m_vertex_free (with_duplicates bowtie [bowtie_copy] 1 True) =
     [False, False, False, False, False, True]"
proof -
  have c: "pinch_collision_occurs blocked_externals
     (fst (duplicate_vertices 0 bowtie_components bowtie))
     (fst (snd (snd (duplicate_vertices 0 bowtie_components bowtie))))"
    by (simp add: bowtie_duplicates bowtie_blocked)
  from pull_apart_vertex_abort[OF bowtie_well_formed c]
  have "pull_apart_vertex blocked_externals 0 bowtie_components bowtie =
     (with_duplicates bowtie [bowtie_copy] 1 True, False)"
    by (simp add: bowtie_pinch_position bowtie_facts)
  moreover have "m_tris (with_duplicates bowtie [bowtie_copy] 1 True) = m_tris bowtie"
    "m_vertex_free (with_duplicates bowtie [bowtie_copy] 1 True) =
       [False, False, False, False, False, True]"
    by (simp_all add: with_duplicates_def bowtie_def)
  ultimately show ?thesis using bowtie_well_formed c by simp
qed

text \<open>
  The claim as stated fails: after the aborted pinch of the bow tie the surface is not
  what it was, the vertex tables hold a sixth slot.
\<close>

theorem pull_apart_vertex_abort_not_identical:
  "\<not> snd (pull_apart_vertex blocked_externals 0 bowtie_components bowtie) \<and>
   fst (pull_apart_vertex blocked_externals 0 bowtie_components bowtie) \<noteq> bowtie \<and>
   get_num_vertices bowtie = 5 \<and>
   get_num_vertices (fst (pull_apart_vertex blocked_externals 0 bowtie_components bowtie)) = 6"
proof -
  have n: "get_num_vertices bowtie = 5"
    "get_num_vertices (with_duplicates bowtie [bowtie_copy] 1 True) = 6"
    by (simp_all add: get_num_vertices_def with_duplicates_def bowtie_def)
  then have "with_duplicates bowtie [bowtie_copy] 1 True \<noteq> bowtie" by auto
  with n show ?thesis by (simp add: bowtie_abort)
qed

lemma bowtie_incidence:
  "distinct (m_vertex_to_triangle_map bowtie ! 0)"
  "list_all (\<lambda>t. t < length (m_tris bowtie) \<and> pinch_ready bowtie 0 t)
     (m_vertex_to_triangle_map bowtie ! 0)"
  by (simp_all add: pinch_ready_def corners_def get_triangle_def bowtie_def)

lemma bowtie_retargeted:
  "retargeted_triangles bowtie 0 5 (butlast bowtie_components) = [(5, 3, 4)]"
  by (simp add: bowtie_components_def replace_vertex_def get_triangle_def bowtie_def)

text \<open>
  Claim C8 as the code has it, on the bow tie: the pinch of vertex 0 is committed; vertex
  5 is the one duplicate, at \<open>(- 1/10, - 1/20, 0)\<close>; triangle 1 (the first component)
  is removed and its copy on the duplicate, \<open>(5, 3, 4)\<close>, added as triangle 2;
  triangle 0 (the last component) is as it was and is the one triangle left on vertex 0.
\<close>

theorem pull_apart_vertex_commit_witness:
  "aligned bowtie \<and> 0 < get_num_vertices bowtie \<and>
   \<not> pinch_collision_occurs free_externals
     (fst (duplicate_vertices 0 bowtie_components bowtie))
     (fst (snd (snd (duplicate_vertices 0 bowtie_components bowtie)))) \<and>
   partition_vertex_neighbourhood (triangles_are_adjacent free_externals bowtie)
     (m_vertex_to_triangle_map bowtie) 0 [] = Some bowtie_components \<and>
   length bowtie_components = 2 \<and>
   distinct (m_vertex_to_triangle_map bowtie ! 0) \<and>
   list_all (\<lambda>t. t < length (m_tris bowtie) \<and> pinch_ready bowtie 0 t)
     (m_vertex_to_triangle_map bowtie ! 0) \<and>
   process_mesh_vertex free_externals 0 bowtie = Some (pinched bowtie 0 bowtie_components) \<and>
   pull_apart_vertex free_externals 0 bowtie_components bowtie =
     (pinched bowtie 0 bowtie_components, True) \<and>
   pm_positions (pinched bowtie 0 bowtie_components) = pm_positions bowtie @ [bowtie_copy] \<and>
   m_tris bowtie = [(0, 1, 2), (0, 3, 4)] \<and>
   m_tris (pinched bowtie 0 bowtie_components) = [(0, 1, 2), (0, 0, 0), (5, 3, 4)] \<and>
   m_vertex_to_triangle_map bowtie ! 0 = [0, 1] \<and>
   m_vertex_to_triangle_map (pinched bowtie 0 bowtie_components) ! 0 = [0] \<and>
   m_vertex_to_triangle_map (pinched bowtie 0 bowtie_components) ! 5 = [2]"
proof -
  have c: "\<not> pinch_collision_occurs free_externals
     (fst (duplicate_vertices 0 bowtie_components bowtie))
     (fst (snd (snd (duplicate_vertices 0 bowtie_components bowtie))))"
    by (simp add: bowtie_duplicates bowtie_free)
  have l: "length bowtie_components > 1" "length bowtie_components = 2"
    "butlast bowtie_components = [[1]]" "last bowtie_components = [0]"
    by (simp_all add: bowtie_components_def)
  have n: "get_num_vertices bowtie = 5" "length (m_tris bowtie) = 2"
    "m_tris bowtie = [(0, 1, 2), (0, 3, 4)]" "m_vertex_to_triangle_map bowtie ! 0 = [0, 1]"
    by (simp_all add: get_num_vertices_def bowtie_def)
  note r = pull_apart_vertex_commit[OF bowtie_well_formed(1,2) c bowtie_partition l(1)
      bowtie_incidence]
  from r have p: "process_mesh_vertex free_externals 0 bowtie =
      Some (pinched bowtie 0 bowtie_components)"
    "pull_apart_vertex free_externals 0 bowtie_components bowtie =
      (pinched bowtie 0 bowtie_components, True)"
    by simp_all
  from r have x: "pm_positions (pinched bowtie 0 bowtie_components) =
      pm_positions bowtie @ [bowtie_copy]"
    by (simp add: bowtie_pinch_position)
  from r have "m_tris (pinched bowtie 0 bowtie_components) =
      map (\<lambda>t. if t \<in> set (concat (butlast bowtie_components)) then (0, 0, 0)
                else m_tris bowtie ! t) [0..<length (m_tris bowtie)] @
      retargeted_triangles bowtie 0 (get_num_vertices bowtie) (butlast bowtie_components)"
    by blast
  then have t: "m_tris (pinched bowtie 0 bowtie_components) =
      [(0, 1, 2), (0, 0, 0), (5, 3, 4)]"
    by (simp add: n bowtie_retargeted) (simp add: l upt_rec)
  from r have "m_vertex_to_triangle_map (pinched bowtie 0 bowtie_components) ! 0 =
      filter (\<lambda>t. t \<in> set (last bowtie_components)) (m_vertex_to_triangle_map bowtie ! 0)"
    by blast
  then have i0: "m_vertex_to_triangle_map (pinched bowtie 0 bowtie_components) ! 0 = [0]"
    by (simp add: n l)
  from r have "\<forall>i < length bowtie_components - 1.
      m_vertex_to_triangle_map (pinched bowtie 0 bowtie_components) ! (get_num_vertices bowtie + i) =
        [length (m_tris bowtie) + length (concat (take i bowtie_components)) ..<
         length (m_tris bowtie) + length (concat (take (Suc i) bowtie_components))]"
    by blast
  from this[rule_format, of 0]
  have i5: "m_vertex_to_triangle_map (pinched bowtie 0 bowtie_components) ! 5 = [2]"
    by (simp add: n l bowtie_components_def upt_rec)
  from bowtie_well_formed(1,2) c bowtie_partition l(2) bowtie_incidence p x n(3,4) t i0 i5
  show ?thesis by simp
qed

text \<open>
  The claim as stated fails: the pinched vertex of the bow tie has two components, yet
  one duplicate is created, not two; the second component keeps vertex 0 where it was;
  and the duplicate lies at squared distance \<open>1/80\<close> from the vertex, not at distance
  \<open>10 * proximity_epsilon = 1/10\<close>.
\<close>

theorem pull_apart_vertex_one_duplicate:
  "partition_vertex_neighbourhood (triangles_are_adjacent free_externals bowtie)
     (m_vertex_to_triangle_map bowtie) 0 [] = Some bowtie_components \<and>
   length bowtie_components = 2 \<and>
   get_num_vertices (fst (pull_apart_vertex free_externals 0 bowtie_components bowtie)) =
     get_num_vertices bowtie + 1 \<and>
   get_position (fst (pull_apart_vertex free_externals 0 bowtie_components bowtie)) 0 =
     get_position bowtie 0 \<and>
   get_position (fst (pull_apart_vertex free_externals 0 bowtie_components bowtie)) 5 =
     bowtie_copy \<and>
   dot (vsub bowtie_copy (get_position bowtie 0)) (vsub bowtie_copy (get_position bowtie 0)) =
     1/80 \<and>
   (10 * m_proximity_epsilon bowtie)\<^sup>2 = 1/100"
proof -
  have "get_position (fst (pull_apart_vertex free_externals 0 bowtie_components bowtie)) 0 =
          get_position bowtie 0"
    "get_position (fst (pull_apart_vertex free_externals 0 bowtie_components bowtie)) 5 =
          bowtie_copy"
    by (simp_all add: get_position_def bowtie_commit_positions bowtie_facts nth_append)
  moreover have "dot (vsub bowtie_copy (get_position bowtie 0))
                     (vsub bowtie_copy (get_position bowtie 0)) = 1/80"
    "(10 * m_proximity_epsilon bowtie)\<^sup>2 = 1/100"
    by (simp_all add: bowtie_facts bowtie_copy_def power2_eq_square)
  moreover have "length bowtie_components = 2" by (simp add: bowtie_components_def)
  ultimately show ?thesis
    by (simp add: bowtie_partition get_num_vertices_def bowtie_commit_positions)
qed

end
